(* ===== verification/Prelude.thy ===== *)
theory Prelude
  imports Complex_Main "HOL-Library.AList"
begin

text \<open>
  Shared vocabulary of the CraftAssistant development.  The Python script
  \<open>src/CraftAssistant/data/scrapper.py\<close> signals every failure by an exception; the
  model returns a value of \<open>'a result = pyerr + 'a\<close> instead, \<open>Inl\<close> being the raised
  exception.  A loop whose body may raise is \<open>r_foldl\<close>, which stops at the first
  \<open>Inl\<close> as the exception would.  Python dictionaries built by the script keep their
  insertion order, so they are association lists updated with \<open>AList.update\<close> and
  \<open>AList.map_entry\<close> (an assignment to an existing key keeps its position, as in
  Python).  The collection \<open>py_simps\<close> gathers the evaluation lemmas of the Python
  primitives that the component theories use in their proofs.
\<close>

named_theorems py_simps "evaluation lemmas of the modelled Python primitives"

datatype pyerr =
    KeyError
  | ValueError
  | TypeError
  | IndexError
  | AttributeError
  | ZeroDivisionError
  | OverflowError
  | JSONDecodeError
  | OSError
  | FetchError string int

type_synonym 'a result = "pyerr + 'a"

definition rbind :: "'a result \<Rightarrow> ('a \<Rightarrow> 'b result) \<Rightarrow> 'b result" where
  "rbind r f = (case r of Inl e \<Rightarrow> Inl e | Inr v \<Rightarrow> f v)"

text \<open>A \<open>for\<close> loop over a list whose body may raise: the accumulator is threaded
  through, and the first exception ends the loop.\<close>

fun r_foldl :: "('b \<Rightarrow> 'a \<Rightarrow> 'b result) \<Rightarrow> 'b \<Rightarrow> 'a list \<Rightarrow> 'b result" where
  "r_foldl f acc [] = Inr acc"
| "r_foldl f acc (x # xs) = rbind (f acc x) (\<lambda>acc'. r_foldl f acc' xs)"

text \<open>A list comprehension \<open>[f(x) for x in xs]\<close> whose element expression may raise.\<close>

fun r_map :: "('a \<Rightarrow> 'b result) \<Rightarrow> 'a list \<Rightarrow> 'b list result" where
  "r_map f [] = Inr []"
| "r_map f (x # xs) = rbind (f x) (\<lambda>y. rbind (r_map f xs) (\<lambda>ys. Inr (y # ys)))"

text \<open>\<open>next((x for x in xs if p(x)), None)\<close>: the first element passing a test
  that may raise.\<close>

fun r_find :: "('a \<Rightarrow> bool result) \<Rightarrow> 'a list \<Rightarrow> 'a option result" where
  "r_find p [] = Inr None"
| "r_find p (x # xs) = rbind (p x) (\<lambda>b. if b then Inr (Some x) else r_find p xs)"

text \<open>Python list indexing \<open>xs[i]\<close> with a non-negative index.\<close>

definition py_nth :: "'a list \<Rightarrow> nat \<Rightarrow> 'a result" where
  "py_nth xs i = (if i < length xs then Inr (xs ! i) else Inl IndexError)"

subsection \<open>Association lists as Python dictionaries\<close>

abbreviation keys :: "('k \<times> 'v) list \<Rightarrow> 'k list" where
  "keys al \<equiv> map fst al"

text \<open>\<open>d.get(k, default)\<close> on a dictionary with string keys.\<close>

definition dict_get :: "('k \<times> 'v) list \<Rightarrow> 'k \<Rightarrow> 'v \<Rightarrow> 'v" where
  "dict_get al k dflt = (case map_of al k of Some v \<Rightarrow> v | None \<Rightarrow> dflt)"

subsection \<open>Lemmas\<close>

lemma rbind_Inl [simp]: "rbind (Inl e) f = Inl e"
  and rbind_Inr [simp]: "rbind (Inr v) f = f v"
  by (simp_all add: rbind_def)

lemma rbind_eq_Inr [simp]:
  "(rbind r f = Inr w) \<longleftrightarrow> (\<exists>v. r = Inr v \<and> f v = Inr w)"
  by (cases r) (simp_all add: rbind_def)

lemma rbind_eq_Inl:
  "(rbind r f = Inl e) \<longleftrightarrow> (r = Inl e \<or> (\<exists>v. r = Inr v \<and> f v = Inl e))"
  by (cases r) (simp_all add: rbind_def)

lemma r_foldl_append:
  "r_foldl f acc (xs @ ys) = rbind (r_foldl f acc xs) (\<lambda>acc'. r_foldl f acc' ys)"
  by (induction xs arbitrary: acc) (simp_all add: rbind_def split: sum.splits)

text \<open>An invariant kept by every successful step is kept by the loop.\<close>

lemma r_foldl_inv:
  assumes "r_foldl f acc xs = Inr acc'"
    and "P acc"
    and "\<And>a x a'. P a \<Longrightarrow> x \<in> set xs \<Longrightarrow> f a x = Inr a' \<Longrightarrow> P a'"
  shows "P acc'"
  using assms
proof (induction xs arbitrary: acc)
  case Nil
  then show ?case by simp
next
  case (Cons x xs)
  from Cons.prems(1) obtain a where a: "f acc x = Inr a" and rest: "r_foldl f a xs = Inr acc'"
    by auto
  have "P a" using Cons.prems(3) [OF Cons.prems(2) _ a] by simp
  with rest Cons.prems(3) show ?case by (intro Cons.IH) auto
qed

text \<open>A loop whose body never raises is a plain left fold.\<close>

lemma r_foldl_Inr:
  "(\<And>a x. x \<in> set xs \<Longrightarrow> f a x = Inr (g a x)) \<Longrightarrow> r_foldl f acc xs = Inr (foldl g acc xs)"
  by (induction xs arbitrary: acc) simp_all

lemma r_map_Inr_iff: "r_map f xs = Inr ys \<longleftrightarrow> list_all2 (\<lambda>x y. f x = Inr y) xs ys"
proof (induction xs arbitrary: ys)
  case Nil
  then show ?case by auto
next
  case (Cons x xs)
  then show ?case by (cases ys) auto
qed

lemma r_map_total: "(\<And>x. x \<in> set xs \<Longrightarrow> f x = Inr (g x)) \<Longrightarrow> r_map f xs = Inr (map g xs)"
  by (induction xs) simp_all

text \<open>A view \<open>h\<close> that every element keeps through \<open>f\<close> is kept by the comprehension.\<close>

lemma r_map_view:
  assumes "r_map f xs = Inr ys" and "\<And>x y. x \<in> set xs \<Longrightarrow> f x = Inr y \<Longrightarrow> h y = h x"
  shows "map h ys = map h xs"
  using assms
proof (induction xs arbitrary: ys)
  case Nil
  then show ?case by simp
next
  case (Cons x xs)
  then show ?case by (auto simp: rbind_def split: sum.splits)
qed

lemma py_nth_simps [simp, py_simps]:
  "py_nth [] i = Inl IndexError"
  "py_nth (x # xs) 0 = Inr x"
  "py_nth (x # xs) (Suc i) = py_nth xs i"
  by (simp_all add: py_nth_def)

lemma py_nth_numeral [simp, py_simps]:
  "py_nth (x # xs) (numeral n) = py_nth xs (pred_numeral n)"
  by (simp add: numeral_eq_Suc)

lemma keys_map_entry [simp]: "keys (AList.map_entry k f al) = keys al"
  by (induction al) auto

lemma keys_update_present: "k \<in> set (keys al) \<Longrightarrow> keys (AList.update k v al) = keys al"
  by (induction al) auto

lemma map_entry_absent: "k \<notin> set (keys al) \<Longrightarrow> AList.map_entry k f al = al"
  by (induction al) auto

text \<open>A value of the dictionary after \<open>map_entry\<close> is an old value or the image of one.\<close>

lemma values_map_entry:
  "v \<in> set (map snd (AList.map_entry k f al)) \<Longrightarrow>
     v \<in> set (map snd al) \<or> (\<exists>w \<in> set (map snd al). v = f w)"
  by (induction al) (auto split: if_splits)

lemma list_all_update:
  "list_all P al \<Longrightarrow> P (k, v) \<Longrightarrow> list_all P (AList.update k v al)"
  by (induction al) auto

lemma list_all_map_entry:
  "list_all P al \<Longrightarrow> (\<And>v. P (k, v) \<Longrightarrow> P (k, f v)) \<Longrightarrow> list_all P (AList.map_entry k f al)"
  by (induction al) auto

text \<open>An element on which the body always raises makes the loop raise.\<close>

lemma r_foldl_Inl_member:
  assumes "x \<in> set xs" and "\<And>a. isl (f a x)"
  shows "isl (r_foldl f acc xs)"
  using assms
proof (induction xs arbitrary: acc)
  case Nil
  then show ?case by simp
next
  case (Cons y ys)
  show ?case
  proof (cases "f acc y")
    case (Inl e)
    then show ?thesis by simp
  next
    case (Inr a)
    show ?thesis
    proof (cases "y = x")
      case True
      with Inr Cons.prems(2) [of acc] show ?thesis by simp
    next
      case False
      with Cons.prems(1) have "x \<in> set ys" by simp
      with Inr Cons.IH Cons.prems(2) show ?thesis by simp
    qed
  qed
qed

text \<open>A loop whose body never raises returns.\<close>

lemma r_foldl_no_error:
  "(\<And>a x. x \<in> set xs \<Longrightarrow> \<not> isl (f a x)) \<Longrightarrow> \<exists>b. r_foldl f acc xs = Inr b"
proof (induction xs arbitrary: acc)
  case Nil
  then show ?case by simp
next
  case (Cons x xs)
  have "\<not> isl (f acc x)" using Cons.prems by simp
  then obtain a where "f acc x = Inr a" by (cases "f acc x") auto
  with Cons show ?case by simp
qed

lemma r_map_ok:
  "(\<And>x. x \<in> set xs \<Longrightarrow> \<exists>y. f x = Inr y \<and> Q x y) \<Longrightarrow> \<exists>ys. r_map f xs = Inr ys \<and> list_all2 Q xs ys"
proof (induction xs)
  case Nil
  then show ?case by simp
next
  case (Cons x xs)
  obtain y where "f x = Inr y" "Q x y" using Cons.prems by auto
  moreover obtain ys where "r_map f xs = Inr ys" "list_all2 Q xs ys" using Cons by auto
  ultimately show ?case by auto
qed

lemma list_all2_map_eq:
  "list_all2 P xs ys \<Longrightarrow> (\<And>x y. P x y \<Longrightarrow> h y = h x) \<Longrightarrow> map h ys = map h xs"
  by (induction rule: list_all2_induct) auto

lemma list_all2_right: "list_all2 P xs ys \<Longrightarrow> y \<in> set ys \<Longrightarrow> \<exists>x. P x y"
  by (induction rule: list_all2_induct) auto

lemma rbind_InrE: "rbind m f = Inr y \<Longrightarrow> (\<And>x. m = Inr x \<Longrightarrow> f x = Inr y \<Longrightarrow> P) \<Longrightarrow> P"
  by (cases m) auto

lemma r_find_Some_mem: "r_find p xs = Inr (Some x) \<Longrightarrow> x \<in> set xs"
  by (induction xs) (auto split: if_splits)

lemma find_append_case:
  "find P (xs @ ys) = (case find P xs of None \<Rightarrow> find P ys | Some x \<Rightarrow> Some x)"
  by (induction xs) auto

lemma sum_list_member_le:
  "x \<in> set xs \<Longrightarrow> \<forall>y \<in> set xs. 0 \<le> y \<Longrightarrow> x \<le> sum_list (xs :: int list)"
  by (induction xs) (auto simp: sum_list_nonneg add_increasing2 add_increasing)

text \<open>A loop refines a specification given row by row: when each step, on a state
  satisfying \<open>P\<close>, acts through the abstraction \<open>\<alpha>\<close> as the specification of its
  row, the whole loop acts as the specification of all rows.\<close>

lemma r_foldl_refine:
  assumes rel: "list_all2 R xs rows" and P: "P acc"
    and nil: "\<And>v. S [] v = v" and cons: "\<And>r rows v. S (r # rows) v = S rows (S [r] v)"
    and step: "\<And>a x r. P a \<Longrightarrow> R x r \<Longrightarrow> \<exists>a'. f a x = Inr a' \<and> \<alpha> a' = S [r] (\<alpha> a) \<and> P a'"
  shows "\<exists>a'. r_foldl f acc xs = Inr a' \<and> \<alpha> a' = S rows (\<alpha> acc) \<and> P a'"
  using rel P
proof (induction arbitrary: acc rule: list_all2_induct)
  case Nil
  then show ?case by (simp add: nil)
next
  case (Cons x xs r rows)
  obtain a1 where s1: "f acc x = Inr a1" "\<alpha> a1 = S [r] (\<alpha> acc)" "P a1"
    using step [OF Cons.prems Cons.hyps(1)] by blast
  with Cons.IH obtain a' where "r_foldl f a1 xs = Inr a'" "\<alpha> a' = S rows (\<alpha> a1)" "P a'" by blast
  with s1 show ?case by (simp add: cons [of r rows])
qed

end
