(* ===== verification/PyValue.thy ===== *)
theory PyValue
  imports Prelude
begin

text \<open>
  The values the script handles are the results of \<open>json.loads\<close>: \<open>None\<close>, booleans,
  integers, floats (IEEE doubles, including the \<open>NaN\<close> and \<open>Infinity\<close> literals that
  Python's parser accepts), strings, lists and dictionaries.  They are the datatype
  \<open>json\<close>; a finite double is \<open>Fin q\<close> with \<open>q\<close> its exact rational value.  This theory
  also holds the Python primitives the script applies to them: \<open>==\<close>, truthiness,
  \<open>d[k]\<close>, \<open>d.get(k, dflt)\<close>, \<open>k in d\<close>, \<open>d.items()\<close>, iteration, \<open>isinstance\<close>,
  and the string methods \<open>strip\<close>, \<open>lstrip\<close>, \<open>lower\<close>, \<open>endswith\<close>, with \<open>int(str)\<close>
  and \<open>str(int)\<close>.  Strings are lists of code points below 256 (\<open>char\<close>).
\<close>

datatype pyfloat = Fin rat | PInf | NInf | NaN

datatype json =
    JNull
  | JBool bool
  | JInt int
  | JFloat pyfloat
  | JStr string
  | JList "json list"
  | JObj "(string \<times> json) list"

subsection \<open>Type tests, equality and truthiness\<close>

text \<open>\<open>isinstance(v, float)\<close>; \<open>isinstance(v, list)\<close> is a match on \<open>JList\<close>.\<close>

fun is_float :: "json \<Rightarrow> bool" where
  "is_float (JFloat _) = True"
| "is_float _ = False"

text \<open>The numeric value of a boolean, integer or float, for the mixed comparisons of
  Python's \<open>==\<close> (\<open>True == 1 == 1.0\<close>).\<close>

fun py_num :: "json \<Rightarrow> pyfloat option" where
  "py_num (JBool b) = Some (Fin (of_bool b))"
| "py_num (JInt i) = Some (Fin (of_int i))"
| "py_num (JFloat f) = Some f"
| "py_num _ = None"

fun fl_eq :: "pyfloat \<Rightarrow> pyfloat \<Rightarrow> bool" where
  "fl_eq (Fin a) (Fin b) = (a = b)"
| "fl_eq PInf PInf = True"
| "fl_eq NInf NInf = True"
| "fl_eq _ _ = False"

definition num_eq :: "pyfloat \<Rightarrow> json \<Rightarrow> bool" where
  "num_eq f y = (case py_num y of Some g \<Rightarrow> fl_eq f g | None \<Rightarrow> False)"

text \<open>Equality of parsed JSON values as \<open>PyObject_RichCompareBool\<close> computes it, the
  comparison \<open>list.index\<close> and the element-wise comparison of lists and dictionaries
  use: identical objects are equal before \<open>==\<close> is asked.  Every \<open>NaN\<close> that
  \<open>json.loads\<close> returns is the one object \<open>json.decoder.NaN\<close>, so two parsed
  \<open>NaN\<close>s are equal here; otherwise numbers compare by value, lists element-wise,
  dictionaries as maps (same size, every key of one bound to an equal value in the
  other).\<close>

fun py_eq_id :: "json \<Rightarrow> json \<Rightarrow> bool"
  and py_eq_list :: "json list \<Rightarrow> json list \<Rightarrow> bool"
  and py_eq_obj :: "(string \<times> json) list \<Rightarrow> (string \<times> json) list \<Rightarrow> bool" where
  "py_eq_id JNull y = (y = JNull)"
| "py_eq_id (JBool b) y = num_eq (Fin (of_bool b)) y"
| "py_eq_id (JInt i) y = num_eq (Fin (of_int i)) y"
| "py_eq_id (JFloat f) y = (if f = NaN then y = JFloat NaN else num_eq f y)"
| "py_eq_id (JStr s) y = (y = JStr s)"
| "py_eq_id (JList xs) y = (case y of JList ys \<Rightarrow> py_eq_list xs ys | _ \<Rightarrow> False)"
| "py_eq_id (JObj kvs) y =
     (case y of JObj lvs \<Rightarrow> length kvs = length lvs \<and> py_eq_obj kvs lvs | _ \<Rightarrow> False)"
| "py_eq_list [] ys = (ys = [])"
| "py_eq_list (x # xs) ys =
     (case ys of [] \<Rightarrow> False | y # ys' \<Rightarrow> py_eq_id x y \<and> py_eq_list xs ys')"
| "py_eq_obj [] lvs = True"
| "py_eq_obj ((k, v) # kvs) lvs =
     ((case map_of lvs k of None \<Rightarrow> False | Some w \<Rightarrow> py_eq_id v w) \<and> py_eq_obj kvs lvs)"

text \<open>Python's \<open>==\<close> between two parsed values (lines 84, 155--157): the elements of
  lists and dictionaries are compared as above, but the values themselves are not
  tested for identity, so \<open>NaN == NaN\<close> is false.\<close>

definition py_eq :: "json \<Rightarrow> json \<Rightarrow> bool" where
  "py_eq x y = (py_eq_id x y \<and> x \<noteq> JFloat NaN)"

text \<open>Truthiness, as \<open>if v:\<close> tests it.\<close>

fun py_truthy :: "json \<Rightarrow> bool" where
  "py_truthy JNull = False"
| "py_truthy (JBool b) = b"
| "py_truthy (JInt i) = (i \<noteq> 0)"
| "py_truthy (JFloat f) = (f \<noteq> Fin 0)"
| "py_truthy (JStr s) = (s \<noteq> [])"
| "py_truthy (JList xs) = (xs \<noteq> [])"
| "py_truthy (JObj kvs) = (kvs \<noteq> [])"

subsection \<open>Dictionary and list access\<close>

text \<open>\<open>v[k]\<close> with a string key: a \<open>KeyError\<close> for a missing key, a \<open>TypeError\<close> when
  \<open>v\<close> is not a dictionary (a list wants an integer index, a string or number is not
  subscriptable by a string).\<close>

definition py_get :: "json \<Rightarrow> string \<Rightarrow> json result" where
  "py_get v k = (case v of
      JObj kvs \<Rightarrow> (case map_of kvs k of Some w \<Rightarrow> Inr w | None \<Rightarrow> Inl KeyError)
    | _ \<Rightarrow> Inl TypeError)"

text \<open>A value used as a key of a string-keyed dictionary: a string is looked up,
  a list or dictionary is unhashable, any other value is never equal to a string key.\<close>

definition py_key :: "json \<Rightarrow> string option result" where
  "py_key k = (case k of
      JStr s \<Rightarrow> Inr (Some s)
    | JList _ \<Rightarrow> Inl TypeError
    | JObj _ \<Rightarrow> Inl TypeError
    | _ \<Rightarrow> Inr None)"

text \<open>\<open>d.items()\<close>.\<close>

definition py_items :: "json \<Rightarrow> (string \<times> json) list result" where
  "py_items d = (case d of JObj kvs \<Rightarrow> Inr kvs | _ \<Rightarrow> Inl AttributeError)"

text \<open>\<open>for x in v\<close>: a list yields its elements, a dictionary its keys, a string its
  one-character strings; numbers, booleans and \<open>None\<close> are not iterable.\<close>

definition py_iter :: "json \<Rightarrow> json list result" where
  "py_iter v = (case v of
      JList xs \<Rightarrow> Inr xs
    | JObj kvs \<Rightarrow> Inr (map (JStr \<circ> fst) kvs)
    | JStr s \<Rightarrow> Inr (map (\<lambda>c. JStr [c]) s)
    | _ \<Rightarrow> Inl TypeError)"

subsection \<open>Strings\<close>

text \<open>\<open>str.isspace\<close> on code points below 256: the ASCII controls 9 to 13 and 28 to
  31, space, NEL and no-break space.\<close>

definition py_isspace :: "char \<Rightarrow> bool" where
  "py_isspace c = (let n = of_char c :: nat in
     (9 \<le> n \<and> n \<le> 13) \<or> (28 \<le> n \<and> n \<le> 32) \<or> n = 133 \<or> n = 160)"

definition py_strip :: "string \<Rightarrow> string" where
  "py_strip s = rev (dropWhile py_isspace (rev (dropWhile py_isspace s)))"

text \<open>\<open>s.lstrip(chars)\<close> removes every leading character that occurs in \<open>chars\<close>:
  the argument is a set of characters, not a prefix.\<close>

definition py_lstrip_chars :: "string \<Rightarrow> string \<Rightarrow> string" where
  "py_lstrip_chars s chars = dropWhile (\<lambda>c. c \<in> set chars) s"

definition py_endswith :: "string \<Rightarrow> string \<Rightarrow> bool" where
  "py_endswith s suf = (length suf \<le> length s \<and> drop (length s - length suf) s = suf)"

text \<open>\<open>str.lower\<close> on code points below 256: the ASCII capitals and the Latin-1
  capitals U+00C0 to U+00DE except the multiplication sign move up by 32.\<close>

definition py_lower_char :: "char \<Rightarrow> char" where
  "py_lower_char c = (let n = of_char c :: nat in
     if (65 \<le> n \<and> n \<le> 90) \<or> (192 \<le> n \<and> n \<le> 222 \<and> n \<noteq> 215) then char_of (n + 32) else c)"

definition py_lower :: "string \<Rightarrow> string" where
  "py_lower s = map py_lower_char s"

text \<open>A method call \<open>v.lower()\<close>: only strings have it.\<close>

definition py_as_str :: "json \<Rightarrow> string result" where
  "py_as_str v = (case v of JStr s \<Rightarrow> Inr s | _ \<Rightarrow> Inl AttributeError)"

subsection \<open>Decimal integers: \<open>int(str)\<close> and \<open>str(int)\<close>\<close>

definition is_digit :: "char \<Rightarrow> bool" where
  "is_digit c = (let n = of_char c :: nat in 48 \<le> n \<and> n \<le> 57)"

definition digit_val :: "char \<Rightarrow> nat" where
  "digit_val c = of_char c - 48"

definition digit_char :: "nat \<Rightarrow> char" where
  "digit_char n = char_of (48 + n)"

text \<open>A run of decimal digits in which a single underscore may stand between two
  digits (PEP 515, accepted by \<open>int()\<close> and \<open>float()\<close>); returns the digits and the
  rest of the string.\<close>

fun scan_digits :: "string \<Rightarrow> string \<times> string" where
  "scan_digits (c # u # d # rest) =
     (if is_digit c \<and> u = CHR ''_'' \<and> is_digit d
      then (let (ds, r) = scan_digits (d # rest) in (c # ds, r))
      else if is_digit c then (let (ds, r) = scan_digits (u # d # rest) in (c # ds, r))
      else ([], c # u # d # rest))"
| "scan_digits (c # cs) =
     (if is_digit c then (let (ds, r) = scan_digits cs in (c # ds, r)) else ([], c # cs))"
| "scan_digits [] = ([], [])"

definition digits_val :: "string \<Rightarrow> nat" where
  "digits_val ds = foldl (\<lambda>n c. 10 * n + digit_val c) 0 ds"

definition take_sign :: "string \<Rightarrow> bool \<times> string" where
  "take_sign s = (case s of
      c # cs \<Rightarrow> if c = CHR ''-'' then (True, cs) else if c = CHR ''+'' then (False, cs) else (False, s)
    | [] \<Rightarrow> (False, []))"

text \<open>\<open>int(s)\<close> for a string: surrounding white space, an optional sign, then at
  least one digit and nothing else; anything else raises \<open>ValueError\<close>.\<close>

definition parse_int_str :: "string \<Rightarrow> int result" where
  "parse_int_str s = (let (neg, t) = take_sign (py_strip s); (ds, rest) = scan_digits t in
     if ds \<noteq> [] \<and> rest = [] then Inr ((if neg then -1 else 1) * int (digits_val ds))
     else Inl ValueError)"

fun nat_digits :: "nat \<Rightarrow> string" where
  "nat_digits n = (if n < 10 then [digit_char n] else nat_digits (n div 10) @ [digit_char (n mod 10)])"

definition py_str_int :: "int \<Rightarrow> string" where
  "py_str_int i = (if i < 0 then CHR ''-'' # nat_digits (nat (- i)) else nat_digits (nat i))"

subsection \<open>Lemmas\<close>

lemma py_eq_str: "py_eq x (JStr s) \<longleftrightarrow> x = JStr s"
  by (cases x) (auto simp: py_eq_def num_eq_def)

lemma py_access_simps [simp, py_simps]:
  "py_get (JObj kvs) k = (case map_of kvs k of Some w \<Rightarrow> Inr w | None \<Rightarrow> Inl KeyError)"
  "py_key (JStr s) = Inr (Some s)"
  "py_items (JObj kvs) = Inr kvs"
  "py_iter (JList xs) = Inr xs"
  by (simp_all add: py_get_def py_key_def py_items_def py_iter_def)

lemma dropWhile_hd_keep: "xs = [] \<or> \<not> P (hd xs) \<Longrightarrow> dropWhile P xs = xs"
  by (cases xs) auto

lemma py_strip_id:
  assumes "s = [] \<or> (\<not> py_isspace (hd s) \<and> \<not> py_isspace (last s))"
  shows "py_strip s = s"
proof -
  have "dropWhile py_isspace s = s" using assms by (intro dropWhile_hd_keep) auto
  moreover have "dropWhile py_isspace (rev s) = rev s"
    using assms by (intro dropWhile_hd_keep) (auto simp: hd_rev)
  ultimately show ?thesis by (simp add: py_strip_def)
qed

declare nat_digits.simps [simp del]

subsection \<open>Round trip of the decimal printer and parser\<close>

lemma digit_char_props [simp]:
  assumes "n < 10"
  shows "is_digit (digit_char n)" and "digit_val (digit_char n) = n"
  using assms by (simp_all add: is_digit_def digit_val_def digit_char_def)

lemma digit_not_space: "is_digit c \<Longrightarrow> \<not> py_isspace c"
  by (simp add: is_digit_def py_isspace_def Let_def)

lemma digit_not_sign: "is_digit c \<Longrightarrow> c \<noteq> CHR ''-'' \<and> c \<noteq> CHR ''+''"
  by (auto simp: is_digit_def)

lemma nat_digits_digits: "c \<in> set (nat_digits n) \<Longrightarrow> is_digit c"
  by (induction n rule: nat_digits.induct) (subst (asm) nat_digits.simps, auto split: if_splits)

lemma nat_digits_ne [simp]: "nat_digits n \<noteq> []"
  by (subst nat_digits.simps) simp

lemma underscore_not_digit [simp]: "\<not> is_digit CHR ''_''"
  by (simp add: is_digit_def)

lemma scan_digits_all: "(\<forall>c \<in> set ds. is_digit c) \<Longrightarrow> scan_digits ds = (ds, [])"
  by (induction ds rule: scan_digits.induct) auto

lemma digits_val_snoc: "digits_val (xs @ [c]) = 10 * digits_val xs + digit_val c"
  by (simp add: digits_val_def)

lemma digits_val_nat_digits [simp]: "digits_val (nat_digits n) = n"
proof (induction n rule: nat_digits.induct)
  case (1 n)
  show ?case
  proof (cases "n < 10")
    case True
    then show ?thesis by (subst nat_digits.simps) (simp add: digits_val_def)
  next
    case False
    then have "digits_val (nat_digits n) = 10 * (n div 10) + n mod 10"
      using "1.IH" by (subst nat_digits.simps) (simp add: digits_val_snoc)
    then show ?thesis by simp
  qed
qed

lemma py_strip_nat_digits: "py_strip (nat_digits n) = nat_digits n"
proof (rule py_strip_id)
  have "hd (nat_digits n) \<in> set (nat_digits n)" "last (nat_digits n) \<in> set (nat_digits n)"
    by simp_all
  then show "nat_digits n = [] \<or> \<not> py_isspace (hd (nat_digits n)) \<and> \<not> py_isspace (last (nat_digits n))"
    by (blast dest: nat_digits_digits digit_not_space)
qed

lemma take_sign_nat_digits: "take_sign (nat_digits n) = (False, nat_digits n)"
proof -
  obtain c cs where cs: "nat_digits n = c # cs" by (cases "nat_digits n") auto
  then have "is_digit c" using nat_digits_digits [of c n] by simp
  with cs show ?thesis by (simp add: take_sign_def digit_not_sign)
qed

lemma parse_int_str_nat_digits: "parse_int_str (nat_digits n) = Inr (int n)"
  using scan_digits_all [of "nat_digits n"] nat_digits_digits [of _ n]
  by (simp add: parse_int_str_def py_strip_nat_digits take_sign_nat_digits)

lemma py_strip_minus_digits:
  "py_strip (CHR ''-'' # nat_digits n) = CHR ''-'' # nat_digits n"
proof (rule py_strip_id)
  have "last (nat_digits n) \<in> set (nat_digits n)" by simp
  then have "\<not> py_isspace (last (nat_digits n))" by (blast dest: nat_digits_digits digit_not_space)
  moreover have "\<not> py_isspace CHR ''-''" by (simp add: py_isspace_def)
  ultimately show "CHR ''-'' # nat_digits n = [] \<or>
      \<not> py_isspace (hd (CHR ''-'' # nat_digits n)) \<and> \<not> py_isspace (last (CHR ''-'' # nat_digits n))"
    by simp
qed

text \<open>Printing an int with \<open>str\<close> and reading it back with \<open>int\<close> gives the
  int again; the tier labels \<open>"T" + str(n)\<close> therefore determine their number.\<close>

theorem parse_int_str_py_str_int: "parse_int_str (py_str_int i) = Inr i"
proof (cases "i < 0")
  case True
  let ?n = "nat (- i)"
  have "scan_digits (nat_digits ?n) = (nat_digits ?n, [])"
    using scan_digits_all nat_digits_digits by blast
  with True show ?thesis
    by (simp add: py_str_int_def parse_int_str_def py_strip_minus_digits take_sign_def)
next
  case False
  then show ?thesis
    by (simp add: py_str_int_def parse_int_str_nat_digits)
qed

end
