(* ===== verification/BaseGroups.thy ===== *)
theory BaseGroups
  imports PyValue
begin

text \<open>
  The consolidated data model and the first three stages of the pipeline in
  \<open>src/CraftAssistant/data/scrapper.py\<close>.  The script keeps one dictionary
  \<open>base_groups\<close> from base identifiers to group dictionaries and mutates it in place;
  here it is an association list \<open>groups\<close> from strings to records \<open>group\<close>, passed
  from stage to stage.  The tier and affix dictionaries that the later stages put into a
  group are the records \<open>tier\<close> and \<open>affix\<close>.  A key that the script adds to a
  dictionary only on some paths (\<open>"base_type"\<close>, \<open>"float"\<close>, the percentages) is a
  field of \<open>option\<close> type, \<open>None\<close> while absent.

  \<^item> \<open>parse_base_groups\<close> (lines 54--63) creates one group per entry of
    \<open>poec_lang["base"]\<close>, its name passed through the rename table
    \<open>custom_base_groups\<close> (lines 4--33);
  \<^item> \<open>parse_items\<close> (lines 65--69) appends item names to known groups;
  \<^item> \<open>parse_bases_and_groups\<close> (lines 71--76) sets \<open>base_type\<close> and \<open>bgroup\<close>.
\<close>

record tier =
  tier_label :: string
  ilvl :: int
  weighting :: int
  tier_values :: "(json \<times> json) list"
  float_flag :: "bool option"
  affix_percent :: "json option"
  weight_percent :: "json option"

record affix =
  description :: json
  mod_groups :: "string list"
  tiers :: "tier list"

record group =
  base_group :: json
  items :: "json list"
  prefixes :: "affix list"
  suffixes :: "affix list"
  base_type :: "json option"
  bgroup :: "json option"

type_synonym groups = "(string \<times> group) list"

subsection \<open>The rename table and \<open>parse_base_groups\<close>\<close>

definition custom_base_groups :: "(string \<times> string) list" where
  "custom_base_groups = [
    (''Gloves (DEX)'', ''glove_dex_armour''),
    (''Gloves (DEX/INT)'', ''glove_dex_int_armour''),
    (''Gloves (INT)'', ''glove_int_armour''),
    (''Gloves (STR)'', ''glove_str_armour''),
    (''Gloves (STR/DEX)'', ''glove_str_dex_armour''),
    (''Gloves (STR/INT)'', ''glove_str_int_armour''),
    (''Helmet (DEX)'', ''helmet_dex_armour''),
    (''Helmet (DEX/INT)'', ''helmet_dex_int_armour''),
    (''Helmet (INT)'', ''helmet_int_armour''),
    (''Helmet (STR)'', ''helmet_str_armour''),
    (''Helmet (STR/DEX)'', ''helmet_str_dex_armour''),
    (''Helmet (STR/INT)'', ''helmet_str_int_armour''),
    (''Shield (DEX)'', ''shield_dex_armour''),
    (''Shield (STR)'', ''shield_str_armour''),
    (''Shield (STR/DEX)'', ''shield_str_dex_armour''),
    (''Shield (STR/INT)'', ''shield_str_int_armour''),
    (''Body Armour (DEX)'', ''body_armour_dex_armour''),
    (''Body Armour (DEX/INT)'', ''body_armour_dex_int_armour''),
    (''Body Armour (INT)'', ''body_armour_int_armour''),
    (''Body Armour (STR)'', ''body_armour_str_armour''),
    (''Body Armour (STR/DEX)'', ''body_armour_str_dex_armour''),
    (''Body Armour (STR/INT)'', ''body_armour_str_int_armour''),
    (''Boots (DEX)'', ''boot_dex_armour''),
    (''Boots (DEX/INT)'', ''boot_dex_int_armour''),
    (''Boots (INT)'', ''boot_int_armour''),
    (''Boots (STR)'', ''boot_str_armour''),
    (''Boots (STR/DEX)'', ''boot_str_dex_armour''),
    (''Boots (STR/INT)'', ''boot_str_int_armour'')]"

text \<open>\<open>custom_base_groups[name] if name in custom_base_groups else name\<close>.\<close>

definition rename_group :: "json \<Rightarrow> json result" where
  "rename_group name = rbind (py_key name) (\<lambda>ko. Inr (case ko of
      Some s \<Rightarrow> (case map_of custom_base_groups s of Some g \<Rightarrow> JStr g | None \<Rightarrow> name)
    | None \<Rightarrow> name))"

definition new_group :: "json \<Rightarrow> group" where
  "new_group name = \<lparr>base_group = name, items = [], prefixes = [], suffixes = [],
                     base_type = None, bgroup = None\<rparr>"

definition parse_base_groups :: "json \<Rightarrow> groups result" where
  "parse_base_groups poec_lang =
     rbind (py_get poec_lang ''base'') (\<lambda>b. rbind (py_items b) (\<lambda>kvs.
       r_foldl (\<lambda>bgs (base_id, base_name).
                  rbind (rename_group base_name) (\<lambda>g. Inr (AList.update base_id (new_group g) bgs)))
               [] kvs))"

subsection \<open>\<open>parse_items\<close>\<close>

text \<open>\<open>k in base_groups\<close> for a parsed key: the string key when it is present.\<close>

definition py_in_key :: "json \<Rightarrow> groups \<Rightarrow> string option result" where
  "py_in_key k bgs = rbind (py_key k) (\<lambda>ko. Inr (case ko of
      Some s \<Rightarrow> if s \<in> set (keys bgs) then Some s else None
    | None \<Rightarrow> None))"

text \<open>\<open>d.get(k, dflt)\<close>: the method is looked up on \<open>d\<close> before the argument \<open>k\<close> is
  evaluated, so the key arrives as a computation.\<close>

definition py_get_default :: "json \<Rightarrow> json result \<Rightarrow> json \<Rightarrow> json result" where
  "py_get_default d k dflt = rbind (py_items d) (\<lambda>kvs. rbind k (\<lambda>kv. rbind (py_key kv)
     (\<lambda>ko. Inr (case ko of Some s \<Rightarrow> dict_get kvs s dflt | None \<Rightarrow> dflt))))"

definition parse_item :: "json \<Rightarrow> groups \<Rightarrow> json \<Rightarrow> groups result" where
  "parse_item poec_lang bgs item =
     rbind (py_get item ''id_base'') (\<lambda>base_id. rbind (py_in_key base_id bgs) (\<lambda>present.
       case present of
         None \<Rightarrow> Inr bgs
       | Some s \<Rightarrow>
           rbind (py_get poec_lang ''bitem'') (\<lambda>bi.
           rbind (py_get_default bi (py_get item ''id_bitem'') (JStr ''Unknown Item'')) (\<lambda>name.
             Inr (AList.map_entry s (\<lambda>g. g\<lparr>items := items g @ [name]\<rparr>) bgs)))))"

text \<open>The sequence \<open>d[k1][k2]\<close> iterated by a \<open>for\<close> loop.\<close>

definition py_seq :: "json \<Rightarrow> string \<Rightarrow> string \<Rightarrow> json list result" where
  "py_seq d k1 k2 = rbind (py_get d k1) (\<lambda>x. rbind (py_get x k2) py_iter)"

definition parse_items :: "json \<Rightarrow> json \<Rightarrow> groups \<Rightarrow> groups result" where
  "parse_items poec_data poec_lang bgs =
     rbind (py_seq poec_data ''bitems'' ''seq'') (r_foldl (parse_item poec_lang) bgs)"

subsection \<open>\<open>parse_bases_and_groups\<close>\<close>

definition parse_base :: "json \<Rightarrow> groups \<Rightarrow> json \<Rightarrow> groups result" where
  "parse_base poec_lang bgs base =
     rbind (py_get base ''id_base'') (\<lambda>base_id. rbind (py_in_key base_id bgs) (\<lambda>present.
       case present of
         None \<Rightarrow> Inr bgs
       | Some s \<Rightarrow>
           rbind (py_get_default base (Inr (JStr ''base_type'')) (JStr ''unknown'')) (\<lambda>bt.
           let bgs1 = AList.map_entry s (\<lambda>g. g\<lparr>base_type := Some bt\<rparr>) bgs in
           rbind (py_get poec_lang ''bgroup'') (\<lambda>bg.
           rbind (py_get_default bg (py_get base ''id_bgroup'') (JStr ''Unknown Group'')) (\<lambda>grp.
             Inr (AList.map_entry s (\<lambda>g. g\<lparr>bgroup := Some grp\<rparr>) bgs1))))))"

definition parse_bases_and_groups :: "json \<Rightarrow> json \<Rightarrow> groups \<Rightarrow> groups result" where
  "parse_bases_and_groups poec_data poec_lang bgs =
     rbind (py_seq poec_data ''bases'' ''seq'') (r_foldl (parse_base poec_lang) bgs)"

subsection \<open>What the first three stages keep\<close>

text \<open>The tiers held by a group, prefixes first, and the validity of a dictionary of
  groups: every tier has a weighting above 1 (the filter of line 116).\<close>

definition group_tiers :: "group \<Rightarrow> tier list" where
  "group_tiers g = concat (map tiers (prefixes g @ suffixes g))"

definition groups_valid :: "groups \<Rightarrow> bool" where
  "groups_valid bgs = list_all (\<lambda>(k, g). list_all (\<lambda>t. 1 < weighting t) (group_tiers g)) bgs"

text \<open>The part of the dictionary that the item and base stages must not touch: the
  keys, in order, and each group's affix lists.\<close>

definition affix_view :: "groups \<Rightarrow> (string \<times> affix list \<times> affix list) list" where
  "affix_view bgs = map (\<lambda>(k, g). (k, prefixes g, suffixes g)) bgs"

text \<open>The abstract view of the item stage: each group's list of item names; and its
  specification on rows \<open>(base id, item name)\<close>: each group receives, in row order,
  the names of the rows that name it.\<close>

definition items_view :: "groups \<Rightarrow> (string \<times> json list) list" where
  "items_view bgs = map (\<lambda>(k, g). (k, items g)) bgs"

definition items_spec :: "(string \<times> json) list \<Rightarrow> (string \<times> json list) list \<Rightarrow> (string \<times> json list) list" where
  "items_spec rows v = map (\<lambda>(k, its). (k, its @ map snd (filter (\<lambda>r. fst r = k) rows))) v"

text \<open>The abstract view of the base stage: each group's \<open>base_type\<close> and \<open>bgroup\<close>;
  and its specification on rows \<open>(base id, base type, group label)\<close>: a group named
  by some row takes the values of the last such row.\<close>

definition bases_view :: "groups \<Rightarrow> (string \<times> json option \<times> json option) list" where
  "bases_view bgs = map (\<lambda>(k, g). (k, base_type g, bgroup g)) bgs"

definition bases_spec :: "(string \<times> json \<times> json) list \<Rightarrow> (string \<times> json option \<times> json option) list \<Rightarrow>
                          (string \<times> json option \<times> json option) list" where
  "bases_spec rows v = map (\<lambda>(k, bt, bg). case find (\<lambda>r. fst r = k) (rev rows) of
                              None \<Rightarrow> (k, bt, bg)
                            | Some (_, bt', bg') \<Rightarrow> (k, Some bt', Some bg')) v"

lemma affix_view_map_entry:
  assumes "\<And>g. prefixes (f g) = prefixes g \<and> suffixes (f g) = suffixes g"
  shows "affix_view (AList.map_entry k f bgs) = affix_view bgs"
  using assms by (induction bgs) (auto simp: affix_view_def)

lemma keys_affix_view: "affix_view bgs = affix_view bgs' \<Longrightarrow> keys bgs = keys bgs'"
proof -
  have "keys bgs = map fst (affix_view bgs)" for bgs by (induction bgs) (auto simp: affix_view_def)
  then show "affix_view bgs = affix_view bgs' \<Longrightarrow> keys bgs = keys bgs'" by metis
qed

lemma groups_valid_affix_view:
  assumes "affix_view bgs = affix_view bgs'"
  shows "groups_valid bgs = groups_valid bgs'"
proof -
  have "groups_valid bgs = list_all (\<lambda>(k, ps, ss). list_all (\<lambda>t. 1 < weighting t)
           (concat (map tiers (ps @ ss)))) (affix_view bgs)" for bgs
    by (induction bgs) (auto simp: groups_valid_def affix_view_def group_tiers_def)
  with assms show ?thesis by metis
qed

lemma parse_item_affix_view:
  "parse_item poec_lang bgs item = Inr bgs' \<Longrightarrow> affix_view bgs' = affix_view bgs"
  by (auto simp: parse_item_def affix_view_map_entry split: option.splits)

lemma parse_items_affix_view:
  assumes "parse_items poec_data poec_lang bgs = Inr bgs'"
  shows "affix_view bgs' = affix_view bgs"
proof -
  from assms obtain xs where "r_foldl (parse_item poec_lang) bgs xs = Inr bgs'"
    by (auto simp: parse_items_def)
  then show ?thesis
    by (rule r_foldl_inv [where P = "\<lambda>b. affix_view b = affix_view bgs"])
       (auto dest: parse_item_affix_view)
qed

lemma parse_base_affix_view:
  "parse_base poec_lang bgs base = Inr bgs' \<Longrightarrow> affix_view bgs' = affix_view bgs"
  by (auto simp: parse_base_def Let_def affix_view_map_entry split: option.splits)

lemma parse_bases_and_groups_affix_view:
  assumes "parse_bases_and_groups poec_data poec_lang bgs = Inr bgs'"
  shows "affix_view bgs' = affix_view bgs"
proof -
  from assms obtain xs where "r_foldl (parse_base poec_lang) bgs xs = Inr bgs'"
    by (auto simp: parse_bases_and_groups_def)
  then show ?thesis
    by (rule r_foldl_inv [where P = "\<lambda>b. affix_view b = affix_view bgs"])
       (auto dest: parse_base_affix_view)
qed

text \<open>The groups created by \<open>parse_base_groups\<close> hold no tiers yet, and their keys
  are the keys of \<open>poec_lang["base"]\<close>, each once.\<close>

lemma parse_base_groups_fresh:
  assumes "parse_base_groups poec_lang = Inr bgs"
  shows "groups_valid bgs \<and> distinct (keys bgs)"
proof -
  from assms obtain kvs where
    run: "r_foldl (\<lambda>bgs (base_id, base_name).
                  rbind (rename_group base_name) (\<lambda>g. Inr (AList.update base_id (new_group g) bgs)))
               [] kvs = Inr bgs"
    by (auto simp: parse_base_groups_def)
  show ?thesis
    by (rule r_foldl_inv [OF run, where P = "\<lambda>b. groups_valid b \<and> distinct (keys b)"])
       (auto simp: groups_valid_def distinct_update new_group_def group_tiers_def
             intro!: list_all_update)
qed

lemma parse_base_groups_loop_keys:
  assumes "r_foldl (\<lambda>bgs (base_id, base_name).
              rbind (rename_group base_name) (\<lambda>g. Inr (AList.update base_id (new_group g) bgs)))
            acc kvs = Inr bgs"
  shows "set (keys bgs) = set (keys acc) \<union> set (keys kvs)"
  using assms
proof (induction kvs arbitrary: acc)
  case Nil
  then show ?case by simp
next
  case (Cons kv kvs)
  obtain k v where kv: "kv = (k, v)" by (cases kv)
  with Cons.prems obtain g where
    "r_foldl (\<lambda>bgs (base_id, base_name).
        rbind (rename_group base_name) (\<lambda>g. Inr (AList.update base_id (new_group g) bgs)))
      (AList.update k (new_group g) acc) kvs = Inr bgs"
    by auto
  then have "set (keys bgs) = set (keys (AList.update k (new_group g) acc)) \<union> set (keys kvs)"
    by (rule Cons.IH)
  then show ?case by (auto simp: kv dom_update)
qed

lemma parse_base_groups_keys:
  assumes "parse_base_groups poec_lang = Inr bgs" and "py_get poec_lang ''base'' = Inr (JObj kvs)"
  shows "set (keys bgs) = set (keys kvs)"
  using assms parse_base_groups_loop_keys [of "[]" kvs bgs]
  by (simp add: parse_base_groups_def)

lemma parse_items_keys:
  "parse_items poec_data poec_lang bgs = Inr bgs' \<Longrightarrow> keys bgs' = keys bgs \<and> groups_valid bgs' = groups_valid bgs"
  by (metis keys_affix_view groups_valid_affix_view parse_items_affix_view)

lemma parse_bases_and_groups_keys:
  "parse_bases_and_groups poec_data poec_lang bgs = Inr bgs' \<Longrightarrow> keys bgs' = keys bgs \<and> groups_valid bgs' = groups_valid bgs"
  by (metis keys_affix_view groups_valid_affix_view parse_bases_and_groups_affix_view)

subsection \<open>Names of the groups\<close>

lemma rename_group_str:
  "rename_group (JStr s) = Inr (JStr (dict_get custom_base_groups s s))"
  by (simp add: rename_group_def dict_get_def split: option.splits)

lemma base_groups_fold:
  assumes "distinct (keys kvs)" and "set (keys kvs) \<inter> set (keys acc) = {}"
  shows "keys (foldl (\<lambda>bgs (k, v). AList.update k (F v) bgs) acc kvs) = keys acc @ keys kvs \<and>
         (\<forall>k. map_of (foldl (\<lambda>bgs (k, v). AList.update k (F v) bgs) acc kvs) k =
                (case map_of kvs k of Some v \<Rightarrow> Some (F v) | None \<Rightarrow> map_of acc k))"
  using assms
proof (induction kvs arbitrary: acc)
  case Nil
  then show ?case by simp
next
  case (Cons kv kvs)
  obtain k v where kv: "kv = (k, v)" by (cases kv)
  let ?acc' = "AList.update k (F v) acc"
  from Cons.prems kv have "k \<notin> set (keys acc)" by auto
  then have acc': "keys ?acc' = keys acc @ [k]" by (simp add: update_keys)
  with Cons.prems kv have "distinct (keys kvs)" and "set (keys kvs) \<inter> set (keys ?acc') = {}"
    by auto
  from Cons.IH [OF this] acc' kv Cons.prems show ?case
    by (auto simp: update_conv' image_iff split: option.splits)
qed

text \<open>C9. When \<open>poec_lang["base"]\<close> maps distinct ids to strings,
  \<open>parse_base_groups\<close> succeeds, keeps the order of the ids and gives each id a new
  group named by the rename table, or by its own name when the table has no entry.\<close>

theorem parse_base_groups_names:
  assumes "py_get poec_lang ''base'' = Inr (JObj kvs)" and "distinct (keys kvs)"
    and "\<forall>(k, v) \<in> set kvs. \<exists>s. v = JStr s"
  shows "\<exists>bgs. parse_base_groups poec_lang = Inr bgs \<and> keys bgs = keys kvs \<and>
           (\<forall>k s. map_of kvs k = Some (JStr s) \<longrightarrow>
              map_of bgs k = Some (new_group (JStr (dict_get custom_base_groups s s))))"
proof -
  let ?F = "\<lambda>v. new_group (case v of JStr s \<Rightarrow> JStr (dict_get custom_base_groups s s) | _ \<Rightarrow> v)"
  have steps: "r_foldl (\<lambda>bgs (base_id, base_name).
                  rbind (rename_group base_name) (\<lambda>g. Inr (AList.update base_id (new_group g) bgs)))
               [] kvs = Inr (foldl (\<lambda>bgs (k, v). AList.update k (?F v) bgs) [] kvs)"
    using assms(3) by (intro r_foldl_Inr) (auto simp: rename_group_str)
  have "keys (foldl (\<lambda>bgs (k, v). AList.update k (?F v) bgs) [] kvs) = keys kvs \<and>
        (\<forall>k. map_of (foldl (\<lambda>bgs (k, v). AList.update k (?F v) bgs) [] kvs) k =
               map_option ?F (map_of kvs k))"
    using base_groups_fold [OF assms(2), of "[]" ?F] by (simp split: option.splits)
  with steps assms(1) show ?thesis by (auto simp: parse_base_groups_def)
qed

subsection \<open>The item stage refines its specification\<close>

lemma items_spec_simps [simp]:
  "items_spec rows [] = []"
  "items_spec rows ((k, its) # v) = (k, its @ map snd (filter (\<lambda>r. fst r = k) rows)) # items_spec rows v"
  by (simp_all add: items_spec_def)

lemma items_view_simps [simp]:
  "items_view [] = []" "items_view ((k, g) # bgs) = (k, items g) # items_view bgs"
  by (simp_all add: items_view_def)

lemma items_spec_Cons: "items_spec (r # rows) v = items_spec rows (items_spec [r] v)"
  by (induction v) (auto simp: items_spec_def)

lemma items_spec_absent: "b \<notin> set (keys v) \<Longrightarrow> items_spec [(b, n)] v = v"
  by (induction v) (auto simp: items_spec_def)

lemma keys_items_view [simp]: "keys (items_view bgs) = keys bgs"
  by (induction bgs) (auto simp: items_view_def)

lemma items_view_map_entry:
  "distinct (keys bgs) \<Longrightarrow>
     items_view (AList.map_entry b (\<lambda>g. g\<lparr>items := items g @ [n]\<rparr>) bgs) = items_spec [(b, n)] (items_view bgs)"
proof (induction bgs)
  case Nil
  then show ?case by simp
next
  case (Cons kg bgs)
  obtain k g where kg: "kg = (k, g)" by (cases kg)
  show ?case
  proof (cases "k = b")
    case True
    with Cons.prems kg have "b \<notin> set (keys (items_view bgs))" by simp
    with True kg show ?thesis by (simp add: map_entry_absent items_spec_absent)
  next
    case False
    with Cons kg show ?thesis by simp
  qed
qed

lemma parse_item_spec:
  assumes "py_get it ''id_base'' = Inr (JStr b)" and "py_get poec_lang ''bitem'' = Inr bi"
    and "py_get_default bi (py_get it ''id_bitem'') (JStr ''Unknown Item'') = Inr n"
    and "distinct (keys bgs)"
  shows "\<exists>bgs'. parse_item poec_lang bgs it = Inr bgs' \<and> items_view bgs' = items_spec [(b, n)] (items_view bgs)"
proof (cases "b \<in> set (keys bgs)")
  case True
  with assms show ?thesis by (simp add: parse_item_def py_in_key_def py_key_def items_view_map_entry)
next
  case False
  with assms show ?thesis by (simp add: parse_item_def py_in_key_def py_key_def items_spec_absent)
qed

text \<open>C18. The loop of \<open>parse_items\<close> (lines 65--69), which walks the item rows
  and appends each name to the group its row names, refines the per-group
  specification \<open>items_spec\<close>: when every row has a string \<open>id_base\<close> and a name
  (\<open>poec_lang["bitem"]\<close> looked up, \<open>"Unknown Item"\<close> by default), the stage returns,
  and every group has received exactly the names of the rows naming it, in row
  order; rows naming no group are dropped, and the affixes are untouched.\<close>

theorem parse_items_refines:
  assumes seq: "py_seq poec_data ''bitems'' ''seq'' = Inr seq" and bi: "py_get poec_lang ''bitem'' = Inr bi"
    and rows: "list_all2 (\<lambda>it (b, n). py_get it ''id_base'' = Inr (JStr b) \<and>
                 py_get_default bi (py_get it ''id_bitem'') (JStr ''Unknown Item'') = Inr n) seq rows"
    and dist: "distinct (keys bgs)"
  shows "\<exists>bgs'. parse_items poec_data poec_lang bgs = Inr bgs' \<and>
           items_view bgs' = items_spec rows (items_view bgs) \<and> affix_view bgs' = affix_view bgs"
proof -
  have "\<exists>bgs'. r_foldl (parse_item poec_lang) bgs seq = Inr bgs' \<and>
          items_view bgs' = items_spec rows (items_view bgs) \<and> distinct (keys bgs')"
  proof (rule r_foldl_refine [where P = "\<lambda>a. distinct (keys a)" and \<alpha> = items_view and S = items_spec,
                               OF rows dist])
    show "items_spec [] v = v" for v by (induction v) auto
    show "items_spec (r # rows) v = items_spec rows (items_spec [r] v)" for r rows v by (rule items_spec_Cons)
  next
    fix a :: groups and it :: json and r :: "string \<times> json"
    assume d: "distinct (keys a)" and row: "case r of (b, n) \<Rightarrow>
      py_get it ''id_base'' = Inr (JStr b) \<and> py_get_default bi (py_get it ''id_bitem'') (JStr ''Unknown Item'') = Inr n"
    obtain b n where r: "r = (b, n)" by (cases r)
    with row have h1: "py_get it ''id_base'' = Inr (JStr b)"
      and h2: "py_get_default bi (py_get it ''id_bitem'') (JStr ''Unknown Item'') = Inr n" by simp_all
    obtain a1 where s1: "parse_item poec_lang a it = Inr a1"
      and v: "items_view a1 = items_spec [(b, n)] (items_view a)"
      using parse_item_spec h1 bi h2 d by blast
    have "keys a1 = keys a" using s1 by (metis keys_affix_view parse_item_affix_view)
    then show "\<exists>a'. parse_item poec_lang a it = Inr a' \<and> items_view a' = items_spec [r] (items_view a) \<and>
                    distinct (keys a')"
      using s1 v d r by auto
  qed
  then show ?thesis using seq parse_items_affix_view by (fastforce simp: parse_items_def)
qed

subsection \<open>The base stage refines its specification\<close>

lemma bases_spec_simps [simp]:
  "bases_spec rows [] = []"
  "bases_spec rows ((k, bt, bg) # v) = (case find (\<lambda>r. fst r = k) (rev rows) of
      None \<Rightarrow> (k, bt, bg) | Some (_, bt', bg') \<Rightarrow> (k, Some bt', Some bg')) # bases_spec rows v"
  by (simp_all add: bases_spec_def)

lemma bases_spec_Nil: "bases_spec [] v = v"
  by (induction v) auto

lemma bases_spec_Cons: "bases_spec (r # rows) v = bases_spec rows (bases_spec [r] v)"
  by (cases r, induction v) (auto simp: find_append_case split: option.splits)

lemma bases_view_simps [simp]:
  "bases_view [] = []" "bases_view ((k, g) # bgs) = (k, base_type g, bgroup g) # bases_view bgs"
  by (simp_all add: bases_view_def)

lemma keys_bases_view [simp]: "keys (bases_view bgs) = keys bgs"
  by (induction bgs) auto

lemma bases_spec_absent: "b \<notin> set (keys v) \<Longrightarrow> bases_spec [(b, bt, bg)] v = v"
  by (induction v) auto

lemma bases_view_map_entry:
  "distinct (keys bgs) \<Longrightarrow>
     bases_view (AList.map_entry b (\<lambda>g. g\<lparr>bgroup := Some grp\<rparr>) (AList.map_entry b (\<lambda>g. g\<lparr>base_type := Some bt\<rparr>) bgs))
       = bases_spec [(b, bt, grp)] (bases_view bgs)"
proof (induction bgs)
  case Nil
  then show ?case by simp
next
  case (Cons kg bgs)
  obtain k g where kg: "kg = (k, g)" by (cases kg)
  show ?case
  proof (cases "k = b")
    case True
    with Cons.prems kg have "b \<notin> set (keys (bases_view bgs))" by simp
    with True kg show ?thesis by (simp add: map_entry_absent bases_spec_absent)
  next
    case False
    with Cons kg show ?thesis by simp
  qed
qed

lemma items_view_map_entry_other:
  "(\<And>g. items (f g) = items g) \<Longrightarrow> items_view (AList.map_entry k f bgs) = items_view bgs"
  by (induction bgs) auto

lemma parse_base_spec:
  assumes "py_get base ''id_base'' = Inr (JStr b)" and "py_get poec_lang ''bgroup'' = Inr bgt"
    and "py_get_default base (Inr (JStr ''base_type'')) (JStr ''unknown'') = Inr bt"
    and "py_get_default bgt (py_get base ''id_bgroup'') (JStr ''Unknown Group'') = Inr grp"
    and "distinct (keys bgs)"
  shows "\<exists>bgs'. parse_base poec_lang bgs base = Inr bgs' \<and> bases_view bgs' = bases_spec [(b, bt, grp)] (bases_view bgs) \<and>
           items_view bgs' = items_view bgs \<and> keys bgs' = keys bgs"
proof (cases "b \<in> set (keys bgs)")
  case True
  with assms show ?thesis
    by (simp add: parse_base_def py_in_key_def py_key_def bases_view_map_entry items_view_map_entry_other)
next
  case False
  with assms show ?thesis by (simp add: parse_base_def py_in_key_def py_key_def bases_spec_absent)
qed

text \<open>C20. The loop of \<open>parse_bases_and_groups\<close> (lines 71--76) refines
  \<open>bases_spec\<close>: on well-formed base rows it returns, every group named by a row gets
  the \<open>base_type\<close> and \<open>bgroup\<close> of the last row naming it (a later row overwrites
  an earlier one), other groups keep theirs, and items and affixes are untouched.\<close>

theorem parse_bases_refines:
  assumes seq: "py_seq poec_data ''bases'' ''seq'' = Inr seq" and bgt: "py_get poec_lang ''bgroup'' = Inr bgt"
    and rows: "list_all2 (\<lambda>base (b, bt, grp). py_get base ''id_base'' = Inr (JStr b) \<and>
                 py_get_default base (Inr (JStr ''base_type'')) (JStr ''unknown'') = Inr bt \<and>
                 py_get_default bgt (py_get base ''id_bgroup'') (JStr ''Unknown Group'') = Inr grp) seq rows"
    and dist: "distinct (keys bgs)"
  shows "\<exists>bgs'. parse_bases_and_groups poec_data poec_lang bgs = Inr bgs' \<and>
           bases_view bgs' = bases_spec rows (bases_view bgs) \<and>
           items_view bgs' = items_view bgs \<and> affix_view bgs' = affix_view bgs"
proof -
  have "\<exists>bgs'. r_foldl (parse_base poec_lang) bgs seq = Inr bgs' \<and>
          bases_view bgs' = bases_spec rows (bases_view bgs) \<and>
          (distinct (keys bgs') \<and> items_view bgs' = items_view bgs)"
  proof (rule r_foldl_refine [where P = "\<lambda>a. distinct (keys a) \<and> items_view a = items_view bgs"
                                and \<alpha> = bases_view and S = bases_spec, OF rows])
    show "distinct (keys bgs) \<and> items_view bgs = items_view bgs" using dist by simp
    show "bases_spec [] v = v" for v by (rule bases_spec_Nil)
    show "bases_spec (r # rows) v = bases_spec rows (bases_spec [r] v)" for r rows v by (rule bases_spec_Cons)
  next
    fix a :: groups and base :: json and r :: "string \<times> json \<times> json"
    assume inv: "distinct (keys a) \<and> items_view a = items_view bgs" and row: "case r of (b, bt, grp) \<Rightarrow>
      py_get base ''id_base'' = Inr (JStr b) \<and>
      py_get_default base (Inr (JStr ''base_type'')) (JStr ''unknown'') = Inr bt \<and>
      py_get_default bgt (py_get base ''id_bgroup'') (JStr ''Unknown Group'') = Inr grp"
    obtain b bt grp where r: "r = (b, bt, grp)" by (cases r)
    with row have h: "py_get base ''id_base'' = Inr (JStr b)"
      "py_get_default base (Inr (JStr ''base_type'')) (JStr ''unknown'') = Inr bt"
      "py_get_default bgt (py_get base ''id_bgroup'') (JStr ''Unknown Group'') = Inr grp" by simp_all
    obtain a1 where "parse_base poec_lang a base = Inr a1" "bases_view a1 = bases_spec [(b, bt, grp)] (bases_view a)"
      "items_view a1 = items_view a" "keys a1 = keys a"
      using parse_base_spec [of base b poec_lang bgt bt grp a] h bgt inv by blast
    then show "\<exists>a'. parse_base poec_lang a base = Inr a' \<and> bases_view a' = bases_spec [r] (bases_view a) \<and>
                    distinct (keys a') \<and> items_view a' = items_view bgs"
      using inv r by auto
  qed
  then show ?thesis using seq parse_bases_and_groups_affix_view by (fastforce simp: parse_bases_and_groups_def)
qed

end
