(* ===== verification/PyFloat.thy ===== *)
theory PyFloat
  imports PyValue "HOL-Library.Log_Nat"
begin

text \<open>
  Python floats are IEEE 754 binary64 values.  A finite double is held as its exact
  rational value; every operation computes the exact result and rounds it to the
  nearest double, ties to even (\<open>fl_round\<close>), overflowing to an infinity when the
  rounded magnitude reaches \<open>2 ^ 1024\<close>.  Subnormals are kept (the spacing never goes
  below \<open>2 ^ -1074\<close>); the sign of zero is not modelled.  On this basis the theory
  models the builtins the script calls: \<open>float(v)\<close>, \<open>int(v)\<close>, float
  multiplication, the true division of two ints, and \<open>round(x, n)\<close>, which CPython
  computes by rounding the exact binary value to \<open>n\<close> decimals (ties to even) and
  converting the decimal string back to the nearest double.  The analysis of the
  rounding is in the theory \<open>Rounding\<close>.
\<close>

definition pow2 :: "int \<Rightarrow> rat" where
  "pow2 e = power_int 2 e"

definition round_half_even :: "rat \<Rightarrow> int" where
  "round_half_even x = (let f = \<lfloor>x\<rfloor>; d = x - of_int f in
     if d < 1/2 then f else if 1/2 < d then f + 1 else if even f then f else f + 1)"

text \<open>\<open>\<lfloor>log2 \<bar>q\<bar>\<rfloor>\<close> for \<open>q \<noteq> 0\<close>, computed from the bit lengths of numerator and
  denominator.\<close>

definition bin_exp :: "rat \<Rightarrow> int" where
  "bin_exp q = (let (n, d) = quotient_of \<bar>q\<bar>; e = bitlen n - bitlen d in
     if pow2 e \<le> \<bar>q\<bar> then e else e - 1)"

text \<open>The exponent of the last mantissa bit of a double near \<open>q\<close>: 52 bits below
  the leading one, but never below the subnormal spacing.\<close>

definition ulp_exp :: "rat \<Rightarrow> int" where
  "ulp_exp q = max (bin_exp q - 52) (-1074)"

text \<open>Rounding to the nearest double.  The result overflows when its magnitude
  reaches \<open>2 ^ 1024\<close>, that is, when its binary exponent is at least 1024.\<close>

definition fl_round :: "rat \<Rightarrow> rat option" where
  "fl_round q = (if q = 0 then Some 0 else
     (let u = ulp_exp q; r = of_int (round_half_even (q / pow2 u)) * pow2 u
      in if r \<noteq> 0 \<and> 1024 \<le> bin_exp r then None else Some r))"

definition fl_of_rat :: "rat \<Rightarrow> pyfloat" where
  "fl_of_rat q = (case fl_round q of Some r \<Rightarrow> Fin r | None \<Rightarrow> if 0 < q then PInf else NInf)"

subsection \<open>Float operations\<close>

text \<open>\<open>x * y\<close> on floats, with the IEEE rules for infinities and \<open>NaN\<close>.\<close>

fun fl_mul :: "pyfloat \<Rightarrow> pyfloat \<Rightarrow> pyfloat" where
  "fl_mul (Fin a) (Fin b) = fl_of_rat (a * b)"
| "fl_mul NaN y = NaN"
| "fl_mul x NaN = NaN"
| "fl_mul (Fin a) y = (if a = 0 then NaN else if (0 < a) = (y = PInf) then PInf else NInf)"
| "fl_mul x (Fin b) = (if b = 0 then NaN else if (0 < b) = (x = PInf) then PInf else NInf)"
| "fl_mul x y = (if x = y then PInf else NInf)"

text \<open>Converting an int to a float raises \<open>OverflowError\<close> when it is too large.\<close>

definition fl_of_int :: "int \<Rightarrow> pyfloat result" where
  "fl_of_int i = (case fl_round (of_int i) of Some r \<Rightarrow> Inr (Fin r) | None \<Rightarrow> Inl OverflowError)"

text \<open>\<open>a / b\<close> for two ints is correctly rounded; a quotient too large for a float
  raises \<open>OverflowError\<close>.\<close>

definition py_truediv :: "int \<Rightarrow> int \<Rightarrow> pyfloat result" where
  "py_truediv a b = (if b = 0 then Inl ZeroDivisionError else
     (case fl_round (of_int a / of_int b) of Some r \<Rightarrow> Inr (Fin r) | None \<Rightarrow> Inl OverflowError))"

text \<open>\<open>round(x, n)\<close> for a float \<open>x\<close> and \<open>n \<ge> 0\<close>; infinities and \<open>NaN\<close> are
  returned unchanged.\<close>

definition py_round :: "pyfloat \<Rightarrow> nat \<Rightarrow> pyfloat result" where
  "py_round x n = (case x of
      Fin r \<Rightarrow> (case fl_round (of_int (round_half_even (r * 10 ^ n)) / 10 ^ n) of
                  Some d \<Rightarrow> Inr (Fin d) | None \<Rightarrow> Inl OverflowError)
    | _ \<Rightarrow> Inr x)"

text \<open>\<open>int(x)\<close> for a float truncates towards zero.\<close>

definition py_trunc :: "rat \<Rightarrow> int" where
  "py_trunc r = (if 0 \<le> r then \<lfloor>r\<rfloor> else - \<lfloor>- r\<rfloor>)"

fun py_int_of_float :: "pyfloat \<Rightarrow> int result" where
  "py_int_of_float (Fin r) = Inr (py_trunc r)"
| "py_int_of_float NaN = Inl ValueError"
| "py_int_of_float _ = Inl OverflowError"

subsection \<open>\<open>float(str)\<close>\<close>

text \<open>A decimal literal: digits with an optional fraction, at least one digit in
  all, and an optional exponent; its exact value.\<close>

definition parse_decimal :: "string \<Rightarrow> rat option" where
  "parse_decimal t = (let (ip, r1) = scan_digits t;
       (fp, r2) = (case r1 of c # cs \<Rightarrow> if c = CHR ''.'' then scan_digits cs else ([], r1)
                             | [] \<Rightarrow> ([], []));
       m = of_nat (digits_val (ip @ fp)) :: rat;
       sc = - int (length fp)
     in if ip = [] \<and> fp = [] then None
        else (case r2 of
                [] \<Rightarrow> Some (m * power_int 10 sc)
              | c # cs \<Rightarrow>
                  if c = CHR ''e'' \<or> c = CHR ''E'' then
                    (let (eneg, es) = take_sign cs; (ed, r3) = scan_digits es;
                         ex = (if eneg then - int (digits_val ed) else int (digits_val ed))
                     in if ed \<noteq> [] \<and> r3 = [] then Some (m * power_int 10 (ex + sc)) else None)
                  else None))"

definition parse_float_str :: "string \<Rightarrow> pyfloat result" where
  "parse_float_str s = (let (neg, t) = take_sign (py_strip s); w = py_lower t in
     if w = ''inf'' \<or> w = ''infinity'' then Inr (if neg then NInf else PInf)
     else if w = ''nan'' then Inr NaN
     else (case parse_decimal t of
             None \<Rightarrow> Inl ValueError
           | Some q \<Rightarrow> Inr (fl_of_rat (if neg then - q else q))))"

subsection \<open>The builtins \<open>float\<close> and \<open>int\<close> on parsed values\<close>

fun py_float :: "json \<Rightarrow> pyfloat result" where
  "py_float (JBool b) = Inr (Fin (of_bool b))"
| "py_float (JInt i) = fl_of_int i"
| "py_float (JFloat f) = Inr f"
| "py_float (JStr s) = parse_float_str s"
| "py_float _ = Inl TypeError"

fun py_int :: "json \<Rightarrow> int result" where
  "py_int (JBool b) = Inr (of_bool b)"
| "py_int (JInt i) = Inr i"
| "py_int (JFloat f) = py_int_of_float f"
| "py_int (JStr s) = parse_int_str s"
| "py_int _ = Inl TypeError"

subsection \<open>Lemmas\<close>

text \<open>An equation for evaluation: the power is taken in \<open>int\<close>, where no fraction
  needs normalising.\<close>

lemma pow2_code [code]:
  "pow2 e = (if 0 \<le> e then of_int (2 ^ nat e) else 1 / of_int (2 ^ nat (- e)))"
  by (simp add: pow2_def power_int_def power_one_over)

end
