(* ===== verification/Rounding.thy ===== *)
theory Rounding
  imports PyFloat
begin

text \<open>
  The analysis of \<open>fl_round\<close>, the rounding every float operation of the model
  ends with.  \<open>bin_exp\<close> is the binade of its argument; one rounding moves a value
  by at most \<open>|q| / 2^53 + 2^-1075\<close>; nothing below \<open>2^1023\<close> overflows; integers
  below \<open>2^53\<close> are exact.  The last section proves that \<open>fl_round\<close> refines the
  specification of IEEE 754 round-to-nearest: its result is a finite double
  (\<open>is_double\<close>: \<open>m \<cdot> 2^e\<close> with \<open>|m| < 2^53\<close> and \<open>-1074 \<le> e \<le> 971\<close>) and no finite
  double is closer to the exact value.
\<close>

subsection \<open>The finite doubles\<close>

definition is_double :: "rat \<Rightarrow> bool" where
  "is_double x = (\<exists>m e. x = of_int m * pow2 e \<and> \<bar>m\<bar> < 2 ^ 53 \<and> -1074 \<le> e \<and> e \<le> 971)"

subsection \<open>Rounding error and overflow\<close>

lemma pow2_pos [simp]: "0 < pow2 e"
  by (simp add: pow2_def)

lemma pow2_add: "pow2 (a + b) = pow2 a * pow2 b"
  by (simp add: pow2_def power_int_add)

lemma pow2_diff: "pow2 (a - b) = pow2 a / pow2 b"
  by (simp add: pow2_def power_int_diff)

lemma pow2_le_iff [simp]: "pow2 a \<le> pow2 b \<longleftrightarrow> a \<le> b"
  by (metis linorder_not_le one_less_numeral_iff power_int_increasing power_int_strict_increasing
        pow2_def semiring_norm(76) order.refl less_le_not_le one_le_numeral)

lemma pow2_less_iff [simp]: "pow2 a < pow2 b \<longleftrightarrow> a < b"
  by (meson linorder_not_le pow2_le_iff)

lemma pow2_nat: "pow2 (int n) = 2 ^ n"
  by (simp add: pow2_def)

lemma bitlen_pow2_bounds:
  assumes "0 < n"
  shows "pow2 (bitlen n - 1) \<le> of_int n \<and> of_int n < pow2 (bitlen n)"
proof -
  have b: "2 ^ nat (bitlen n - 1) \<le> n \<and> n < 2 ^ nat (bitlen n)" using bitlen_bounds [OF assms] .
  have "0 < bitlen n" using bitlen_ge_iff_power [of 1 n] assms by simp
  then have e1: "pow2 (bitlen n - 1) = of_int (2 ^ nat (bitlen n - 1))"
    and e2: "pow2 (bitlen n) = of_int (2 ^ nat (bitlen n))"
    by (simp_all add: pow2_def power_int_def)
  show ?thesis unfolding e1 e2 using b by (simp only: of_int_le_iff of_int_less_iff)
qed

text \<open>\<open>bin_exp q\<close> is \<open>\<lfloor>log2 \<bar>q\<bar>\<rfloor>\<close>.\<close>

lemma bin_exp_bounds:
  assumes "q \<noteq> 0"
  shows "pow2 (bin_exp q) \<le> \<bar>q\<bar> \<and> \<bar>q\<bar> < pow2 (bin_exp q + 1)"
proof -
  obtain n d where qd: "quotient_of \<bar>q\<bar> = (n, d)" by (cases "quotient_of \<bar>q\<bar>")
  have d0: "0 < d" using quotient_of_denom_pos [OF qd] .
  have qv: "\<bar>q\<bar> = of_int n / of_int d" using quotient_of_div [OF qd] .
  have "0 < \<bar>q\<bar>" using assms by simp
  with qv d0 have n0: "0 < n" by (simp add: zero_less_divide_iff)
  define e where "e = bitlen n - bitlen d"
  note bn = bitlen_pow2_bounds [OF n0] and bd = bitlen_pow2_bounds [OF d0]
  have lo: "pow2 (e - 1) < \<bar>q\<bar>"
  proof -
    have "pow2 (e - 1) = pow2 (bitlen n - 1) / pow2 (bitlen d)" by (simp add: e_def pow2_diff[symmetric] algebra_simps)
    also have "\<dots> < of_int n / of_int d"
      using bn bd d0 by (simp add: frac_less2 order_le_less_trans)
    finally show ?thesis using qv by simp
  qed
  have hi: "\<bar>q\<bar> < pow2 (e + 1)"
  proof -
    have "of_int n / of_int d < pow2 (bitlen n) / pow2 (bitlen d - 1)"
      using bn bd n0 by (intro frac_less) auto
    also have "\<dots> = pow2 (e + 1)" by (simp add: e_def pow2_diff[symmetric] algebra_simps)
    finally show ?thesis using qv by simp
  qed
  have be: "bin_exp q = (if pow2 e \<le> \<bar>q\<bar> then e else e - 1)"
    by (simp add: bin_exp_def qd e_def)
  show ?thesis using lo hi by (auto simp: be)
qed

lemma pow2_ge0 [simp]: "0 \<le> pow2 e" and pow2_ne0 [simp]: "pow2 e \<noteq> 0"
  using pow2_pos [of e] by linarith+

lemma round_half_even_err: "\<bar>of_int (round_half_even x) - x\<bar> \<le> 1 / 2"
proof -
  define f where "f = \<lfloor>x\<rfloor>"
  have d: "0 \<le> x - of_int f" "x - of_int f < 1" by (simp_all add: f_def) linarith
  show ?thesis unfolding round_half_even_def Let_def f_def[symmetric]
    using d by (auto simp: abs_if)
qed

lemma round_half_even_zero [simp]: "round_half_even 0 = 0"
  by (simp add: round_half_even_def)

text \<open>Rounding to a multiple of \<open>pow2 u\<close> moves a value by at most half of it.\<close>

lemma round_multiple_err: "\<bar>of_int (round_half_even (q / pow2 u)) * pow2 u - q\<bar> \<le> pow2 u / 2"
proof -
  have "of_int (round_half_even (q / pow2 u)) * pow2 u - q = (of_int (round_half_even (q / pow2 u)) - q / pow2 u) * pow2 u"
    by (simp add: algebra_simps)
  then have "\<bar>of_int (round_half_even (q / pow2 u)) * pow2 u - q\<bar> = \<bar>of_int (round_half_even (q / pow2 u)) - q / pow2 u\<bar> * pow2 u"
    by (simp add: abs_mult)
  also have "\<dots> \<le> 1 / 2 * pow2 u"
    by (intro mult_right_mono round_half_even_err) simp
  finally show ?thesis by simp
qed

text \<open>The result of \<open>fl_round\<close>, when there is one, is the nearest multiple of the
  spacing.\<close>

lemma fl_round_value:
  "fl_round q = Some r \<Longrightarrow> r = of_int (round_half_even (q / pow2 (ulp_exp q))) * pow2 (ulp_exp q)"
  by (auto simp: fl_round_def Let_def split: if_splits)

lemma ulp_exp_le: "q \<noteq> 0 \<Longrightarrow> pow2 (ulp_exp q) \<le> \<bar>q\<bar> / 2 ^ 52 + pow2 (-1074)"
proof -
  assume q: "q \<noteq> 0"
  have "pow2 (bin_exp q - 52) = pow2 (bin_exp q) / 2 ^ 52" by (simp add: pow2_diff pow2_nat[of 52, simplified])
  also have "\<dots> \<le> \<bar>q\<bar> / 2 ^ 52" using bin_exp_bounds [OF q] by (simp add: divide_right_mono)
  finally have le: "pow2 (bin_exp q - 52) \<le> \<bar>q\<bar> / 2 ^ 52" .
  have "pow2 (ulp_exp q) = pow2 (bin_exp q - 52) \<or> pow2 (ulp_exp q) = pow2 (-1074)"
    by (simp add: ulp_exp_def max_def)
  then show ?thesis
  proof
    assume "pow2 (ulp_exp q) = pow2 (bin_exp q - 52)"
    with le pow2_ge0 [of "-1074"] show ?thesis by linarith
  next
    assume "pow2 (ulp_exp q) = pow2 (-1074)"
    then show ?thesis by simp
  qed
qed

text \<open>The rounding error: half a unit in the last place, relative to \<open>q\<close> for
  normal values and absolute in the subnormal range.\<close>

lemma fl_round_err: "fl_round q = Some r \<Longrightarrow> \<bar>r - q\<bar> \<le> \<bar>q\<bar> / 2 ^ 53 + pow2 (-1075)"
proof (cases "q = 0")
  case True
  then show "fl_round q = Some r \<Longrightarrow> ?thesis" by (simp add: fl_round_def)
next
  case False
  assume "fl_round q = Some r"
  then have e: "\<bar>r - q\<bar> \<le> pow2 (ulp_exp q) / 2" using round_multiple_err by (metis fl_round_value)
  have h: "pow2 (-1074) = 2 * pow2 (-1075)"
    by (simp add: pow2_add[of 1 "-1075", simplified] pow2_nat[of 1, simplified])
  define b where "b = \<bar>q\<bar> / 2 ^ 52"
  from e ulp_exp_le [OF False] h have "\<bar>r - q\<bar> \<le> b / 2 + pow2 (-1075)"
    unfolding b_def[symmetric] by linarith
  then show ?thesis by (simp add: b_def)
qed

text \<open>No overflow below \<open>2 ^ 1023\<close>.\<close>

lemma fl_round_Some: "\<bar>q\<bar> < pow2 1023 \<Longrightarrow> \<exists>r. fl_round q = Some r"
proof (cases "q = 0")
  case True
  then show ?thesis by (simp add: fl_round_def)
next
  case False
  assume small: "\<bar>q\<bar> < pow2 1023"
  define r where "r = of_int (round_half_even (q / pow2 (ulp_exp q))) * pow2 (ulp_exp q)"
  have "bin_exp q < 1023"
    using bin_exp_bounds [OF False] small by (metis order_le_less_trans pow2_less_iff)
  then have "ulp_exp q \<le> 1022" by (simp add: ulp_exp_def)
  then have u: "pow2 (ulp_exp q) \<le> pow2 1023" by simp
  have "\<bar>r - q\<bar> \<le> pow2 (ulp_exp q) / 2" unfolding r_def by (rule round_multiple_err)
  moreover have "pow2 1024 = 2 * pow2 1023"
    by (simp add: pow2_add[of 1 1023, simplified] pow2_nat[of 1, simplified])
  moreover have "\<bar>r\<bar> - \<bar>q\<bar> \<le> \<bar>r - q\<bar>" by (rule abs_triangle_ineq2)
  ultimately have lt: "\<bar>r\<bar> < pow2 1024" using small u by linarith
  have "\<not> (r \<noteq> 0 \<and> 1024 \<le> bin_exp r)"
  proof
    assume "r \<noteq> 0 \<and> 1024 \<le> bin_exp r"
    then have "pow2 1024 \<le> \<bar>r\<bar>" using bin_exp_bounds [of r] by (metis order_trans pow2_le_iff)
    with lt show False by simp
  qed
  then have "fl_round q = Some r"
    using False unfolding fl_round_def Let_def r_def[symmetric] by simp
  then show ?thesis ..
qed

lemma fl_round_near:
  "\<bar>q\<bar> < pow2 1023 \<Longrightarrow> \<exists>r. fl_round q = Some r \<and> \<bar>r - q\<bar> \<le> \<bar>q\<bar> / 2 ^ 53 + pow2 (-1075)"
  using fl_round_Some fl_round_err by blast

lemma pow2_small: "pow2 (-1075) \<le> 1 / 2 ^ 60"
proof -
  have "pow2 (-1075) \<le> pow2 (-60)" by simp
  also have "pow2 (-60) = 1 / 2 ^ 60" by (simp add: pow2_code)
  finally show ?thesis .
qed

lemma pow2_1023_ge: "256 \<le> pow2 1023"
proof -
  have "pow2 8 \<le> pow2 1023" by simp
  then show ?thesis by (simp add: pow2_code)
qed

lemma round_4_err: "\<bar>of_int (round_half_even (x * 10 ^ 4)) / 10 ^ 4 - x\<bar> \<le> 1 / 20000"
proof -
  define a :: rat where "a = of_int (round_half_even (x * 10 ^ 4))"
  have h: "\<bar>a - x * 10 ^ 4\<bar> \<le> 1 / 2" unfolding a_def by (rule round_half_even_err)
  have eq: "a / 10 ^ 4 - x = (a - x * 10 ^ 4) / 10 ^ 4" by (simp add: field_simps)
  have "\<bar>a / 10 ^ 4 - x\<bar> = \<bar>a - x * 10 ^ 4\<bar> / 10 ^ 4" unfolding eq abs_divide by simp
  also have "\<dots> \<le> (1 / 2) / 10 ^ 4" using h by (intro divide_right_mono) simp_all
  finally show ?thesis by (simp add: a_def)
qed

lemma round_half_even_int [simp]: "round_half_even (of_int m) = m"
  by (simp add: round_half_even_def)

text \<open>Integers below \<open>2 ^ 53\<close> are doubles.\<close>

text \<open>Rounding and truncation keep the sign of a nonnegative value.\<close>

lemma round_half_even_nonneg: "0 \<le> x \<Longrightarrow> 0 \<le> round_half_even x"
  by (simp add: round_half_even_def Let_def)

lemma fl_round_nonneg: "0 \<le> q \<Longrightarrow> fl_round q = Some r \<Longrightarrow> 0 \<le> r"
  by (auto simp: fl_round_def Let_def round_half_even_nonneg split: if_splits)

lemma py_trunc_nonneg: "0 \<le> r \<Longrightarrow> of_int (py_trunc r) \<le> r \<and> r < of_int (py_trunc r) + 1 \<and> 0 \<le> py_trunc r"
  using floor_correct [of r] by (simp add: py_trunc_def)

lemma fl_round_int: "\<bar>k\<bar> < 2 ^ 53 \<Longrightarrow> fl_round (of_int k) = Some (of_int k)"
proof (cases "k = 0")
  case True
  then show ?thesis by (simp add: fl_round_def)
next
  case False
  assume small: "\<bar>k\<bar> < 2 ^ 53"
  have k0: "(of_int k :: rat) \<noteq> 0" using False by simp
  have "pow2 (bin_exp (of_int k)) \<le> \<bar>of_int k\<bar>" using bin_exp_bounds [OF k0] by simp
  also have "\<dots> < pow2 53" using small by (simp add: pow2_nat [of 53, simplified] flip: of_int_abs)
  finally have be: "bin_exp (of_int k) \<le> 52" by simp
  define n where "n = nat (- ulp_exp (of_int k))"
  have u: "ulp_exp (of_int k) = - int n" using be by (simp add: n_def ulp_exp_def)
  have p: "pow2 (ulp_exp (of_int k)) = 1 / 2 ^ n" by (simp add: u pow2_def power_int_minus inverse_eq_divide)
  have q: "of_int k / pow2 (ulp_exp (of_int k)) = of_int (k * 2 ^ n)" by (simp add: p)
  have r: "of_int (round_half_even (of_int k / pow2 (ulp_exp (of_int k)))) * pow2 (ulp_exp (of_int k)) = (of_int k :: rat)"
    unfolding q round_half_even_int by (simp add: p)
  show ?thesis using be k0 unfolding fl_round_def Let_def r by simp
qed

subsection \<open>Refinement of round-to-nearest\<close>

lemma round_half_even_nearest: "\<bar>of_int (round_half_even x) - x\<bar> \<le> \<bar>of_int j - x\<bar>"
proof -
  define f where "f = \<lfloor>x\<rfloor>"
  have d: "of_int f \<le> x" "x < of_int f + 1" by (simp_all add: f_def) linarith
  have "j \<le> f \<or> f + 1 \<le> j" by linarith
  then have j: "of_int j \<le> (of_int f :: rat) \<or> of_int f + 1 \<le> (of_int j :: rat)"
    by (metis of_int_le_iff of_int_add of_int_1)
  from j show ?thesis
  proof
    assume "of_int j \<le> (of_int f :: rat)"
    with d show ?thesis unfolding round_half_even_def Let_def f_def[symmetric] by (auto simp: abs_if)
  next
    assume "of_int f + 1 \<le> (of_int j :: rat)"
    with d show ?thesis unfolding round_half_even_def Let_def f_def[symmetric] by (auto simp: abs_if)
  qed
qed

lemma round_multiple_nearest:
  assumes "0 < p"
  shows "\<bar>of_int (round_half_even (q / p)) * p - q\<bar> \<le> \<bar>of_int j * p - q\<bar>"
proof -
  have "\<bar>of_int (round_half_even (q / p)) - q / p\<bar> * p \<le> \<bar>of_int j - q / p\<bar> * p"
    using round_half_even_nearest assms by (intro mult_right_mono) auto
  moreover have "\<bar>a - q / p\<bar> * p = \<bar>a * p - q\<bar>" for a
  proof -
    have "(a - q / p) * p = a * p - q" using assms by (simp add: field_simps)
    then show ?thesis using assms by (metis abs_mult abs_of_pos)
  qed
  ultimately show ?thesis by simp
qed

lemma pow2_split: "u \<le> e \<Longrightarrow> pow2 e = of_int (2 ^ nat (e - u)) * pow2 u"
proof -
  assume ue: "u \<le> e"
  have "pow2 e = pow2 ((e - u) + u)" by simp
  also have "\<dots> = pow2 (e - u) * pow2 u" by (rule pow2_add)
  also have "pow2 (e - u) = 2 ^ nat (e - u)" using ue by (simp add: pow2_def power_int_def)
  finally show ?thesis by simp
qed

lemma round_half_even_abs_le: "\<bar>x\<bar> \<le> of_int n \<Longrightarrow> \<bar>round_half_even x\<bar> \<le> n"
proof -
  assume x: "\<bar>x\<bar> \<le> of_int n"
  have "\<bar>of_int (round_half_even x) - x\<bar> \<le> 1 / 2" by (rule round_half_even_err)
  with x have "of_int \<bar>round_half_even x\<bar> < (of_int (n + 1) :: rat)" by (simp add: abs_if split: if_splits)
  then show ?thesis by (simp only: of_int_less_iff)
qed

lemma round_half_even_abs_ge: "of_int n \<le> \<bar>x\<bar> \<Longrightarrow> n \<le> \<bar>round_half_even x\<bar>"
proof -
  assume x: "of_int n \<le> \<bar>x\<bar>"
  have "\<bar>of_int (round_half_even x) - x\<bar> \<le> 1 / 2" by (rule round_half_even_err)
  with x have "(of_int (n - 1) :: rat) < of_int \<bar>round_half_even x\<bar>" by (simp add: abs_if split: if_splits)
  then show ?thesis by (simp only: of_int_less_iff)
qed

lemma fl_round_below_overflow: "fl_round q = Some r \<Longrightarrow> \<bar>r\<bar> < pow2 1024"
proof (cases "r = 0")
  case True
  then show ?thesis by simp
next
  case False
  assume "fl_round q = Some r"
  with False have "bin_exp r < 1024" by (auto simp: fl_round_def Let_def split: if_splits)
  then have "pow2 (bin_exp r + 1) \<le> pow2 1024" by simp
  with bin_exp_bounds [OF False] show ?thesis by linarith
qed

text \<open>The scaled value \<open>q / 2^u\<close> that is rounded to an integer has at most 53
  bits, and at least 53 in the normal range.\<close>

lemma mantissa_le:
  assumes "q \<noteq> 0" shows "\<bar>round_half_even (q / pow2 (ulp_exp q))\<bar> \<le> 2 ^ 53"
proof -
  have "\<bar>q\<bar> < pow2 (bin_exp q + 1)" using bin_exp_bounds [OF assms] by simp
  also have "pow2 (bin_exp q + 1) = pow2 53 * pow2 (bin_exp q - 52)"
    using pow2_add [of 53 "bin_exp q - 52"] by (simp add: algebra_simps)
  also have "\<dots> \<le> pow2 53 * pow2 (ulp_exp q)" by (simp add: ulp_exp_def)
  finally have "\<bar>q\<bar> / pow2 (ulp_exp q) < pow2 53" by (simp add: pos_divide_less_eq)
  then have "\<bar>q / pow2 (ulp_exp q)\<bar> \<le> of_int (2 ^ 53)" by (simp add: abs_divide pow2_code)
  then show ?thesis by (rule round_half_even_abs_le)
qed

lemma mantissa_ge:
  assumes "q \<noteq> 0" and "ulp_exp q = bin_exp q - 52"
  shows "2 ^ 52 \<le> \<bar>round_half_even (q / pow2 (ulp_exp q))\<bar>"
proof -
  have "pow2 52 * pow2 (ulp_exp q) = pow2 (bin_exp q)" by (simp add: assms(2) flip: pow2_add)
  also have "\<dots> \<le> \<bar>q\<bar>" using bin_exp_bounds [OF assms(1)] by simp
  finally have "pow2 52 \<le> \<bar>q\<bar> / pow2 (ulp_exp q)" by (simp add: pos_le_divide_eq)
  then have "of_int (2 ^ 52) \<le> \<bar>q / pow2 (ulp_exp q)\<bar>" by (simp add: abs_divide pow2_code)
  then show ?thesis by (rule round_half_even_abs_ge)
qed

text \<open>A value that rounds without overflow lies below the binade \<open>2^1024\<close>.\<close>

lemma fl_round_bin_exp_le:
  assumes r: "fl_round q = Some r" and q: "q \<noteq> 0"
  shows "bin_exp q \<le> 1023"
proof (rule ccontr)
  assume "\<not> bin_exp q \<le> 1023"
  then have u: "ulp_exp q = bin_exp q - 52" by (simp add: ulp_exp_def)
  have rv: "r = of_int (round_half_even (q / pow2 (ulp_exp q))) * pow2 (ulp_exp q)"
    using r by (rule fl_round_value)
  have "pow2 (bin_exp q) = of_int (2 ^ 52) * pow2 (ulp_exp q)"
    using pow2_add [of 52 "bin_exp q - 52"] pow2_nat [of 52] by (simp add: u)
  also have "\<dots> \<le> of_int \<bar>round_half_even (q / pow2 (ulp_exp q))\<bar> * pow2 (ulp_exp q)"
    using mantissa_ge [OF q u] by (intro mult_right_mono) (simp_all only: of_int_le_iff pow2_ge0)
  also have "\<dots> = \<bar>r\<bar>" by (simp add: rv abs_mult)
  finally have "pow2 (bin_exp q) \<le> \<bar>r\<bar>" .
  moreover have "pow2 1024 \<le> pow2 (bin_exp q)" using \<open>\<not> bin_exp q \<le> 1023\<close> by simp
  ultimately show False using fl_round_below_overflow [OF r] by linarith
qed

lemma fl_round_is_double:
  assumes r: "fl_round q = Some r" shows "is_double r"
proof (cases "q = 0")
  case True
  with r have "r = of_int 0 * pow2 0" by (simp add: fl_round_def)
  then show ?thesis unfolding is_double_def by fastforce
next
  case False
  define u where "u = ulp_exp q"
  define k where "k = round_half_even (q / pow2 u)"
  have rv: "r = of_int k * pow2 u" using fl_round_value [OF r] by (simp add: k_def u_def)
  have kle: "\<bar>k\<bar> \<le> 2 ^ 53" using mantissa_le [OF False] by (simp add: k_def u_def)
  have ulo: "-1074 \<le> u" by (simp add: u_def ulp_exp_def)
  have uhi: "u \<le> 971" using fl_round_bin_exp_le [OF r False] by (simp add: u_def ulp_exp_def)
  show ?thesis
  proof (cases "\<bar>k\<bar> = 2 ^ 53")
    case False
    with kle have "\<bar>k\<bar> < 2 ^ 53" by simp
    with rv ulo uhi show ?thesis unfolding is_double_def by blast
  next
    case True
    have "u \<noteq> 971"
    proof
      assume "u = 971"
      then have "\<bar>r\<bar> = pow2 1024"
        using True pow2_add [of 53 971] pow2_nat [of 53] by (simp add: rv abs_mult)
      with fl_round_below_overflow [OF r] show False by simp
    qed
    with uhi have u1: "u + 1 \<le> 971" by simp
    have ks: "k = 2 ^ 53 \<or> k = - (2 ^ 53)" using True by (cases "0 \<le> k") auto
    then have "k = 2 * (k div 2)" by auto
    then have "of_int k = 2 * (of_int (k div 2) :: rat)" by (metis of_int_mult of_int_numeral)
    moreover have "pow2 (u + 1) = pow2 u * 2" using pow2_add [of u 1] pow2_nat [of 1] by simp
    ultimately have r2: "r = of_int (k div 2) * pow2 (u + 1)" by (simp add: rv)
    have "\<bar>k div 2\<bar> < 2 ^ 53" using ks by auto
    with r2 ulo u1 show ?thesis unfolding is_double_def
      by (intro exI [of _ "k div 2"] exI [of _ "u + 1"]) simp
  qed
qed

text \<open>No double is closer to \<open>q\<close> than the result of \<open>fl_round\<close>.\<close>

lemma fl_round_closest:
  assumes r: "fl_round q = Some r" and b: "is_double b"
  shows "\<bar>r - q\<bar> \<le> \<bar>b - q\<bar>"
proof (cases "q = 0")
  case True
  with r show ?thesis by (simp add: fl_round_def)
next
  case q0: False
  define u where "u = ulp_exp q"
  have rv: "r = of_int (round_half_even (q / pow2 u)) * pow2 u" using fl_round_value [OF r] by (simp add: u_def)
  have grid: "\<bar>r - q\<bar> \<le> \<bar>of_int j * pow2 u - q\<bar>" for j
    unfolding rv by (rule round_multiple_nearest) simp
  obtain m e where bv: "b = of_int m * pow2 e" and m: "\<bar>m\<bar> < 2 ^ 53" and e: "-1074 \<le> e"
    using b unfolding is_double_def by blast
  show ?thesis
  proof (cases "u \<le> e")
    case True
    have "b = of_int (m * 2 ^ nat (e - u)) * pow2 u" by (simp add: bv pow2_split [OF True])
    then show ?thesis using grid by metis
  next
    case False
    then have u: "u = bin_exp q - 52" using e by (simp add: u_def ulp_exp_def max_def split: if_splits)
    have "\<bar>b\<bar> = of_int \<bar>m\<bar> * pow2 e" by (simp add: bv abs_mult)
    also have "\<dots> < of_int (2 ^ 53) * pow2 e" using m by (intro mult_strict_right_mono) simp_all
    also have "\<dots> \<le> of_int (2 ^ 53) * pow2 (u - 1)" using False by (intro mult_left_mono) simp_all
    also have "\<dots> = pow2 (bin_exp q)" using pow2_add [of 53 "u - 1"] pow2_nat [of 53] by (simp add: u)
    finally have bsmall: "\<bar>b\<bar> < pow2 (bin_exp q)" .
    define s :: int where "s = (if 0 < q then 1 else -1)"
    have ube: "u \<le> bin_exp q" by (simp add: u)
    have "\<bar>r - q\<bar> \<le> \<bar>of_int (s * 2 ^ nat (bin_exp q - u)) * pow2 u - q\<bar>" by (rule grid)
    also have "of_int (s * 2 ^ nat (bin_exp q - u)) * pow2 u = of_int s * pow2 (bin_exp q)"
      by (simp add: pow2_split [OF ube])
    also have "\<bar>of_int s * pow2 (bin_exp q) - q\<bar> = \<bar>q\<bar> - pow2 (bin_exp q)"
      using bin_exp_bounds [OF q0] q0 by (auto simp: s_def abs_if)
    also have "\<dots> \<le> \<bar>b - q\<bar>" using bsmall by linarith
    finally show ?thesis .
  qed
qed

text \<open>\<open>fl_round\<close> implements IEEE 754 rounding to nearest: when it returns
  (no overflow), its result is a finite binary64 double, and no finite double is
  closer to the exact value it rounds.\<close>

theorem fl_round_refines_nearest:
  assumes "fl_round q = Some r"
  shows "is_double r \<and> (\<forall>b. is_double b \<longrightarrow> \<bar>r - q\<bar> \<le> \<bar>b - q\<bar>)"
  using fl_round_is_double [OF assms] fl_round_closest [OF assms] by blast

theorem fl_round_refines_nearest_witness:
  "is_double (3602879701896397 / 36028797018963968) \<and>
   \<bar>3602879701896397 / 36028797018963968 - 1 / 10\<bar> \<le> \<bar>1801439850948199 / 18014398509481984 - 1 / (10 :: rat)\<bar>"
proof -
  have r: "fl_round (1 / 10) = Some (3602879701896397 / 36028797018963968)" by code_simp
  have b: "is_double (1801439850948199 / 18014398509481984)"
    unfolding is_double_def
  proof (intro exI conjI)
    have "pow2 (-54) = 1 / 18014398509481984" by (simp add: pow2_code)
    then show "(1801439850948199 / 18014398509481984 :: rat) = of_int (1801439850948199 :: int) * pow2 (-54)"
      by simp
  qed simp_all
  note n = fl_round_refines_nearest [OF r]
  have d: "is_double (3602879701896397 / 36028797018963968)" using n by (rule conjunct1)
  have "\<forall>b. is_double b \<longrightarrow> \<bar>3602879701896397 / 36028797018963968 - 1 / 10\<bar> \<le> \<bar>b - 1 / (10 :: rat)\<bar>"
    using n by (rule conjunct2)
  then have "\<bar>3602879701896397 / 36028797018963968 - 1 / 10\<bar> \<le> \<bar>1801439850948199 / 18014398509481984 - 1 / (10 :: rat)\<bar>"
    using b by blast
  with d show ?thesis by (rule conjI)
qed

end
