(* ===== verification/Modifiers.thy ===== *)
theory Modifiers
  imports BaseGroups Rounding
begin

text \<open>
  \<open>parse_modifiers_and_tiers\<close> (\<open>scrapper.py\<close> lines 78--157) and \<open>parse_value\<close>
  (lines 160--161).  For every base of \<open>poec_data["basemods"]\<close> that is a known group,
  each modifier id is looked up in \<open>poec_data["modifiers"]["seq"]\<close>; its tier table
  for this base is read in two passes.  The first pass (lines 96--107) decides whether
  the values are floats; the flag it leaves behind is the one of the last tier.  The
  second pass (lines 110--146) parses every tier inside \<open>try\<close>: a \<open>ValueError\<close>
  (of which \<open>JSONDecodeError\<close> is a subclass) skips the tier, every other exception
  ends the run.  Tiers of weighting at most 1 are dropped; the label of a kept tier is
  \<open>"T"\<close> followed by the list length minus \<open>tier_values.index(tier)\<close>.

  \<open>json.loads\<close> is the library's parser and is not modelled: the stage takes it as a
  parameter \<open>loads\<close>, \<open>None\<close> meaning that the text is not JSON.
\<close>

type_synonym json_parser = "string \<Rightarrow> json option"

text \<open>\<open>json.loads(v)\<close> for a value read from a document: only a string is parsed.\<close>

definition py_loads :: "json_parser \<Rightarrow> json \<Rightarrow> json result" where
  "py_loads loads v = (case v of
      JStr s \<Rightarrow> (case loads s of Some w \<Rightarrow> Inr w | None \<Rightarrow> Inl JSONDecodeError)
    | _ \<Rightarrow> Inl TypeError)"

subsection \<open>\<open>parse_value\<close>\<close>

text \<open>\<open>int(float(value) * 60)\<close>.\<close>

definition parse_value :: "json \<Rightarrow> int result" where
  "parse_value v = rbind (py_float v) (\<lambda>f. py_int_of_float (fl_mul f (Fin 60)))"

subsection \<open>First pass: is the tier table a float affix?\<close>

text \<open>The inner loop of lines 99--107, ending at the first float (\<open>break\<close>).  A list
  value is tested on its first element and, when that is not a float, on its second
  (\<open>or\<close> short-circuits), either access raising \<open>IndexError\<close> when missing.\<close>

fun float_in_values :: "json list \<Rightarrow> bool result" where
  "float_in_values [] = Inr False"
| "float_in_values (v # vs) =
     (case v of
        JList xs \<Rightarrow>
          rbind (py_nth xs 0) (\<lambda>x0. if is_float x0 then Inr True else
          rbind (py_nth xs 1) (\<lambda>x1. if is_float x1 then Inr True else float_in_values vs))
      | _ \<Rightarrow> if is_float v then Inr True else float_in_values vs)"

definition tier_is_float :: "json_parser \<Rightarrow> json \<Rightarrow> bool result" where
  "tier_is_float loads t =
     rbind (py_get t ''nvalues'') (\<lambda>raw. rbind (py_loads loads raw) (\<lambda>nv.
       rbind (py_iter nv) float_in_values))"

text \<open>Lines 96--107: \<open>is_float_affix\<close> is reassigned by every tier, so after the loop
  it holds the verdict on the last tier.  The value it had before the loop is never
  read afterwards when the list is empty, since the second pass then does nothing.\<close>

definition detect_float :: "json_parser \<Rightarrow> json list \<Rightarrow> bool result" where
  "detect_float loads tvs = r_foldl (\<lambda>_ t. tier_is_float loads t) False tvs"

subsection \<open>Second pass: one tier\<close>

text \<open>\<open>tier_values.index(tier)\<close> for the tier at position \<open>p\<close>: the first position
  holding a value equal to it as \<open>PyObject_RichCompareBool\<close> decides (\<open>py_eq_id\<close>);
  \<open>list.index\<close> tests identity first, so the search stops at \<open>p\<close> itself at the
  latest.\<close>

definition py_index_at :: "json list \<Rightarrow> nat \<Rightarrow> nat" where
  "py_index_at xs p = (case find (\<lambda>j. py_eq_id (xs ! j) (xs ! p)) [0..<p] of Some j \<Rightarrow> j | None \<Rightarrow> p)"

text \<open>One element of \<open>nvalues\<close> (lines 124--143): the \<open>{"Min", "Max"}\<close> pair it adds
  and the value the loop leaves in \<open>tier_data["float"]\<close>, reset to \<open>False\<close> at
  every element and set to \<open>True\<close> only for a scaled pair.\<close>

definition tier_value :: "bool \<Rightarrow> json \<Rightarrow> ((json \<times> json) \<times> bool) result" where
  "tier_value isf v = (case v of
      JList xs \<Rightarrow>
        if isf then
          rbind (py_nth xs 0) (\<lambda>a. rbind (parse_value a) (\<lambda>a'.
          rbind (py_nth xs 1) (\<lambda>b. rbind (parse_value b) (\<lambda>b'.
            Inr ((JInt a', JInt b'), True)))))
        else rbind (py_nth xs 0) (\<lambda>a. rbind (py_nth xs 1) (\<lambda>b. Inr ((a, b), False)))
    | _ \<Rightarrow>
        if isf then rbind (parse_value v) (\<lambda>a. Inr ((JInt a, JInt a), False))
        else Inr ((v, v), False))"

definition values_loop :: "bool \<Rightarrow> json list \<Rightarrow> ((json \<times> json) list \<times> bool option) result" where
  "values_loop isf vs =
     r_foldl (\<lambda>(acc, fl) v. rbind (tier_value isf v) (\<lambda>(pr, f). Inr (acc @ [pr], Some f)))
             ([], None) vs"

text \<open>The body of the \<open>try\<close> block (lines 112--144): \<open>None\<close> when the tier is
  dropped for its weighting.\<close>

definition tier_body :: "json_parser \<Rightarrow> bool \<Rightarrow> json list \<Rightarrow> nat \<Rightarrow> tier option result" where
  "tier_body loads isf tvs p = (let t = tvs ! p in
     rbind (rbind (py_get t ''ilvl'') py_int) (\<lambda>lv.
     rbind (rbind (py_get t ''weighting'') py_int) (\<lambda>w.
     rbind (rbind (py_get t ''nvalues'') (py_loads loads)) (\<lambda>nv.
       if 1 < w then
         (let td = \<lparr>tier_label = ''T'' @ py_str_int (int (length tvs) - int (py_index_at tvs p)),
                    ilvl = lv, weighting = w, tier_values = [], float_flag = None,
                    affix_percent = None, weight_percent = None\<rparr>
          in case nv of
               JList vs \<Rightarrow> rbind (values_loop isf vs)
                             (\<lambda>(vals, fl). Inr (Some (td\<lparr>tier_values := vals, float_flag := fl\<rparr>)))
             | _ \<Rightarrow> Inr (Some td))
       else Inr None))))"

text \<open>\<open>except (ValueError, json.JSONDecodeError): continue\<close>.\<close>

definition catch_value_error :: "tier option result \<Rightarrow> tier option result" where
  "catch_value_error r = (case r of
      Inl ValueError \<Rightarrow> Inr None
    | Inl JSONDecodeError \<Rightarrow> Inr None
    | _ \<Rightarrow> r)"

definition tier_step :: "json_parser \<Rightarrow> bool \<Rightarrow> json list \<Rightarrow> tier list \<Rightarrow> nat \<Rightarrow> tier list result" where
  "tier_step loads isf tvs acc p =
     rbind (catch_value_error (tier_body loads isf tvs p))
       (\<lambda>kept. Inr (case kept of None \<Rightarrow> acc | Some td \<Rightarrow> acc @ [td]))"

text \<open>One entry \<open>(base_type, tier_values)\<close> of the modifier's tier table
  (lines 94--146): both passes run when the entry belongs to the current base.\<close>

definition tier_entry :: "json_parser \<Rightarrow> string \<Rightarrow> tier list \<Rightarrow> string \<times> json \<Rightarrow> tier list result" where
  "tier_entry loads base_id acc entry = (case entry of (bt, tvals) \<Rightarrow>
     if bt = base_id then
       rbind (py_iter tvals) (\<lambda>tvs.
       rbind (detect_float loads tvs) (\<lambda>isf.
         r_foldl (tier_step loads isf tvs) acc [0..<length tvs]))
     else Inr acc)"

subsection \<open>One modifier of a base\<close>

text \<open>Lines 84--157 for one \<open>modifier_id\<close>, applied to the group of the base.\<close>

definition parse_modifier :: "json_parser \<Rightarrow> json \<Rightarrow> string \<Rightarrow> group \<Rightarrow> json \<Rightarrow> group result" where
  "parse_modifier loads poec_data base_id g modifier_id =
     rbind (py_seq poec_data ''modifiers'' ''seq'') (\<lambda>ms.
     rbind (r_find (\<lambda>m. rbind (py_get m ''id_modifier'') (\<lambda>i. Inr (py_eq i modifier_id))) ms)
       (\<lambda>found. case found of
          None \<Rightarrow> Inr g
        | Some m \<Rightarrow> if \<not> py_truthy m then Inr g else
            rbind (py_get m ''name_modifier'') (\<lambda>name.
            rbind (py_get m ''affix'') (\<lambda>affix_type.
            rbind (rbind (py_get m ''modgroups'') (py_loads loads)) (\<lambda>mg.
            rbind (rbind (py_iter mg)
                     (r_map (\<lambda>x. rbind (py_as_str x) (\<lambda>s. Inr (py_strip (py_lower s)))))) (\<lambda>mgs.
            rbind (rbind (py_get poec_data ''tiers'')
                     (\<lambda>t. py_get_default t (Inr modifier_id) (JObj []))) (\<lambda>tiers_d.
            rbind (py_items tiers_d) (\<lambda>entries.
            rbind (r_foldl (tier_entry loads base_id) [] entries) (\<lambda>tier_list.
              let a = \<lparr>description = name, mod_groups = mgs, tiers = tier_list\<rparr> in
              Inr (if py_eq affix_type (JStr ''prefix'') then g\<lparr>prefixes := prefixes g @ [a]\<rparr>
                   else if py_eq affix_type (JStr ''suffix'') then g\<lparr>suffixes := suffixes g @ [a]\<rparr>
                   else g))))))))))"

definition parse_basemod :: "json_parser \<Rightarrow> json \<Rightarrow> groups \<Rightarrow> string \<times> json \<Rightarrow> groups result" where
  "parse_basemod loads poec_data bgs entry = (case entry of (base_id, modifier_ids) \<Rightarrow>
     (case map_of bgs base_id of
        None \<Rightarrow> Inr bgs
      | Some g \<Rightarrow>
          rbind (py_iter modifier_ids) (\<lambda>mids.
          rbind (r_foldl (parse_modifier loads poec_data base_id) g mids) (\<lambda>g'.
            Inr (AList.update base_id g' bgs)))))"

definition parse_modifiers_and_tiers :: "json_parser \<Rightarrow> json \<Rightarrow> json \<Rightarrow> groups \<Rightarrow> groups result" where
  "parse_modifiers_and_tiers loads poec_data poec_lang bgs =
     rbind (rbind (py_get poec_data ''basemods'') py_items)
       (r_foldl (parse_basemod loads poec_data) bgs)"

subsection \<open>Every tier the stage adds has a weighting above 1\<close>

abbreviation tiers_valid :: "tier list \<Rightarrow> bool" where
  "tiers_valid ts \<equiv> list_all (\<lambda>t. 1 < weighting t) ts"

lemma tier_body_weighting:
  "tier_body loads isf tvs p = Inr (Some td) \<Longrightarrow> 1 < weighting td"
  by (auto simp: tier_body_def Let_def split: if_splits json.splits prod.splits)

lemma catch_value_error_Some:
  "catch_value_error r = Inr (Some td) \<Longrightarrow> r = Inr (Some td)"
  by (auto simp: catch_value_error_def split: sum.splits pyerr.splits)

lemma tier_step_valid:
  "tier_step loads isf tvs acc p = Inr acc' \<Longrightarrow> tiers_valid acc \<Longrightarrow> tiers_valid acc'"
  by (auto simp: tier_step_def split: option.splits
           dest!: catch_value_error_Some tier_body_weighting)

lemma tier_entry_valid:
  assumes "tier_entry loads base_id acc entry = Inr acc'" and "tiers_valid acc"
  shows "tiers_valid acc'"
proof (cases entry)
  case (Pair bt tvals)
  show ?thesis
  proof (cases "bt = base_id")
    case True
    with assms Pair obtain tvs isf where
      "r_foldl (tier_step loads isf tvs) acc [0..<length tvs] = Inr acc'"
      by (auto simp: tier_entry_def)
    then show ?thesis
      by (rule r_foldl_inv [where P = tiers_valid]) (auto intro: assms(2) tier_step_valid)
  next
    case False
    with assms Pair show ?thesis by (simp add: tier_entry_def)
  qed
qed

lemma tier_entries_valid:
  "r_foldl (tier_entry loads base_id) [] entries = Inr ts \<Longrightarrow> tiers_valid ts"
  by (rule r_foldl_inv [where P = tiers_valid]) (auto intro: tier_entry_valid)

lemma parse_modifier_valid:
  assumes "parse_modifier loads poec_data base_id g mid = Inr g'"
    and "tiers_valid (group_tiers g)"
  shows "tiers_valid (group_tiers g')"
  using assms
  by (auto simp: parse_modifier_def group_tiers_def Let_def
           split: option.splits if_splits dest!: tier_entries_valid)

lemma parse_basemod_valid:
  assumes "parse_basemod loads poec_data bgs entry = Inr bgs'" and "groups_valid bgs"
  shows "groups_valid bgs' \<and> keys bgs' = keys bgs"
proof (cases entry)
  case (Pair base_id mids)
  show ?thesis
  proof (cases "map_of bgs base_id")
    case None
    with assms Pair show ?thesis by (simp add: parse_basemod_def)
  next
    case (Some g)
    with assms Pair obtain ms g' where
      run: "r_foldl (parse_modifier loads poec_data base_id) g ms = Inr g'"
      and res: "bgs' = AList.update base_id g' bgs"
      by (auto simp: parse_basemod_def)
    from Some assms(2) have "tiers_valid (group_tiers g)"
      by (auto simp: groups_valid_def list_all_iff dest!: map_of_SomeD)
    then have "tiers_valid (group_tiers g')"
      by (rule r_foldl_inv [OF run, where P = "\<lambda>g. tiers_valid (group_tiers g)"])
         (auto intro: parse_modifier_valid)
    moreover from Some have "base_id \<in> set (keys bgs)"
      by (auto dest: map_of_SomeD intro: rev_image_eqI)
    then have "keys bgs' = keys bgs" using res by (simp add: keys_update_present)
    ultimately show ?thesis using assms(2) res
      by (auto simp: groups_valid_def intro!: list_all_update)
  qed
qed

lemma parse_modifiers_and_tiers_valid:
  assumes "parse_modifiers_and_tiers loads poec_data poec_lang bgs = Inr bgs'"
    and "groups_valid bgs"
  shows "groups_valid bgs' \<and> keys bgs' = keys bgs"
proof -
  from assms(1) obtain entries where
    "r_foldl (parse_basemod loads poec_data) bgs entries = Inr bgs'"
    by (auto simp: parse_modifiers_and_tiers_def)
  then show ?thesis
    by (rule r_foldl_inv [where P = "\<lambda>b. groups_valid b \<and> keys b = keys bgs"])
       (auto simp: assms(2) dest: parse_basemod_valid)
qed

subsection \<open>Tier labels\<close>

lemma py_index_at_le: "py_index_at xs p \<le> p"
  by (auto simp: py_index_at_def find_Some_iff split: option.splits)

lemma py_index_at_distinct:
  "(\<forall>j < p. \<not> py_eq_id (xs ! j) (xs ! p)) \<Longrightarrow> py_index_at xs p = p"
  by (auto simp: py_index_at_def find_Some_iff split: option.splits)

lemma tier_body_Some:
  "tier_body loads isf tvs p = Inr (Some td) \<Longrightarrow>
     tier_label td = ''T'' @ py_str_int (int (length tvs) - int (py_index_at tvs p)) \<and> 1 < weighting td"
  by (auto simp: tier_body_def Let_def split: if_splits json.splits prod.splits)

text \<open>C3. A kept tier at position \<open>p\<close> of a table of \<open>n\<close> tiers is labelled
  \<open>"T" + str(k)\<close> with \<open>n - p \<le> k \<le> n\<close>; \<open>k = n - p\<close> when no earlier tier is
  equal to it.  Dropped tiers keep their positions, so labels may skip numbers.\<close>

theorem tier_label_number:
  assumes "tier_body loads isf tvs p = Inr (Some td)" and "p < length tvs"
  shows "\<exists>k. tier_label td = ''T'' @ py_str_int k \<and> int (length tvs) - int p \<le> k \<and>
             1 \<le> k \<and> k \<le> int (length tvs) \<and>
             ((\<forall>j < p. \<not> py_eq_id (tvs ! j) (tvs ! p)) \<longrightarrow> k = int (length tvs) - int p)"
proof -
  let ?k = "int (length tvs) - int (py_index_at tvs p)"
  have "tier_label td = ''T'' @ py_str_int ?k" using tier_body_Some [OF assms(1)] by simp
  moreover have "int (length tvs) - int p \<le> ?k" using py_index_at_le [of tvs p] by simp
  moreover have "1 \<le> ?k" using py_index_at_le [of tvs p] assms(2) by simp
  moreover have "(\<forall>j < p. \<not> py_eq_id (tvs ! j) (tvs ! p)) \<longrightarrow> ?k = int (length tvs) - int p"
    by (simp add: py_index_at_distinct)
  ultimately show ?thesis by auto
qed

theorem tier_label_number_witness:
  "tier_body (\<lambda>s. if s = ''A'' then Some (JList []) else None) False
     [JObj [(''ilvl'', JInt 1), (''weighting'', JInt 10), (''nvalues'', JStr ''A'')],
      JObj [(''ilvl'', JInt 1), (''weighting'', JInt 5), (''nvalues'', JStr ''A'')]] 1 =
   Inr (Some \<lparr>tier_label = ''T1'', ilvl = 1, weighting = 5, tier_values = [], float_flag = None,
              affix_percent = None, weight_percent = None\<rparr>) \<and>
   tier_label \<lparr>tier_label = ''T1'', ilvl = 1, weighting = 5, tier_values = [], float_flag = None,
              affix_percent = None, weight_percent = None\<rparr> = ''T'' @ py_str_int 1"
proof -
  let ?tvs = "[JObj [(''ilvl'', JInt 1), (''weighting'', JInt 10), (''nvalues'', JStr ''A'')],
      JObj [(''ilvl'', JInt 1), (''weighting'', JInt 5), (''nvalues'', JStr ''A'')]]"
  let ?td = "\<lparr>tier_label = ''T1'', ilvl = 1, weighting = 5, tier_values = [], float_flag = None,
              affix_percent = None, weight_percent = None\<rparr>"
  have run: "tier_body (\<lambda>s. if s = ''A'' then Some (JList []) else None) False ?tvs 1 = Inr (Some ?td)"
    by code_simp
  have d: "\<forall>j < 1. \<not> py_eq_id (?tvs ! j) (?tvs ! 1)" by code_simp
  from tier_label_number [OF run] d obtain k where
    "tier_label ?td = ''T'' @ py_str_int k" and "k = 2 - 1" by auto
  with run show ?thesis by simp
qed



subsection \<open>The first pass\<close>

text \<open>C4. A tier whose \<open>nvalues\<close> text is not JSON is not skipped: the first pass
  parses it outside the \<open>try\<close> block, so the whole tier table raises.\<close>

theorem malformed_nvalues_fatal:
  assumes "t \<in> set tvs" and "py_get t ''nvalues'' = Inr (JStr s)" and "loads s = None"
  shows "isl (tier_entry loads base_id acc (base_id, JList tvs))"
proof -
  have "tier_is_float loads t = Inl JSONDecodeError"
    using assms(2,3) by (simp add: tier_is_float_def py_loads_def)
  then have "isl (detect_float loads tvs)"
    unfolding detect_float_def using assms(1) by (intro r_foldl_Inl_member) auto
  then show ?thesis
    by (auto simp: tier_entry_def rbind_def split: sum.splits)
qed

theorem malformed_nvalues_fatal_witness:
  "isl (tier_entry (\<lambda>s. None) ''b'' [] (''b'', JList [JObj [(''ilvl'', JInt 1), (''weighting'', JInt 5),
      (''nvalues'', JStr ''[1,'')]]))"
  by (rule malformed_nvalues_fatal [where s = "''[1,''"]) (simp, code_simp, simp)

text \<open>C5. The verdict of the first pass is the one on the last tier: the verdicts on
  the earlier tiers are overwritten.\<close>

theorem detect_float_last:
  assumes "\<forall>u \<in> set tvs. \<not> isl (tier_is_float loads u)"
  shows "detect_float loads (tvs @ [t]) = tier_is_float loads t"
proof -
  obtain b where "r_foldl (\<lambda>_ u. tier_is_float loads u) False tvs = Inr b"
    using r_foldl_no_error [of tvs "\<lambda>_ u. tier_is_float loads u"] assms by blast
  then show ?thesis
    by (simp add: detect_float_def r_foldl_append rbind_def split: sum.splits)
qed

theorem detect_float_last_witness:
  "detect_float (\<lambda>s. if s = ''F'' then Some (JList [JList [JFloat (Fin (3/2)), JFloat (Fin (5/2))]])
                      else if s = ''I'' then Some (JList [JList [JInt 1, JInt 2]]) else None)
     [JObj [(''nvalues'', JStr ''F'')], JObj [(''nvalues'', JStr ''I'')]] = Inr False"
proof -
  let ?l = "\<lambda>s. if s = ''F'' then Some (JList [JList [JFloat (Fin (3/2)), JFloat (Fin (5/2))]])
                else if s = ''I'' then Some (JList [JList [JInt 1, JInt 2]]) else None"
  have "\<forall>u \<in> set [JObj [(''nvalues'', JStr ''F'')]]. \<not> isl (tier_is_float ?l u)" by code_simp
  then have "detect_float ?l ([JObj [(''nvalues'', JStr ''F'')]] @ [JObj [(''nvalues'', JStr ''I'')]]) =
      tier_is_float ?l (JObj [(''nvalues'', JStr ''I'')])"
    by (rule detect_float_last)
  moreover have "tier_is_float ?l (JObj [(''nvalues'', JStr ''I'')]) = Inr False" by code_simp
  ultimately show ?thesis by simp
qed

text \<open>An instance of \<open>detect_float_last\<close> on a table whose first tier has float values and whose last
  tier has integers: the floats of the first tier are written unscaled, with
  \<open>"float": false\<close>.\<close>

theorem float_tier_before_int_tier_unscaled:
  "tier_entry (\<lambda>s. if s = ''F'' then Some (JList [JList [JFloat (Fin (3/2)), JFloat (Fin (5/2))]])
                   else if s = ''I'' then Some (JList [JList [JInt 1, JInt 2]]) else None) ''b'' []
     (''b'', JList [JObj [(''ilvl'', JInt 1), (''weighting'', JInt 10), (''nvalues'', JStr ''F'')],
                    JObj [(''ilvl'', JInt 1), (''weighting'', JInt 5), (''nvalues'', JStr ''I'')]]) =
   Inr [\<lparr>tier_label = ''T2'', ilvl = 1, weighting = 10,
         tier_values = [(JFloat (Fin (3/2)), JFloat (Fin (5/2)))], float_flag = Some False,
         affix_percent = None, weight_percent = None\<rparr>,
        \<lparr>tier_label = ''T1'', ilvl = 1, weighting = 5, tier_values = [(JInt 1, JInt 2)],
         float_flag = Some False, affix_percent = None, weight_percent = None\<rparr>]"
  by code_simp

subsection \<open>The \<open>"float"\<close> key of a tier\<close>

lemma tier_value_flag:
  "tier_value isf v = Inr (pr, f) \<Longrightarrow> f = (isf \<and> (\<exists>xs. v = JList xs))"
  by (auto simp: tier_value_def split: json.splits if_splits)

lemma values_loop_acc:
  assumes "r_foldl (\<lambda>(acc, fl) v. rbind (tier_value isf v) (\<lambda>(pr, f). Inr (acc @ [pr], Some f)))
             (acc0, fl0) vs = Inr (vals, fl)"
  shows "length vals = length acc0 + length vs \<and>
         fl = (if vs = [] then fl0 else Some (isf \<and> (\<exists>xs. last vs = JList xs)))"
  using assms
proof (induction vs arbitrary: acc0 fl0)
  case Nil
  then show ?case by simp
next
  case (Cons v vs)
  from Cons.prems obtain pr f where tv: "tier_value isf v = Inr (pr, f)" and
    rest: "r_foldl (\<lambda>(acc, fl) v. rbind (tier_value isf v) (\<lambda>(pr, f). Inr (acc @ [pr], Some f)))
             (acc0 @ [pr], Some f) vs = Inr (vals, fl)"
    by (auto split: prod.splits)
  from Cons.IH [OF rest] tier_value_flag [OF tv] show ?case by auto
qed

text \<open>C6. After the values loop, \<open>"float"\<close> is absent for an empty list and
  otherwise tells whether the last value was a pair of a float affix: a float affix
  whose last value is a scalar is written with \<open>"float": false\<close> although its values
  were scaled.  Every value gives one pair.\<close>

theorem values_loop_float_flag:
  assumes "values_loop isf vs = Inr (vals, fl)"
  shows "length vals = length vs \<and>
         fl = (if vs = [] then None else Some (isf \<and> (\<exists>xs. last vs = JList xs)))"
  using values_loop_acc [of isf "[]" None vs vals fl] assms by (simp add: values_loop_def)

theorem values_loop_float_flag_witness:
  "values_loop True [JFloat (Fin (3/2))] = Inr ([(JInt 90, JInt 90)], Some False) \<and>
   Some False = Some (True \<and> (\<exists>xs. last [JFloat (Fin (3/2))] = JList xs))"
proof -
  have run: "values_loop True [JFloat (Fin (3/2))] = Inr ([(JInt 90, JInt 90)], Some False)"
    by code_simp
  from values_loop_float_flag [OF run] run show ?thesis by simp
qed

subsection \<open>The tier table of a modifier\<close>

lemma tier_entry_other: "bt \<noteq> base_id \<Longrightarrow> tier_entry loads base_id acc (bt, tv) = Inr acc"
  by (simp add: tier_entry_def)

lemma rbind_Inr_right [simp]: "rbind r Inr = r"
  by (cases r) simp_all

text \<open>C7. The loop over \<open>tiers.items()\<close> with the test \<open>base_type == base_id\<close>
  (lines 94--95) is a lookup of the base in the table: the keys of a parsed dictionary
  are distinct, so at most one entry matches.\<close>

theorem tier_table_lookup:
  assumes "distinct (keys entries)"
  shows "r_foldl (tier_entry loads base_id) acc entries =
           (case map_of entries base_id of
              None \<Rightarrow> Inr acc
            | Some tv \<Rightarrow> tier_entry loads base_id acc (base_id, tv))"
  using assms
proof (induction entries arbitrary: acc)
  case Nil
  then show ?case by simp
next
  case (Cons e rest)
  obtain bt tv where e: "e = (bt, tv)" by (cases e)
  show ?case
  proof (cases "bt = base_id")
    case True
    with Cons.prems e have "map_of rest base_id = None"
      by (auto simp: map_of_eq_None_iff)
    with Cons.IH Cons.prems have "\<And>a. r_foldl (tier_entry loads base_id) a rest = Inr a" by simp
    with True e show ?thesis by simp
  next
    case False
    with Cons e show ?thesis by (simp add: tier_entry_other)
  qed
qed

theorem tier_table_lookup_witness:
  "r_foldl (tier_entry (\<lambda>s. None) ''b'') [] [(''a'', JNull), (''b'', JList [])] = Inr []"
proof -
  have "distinct (keys [(''a'', JNull), (''b'', JList [])])" by simp
  from tier_table_lookup [OF this, of "\<lambda>s. None" "''b''" "[]"] show ?thesis
    by (simp add: tier_entry_def py_iter_def detect_float_def)
qed

subsection \<open>What one modifier changes\<close>

text \<open>C8. Processing one modifier id changes the group in at most one way: it
  appends one affix to the prefixes, and then the modifier record found has
  \<open>"affix": "prefix"\<close>; or one to the suffixes, and then that record has
  \<open>"affix": "suffix"\<close>; or nothing (an unknown id, an affix type that is neither).  Items, name,
  \<open>base_type\<close> and \<open>bgroup\<close> are untouched.\<close>

theorem parse_modifier_frame:
  assumes "parse_modifier loads poec_data base_id g mid = Inr g'"
  shows "g' = g \<or>
    (\<exists>ms m a. py_seq poec_data ''modifiers'' ''seq'' = Inr ms \<and> m \<in> set ms \<and>
       py_get m ''affix'' = Inr (JStr ''prefix'') \<and> g' = g\<lparr>prefixes := prefixes g @ [a]\<rparr>) \<or>
    (\<exists>ms m a. py_seq poec_data ''modifiers'' ''seq'' = Inr ms \<and> m \<in> set ms \<and>
       py_get m ''affix'' = Inr (JStr ''suffix'') \<and> g' = g\<lparr>suffixes := suffixes g @ [a]\<rparr>)"
  using assms unfolding parse_modifier_def Let_def
  by (fastforce simp: py_eq_str elim!: rbind_InrE dest: r_find_Some_mem split: option.splits if_splits)

subsection \<open>Scaling of values\<close>

text \<open>C14. An integer value of \<open>nvalues\<close> (\<open>json.loads\<close> gives an int for \<open>"5"\<close>) is
  scaled exactly: \<open>int(float(v) * 60) = 60 v\<close> as long as \<open>60 v\<close> stays below \<open>2 ^ 53\<close>.\<close>

theorem parse_value_int:
  assumes "\<bar>i\<bar> < 2 ^ 47"
  shows "parse_value (JInt i) = Inr (60 * i)"
proof -
  have a: "\<bar>i\<bar> < 2 ^ 53" using assms by simp
  have b: "\<bar>i * 60\<bar> < 2 ^ 53" using assms by (simp add: abs_mult)
  have h: "fl_round (of_int i * 60) = Some (of_int (60 * i))"
    using fl_round_int [OF b] by (simp add: mult.commute)
  have f1: "fl_of_int i = Inr (Fin (of_int i))" by (simp add: fl_of_int_def fl_round_int [OF a])
  have f2: "fl_mul (Fin (of_int i)) (Fin 60) = Fin (of_int (60 * i))" by (simp add: fl_of_rat_def h)
  have f3: "py_int_of_float (Fin (of_int (60 * i))) = Inr (60 * i)"
    by (simp add: py_trunc_def del: of_int_mult)
  show ?thesis by (simp only: parse_value_def py_float.simps f1 rbind_Inr f2 f3)
qed

theorem parse_value_int_witness: "parse_value (JInt 5) = Inr 300"
  using parse_value_int [of 5] by simp

text \<open>C22. A nonnegative float value \<open>x\<close> is stored as the truncation of the double
  nearest to \<open>60 x\<close>: the result \<open>k\<close> satisfies \<open>k \<le> 60 x\<close> and \<open>60 x < k + 1\<close> up to
  the rounding error of the product.  It is not rounded to the nearest integer:
  \<open>2.05\<close>, whose double lies just below \<open>2.05\<close>, gives \<open>122.99999999999999\<close> and is
  stored as 122, not 123.\<close>

theorem parse_value_float:
  assumes "0 \<le> x" and "x \<le> 2 ^ 1000"
  shows "\<exists>k. parse_value (JFloat (Fin x)) = Inr k \<and> 0 \<le> k \<and>
           of_int k \<le> 60 * x + 60 * x / 2 ^ 53 + 1 / 2 ^ 60 \<and>
           60 * x - 60 * x / 2 ^ 53 - 1 / 2 ^ 60 < of_int k + 1"
proof -
  have "60 * x < pow2 1023"
    using assms(2) pow2_nat [of 1023] by simp
  with assms(1) obtain r where r: "fl_round (x * 60) = Some r"
    and err: "\<bar>r - x * 60\<bar> \<le> \<bar>x * 60\<bar> / 2 ^ 53 + pow2 (-1075)"
    using fl_round_near [of "x * 60"] by (auto simp: mult.commute)
  have "0 \<le> r" using fl_round_nonneg [OF _ r] assms(1) by simp
  then have t: "of_int (py_trunc r) \<le> r" "r < of_int (py_trunc r) + 1" "0 \<le> py_trunc r"
    using py_trunc_nonneg by blast+
  have v: "parse_value (JFloat (Fin x)) = Inr (py_trunc r)"
    by (simp add: parse_value_def fl_of_rat_def r)
  from err assms(1) pow2_small have "\<bar>r - 60 * x\<bar> \<le> 60 * x / 2 ^ 53 + 1 / 2 ^ 60"
    by (simp add: mult.commute)
  with t v show ?thesis by (auto simp: abs_le_iff)
qed

theorem parse_value_float_witness:
  "parse_float_str ''2.05'' = Inr (Fin (2308094809027379 / 1125899906842624)) \<and>
   parse_value (JFloat (Fin (2308094809027379 / 1125899906842624))) = Inr 122 \<and>
   (\<exists>k. parse_value (JFloat (Fin (2308094809027379 / 1125899906842624))) = Inr k \<and> 0 \<le> k \<and>
      of_int k \<le> 60 * (2308094809027379 / 1125899906842624) + 60 * (2308094809027379 / 1125899906842624) / 2 ^ 53 + (1 / 2 ^ 60 :: rat) \<and>
      60 * (2308094809027379 / 1125899906842624) - 60 * (2308094809027379 / 1125899906842624) / 2 ^ 53 - (1 / 2 ^ 60 :: rat) < of_int k + 1)"
proof -
  have a: "parse_float_str ''2.05'' = Inr (Fin (2308094809027379 / 1125899906842624))" by code_simp
  have b: "parse_value (JFloat (Fin (2308094809027379 / 1125899906842624))) = Inr 122" by code_simp
  have c: "0 \<le> (2308094809027379 / 1125899906842624 :: rat)" "(2308094809027379 / 1125899906842624 :: rat) \<le> 2 ^ 1000"
    by simp_all
  show ?thesis using a b parse_value_float [OF c] by blast
qed
end
