(* ===== verification/Fetch.thy ===== *)
theory Fetch
  imports Modifiers
begin

text \<open>
  \<open>fetch_json\<close> (\<open>scrapper.py\<close> lines 34--52).  The HTTP request itself is the
  environment: the model receives the response the server sent, its status code and
  its decoded text.  The request headers only identify the client to the server and do
  not enter the model.  \<open>response.ok\<close> is the test of the \<open>requests\<close> library
  (false exactly for the codes 400 to 599); a failed response raises an exception that
  carries the URL and the code.  The text is stripped, a URL ending in one of the two
  versioned file names has its \<open>poecd=\<close> or \<open>poecl=\<close> wrapper removed with
  \<open>str.lstrip\<close>, and the rest goes to \<open>json.loads\<close>, the parser parameter.
\<close>

record response =
  status_code :: int
  resp_text :: string

definition response_ok :: "response \<Rightarrow> bool" where
  "response_ok r = (\<not> (400 \<le> status_code r \<and> status_code r < 600))"

definition data_suffix :: string where
  "data_suffix = ''poec_data.json?v=1736871389''"

definition lang_suffix :: string where
  "lang_suffix = ''poec_lang.us.json?v=1736871389''"

text \<open>The text handed to \<open>json.loads\<close>, or the exception of line 43.\<close>

definition fetch_text :: "string \<Rightarrow> response \<Rightarrow> string result" where
  "fetch_text url resp = (if \<not> response_ok resp then Inl (FetchError url (status_code resp)) else
     (let raw = py_strip (resp_text resp) in
      Inr (if py_endswith url data_suffix then py_strip (py_lstrip_chars raw ''poecd='')
           else if py_endswith url lang_suffix then py_strip (py_lstrip_chars raw ''poecl='')
           else raw)))"

definition fetch_json :: "json_parser \<Rightarrow> string \<Rightarrow> response \<Rightarrow> json result" where
  "fetch_json loads url resp = rbind (fetch_text url resp) (\<lambda>t.
     case loads t of Some v \<Rightarrow> Inr v | None \<Rightarrow> Inl JSONDecodeError)"

subsection \<open>Lemmas\<close>

lemma fetch_json_not_ok:
  "\<not> response_ok resp \<Longrightarrow> fetch_json loads url resp = Inl (FetchError url (status_code resp))"
  by (simp add: fetch_json_def fetch_text_def)

text \<open>C12. For the data URL, \<open>lstrip("poecd=")\<close> followed by \<open>strip()\<close> removes
  exactly the wrapper \<open>poecd=\<close> when the JSON text does not begin with one of the
  characters \<open>p o e c d =\<close> (no JSON text does) and has no surrounding white space:
  the character-set semantics of \<open>lstrip\<close> then agrees with removing the prefix.\<close>

theorem fetch_text_data_wrapper:
  assumes "py_endswith url data_suffix" and "response_ok resp"
    and "resp_text resp = ''poecd='' @ body" and "body \<noteq> []"
    and "hd body \<notin> set ''poecd=''" and "\<not> py_isspace (hd body)" and "\<not> py_isspace (last body)"
  shows "fetch_text url resp = Inr body"
proof -
  have strip_body: "py_strip body = body" using assms(4,6,7) by (intro py_strip_id) simp
  have "\<not> py_isspace CHR ''p''" by (simp add: py_isspace_def)
  then have strip_raw: "py_strip (''poecd='' @ body) = ''poecd='' @ body"
    using assms(4,7) by (intro py_strip_id) simp
  have "py_lstrip_chars (''poecd='' @ body) ''poecd='' = dropWhile (\<lambda>c. c \<in> set ''poecd='') body"
    unfolding py_lstrip_chars_def by (rule dropWhile_append2) simp
  also have "\<dots> = body" using assms(4,5) by (intro dropWhile_hd_keep) simp
  finally show ?thesis
    using assms(1,2,3) strip_raw strip_body by (simp add: fetch_text_def)
qed

theorem fetch_text_data_wrapper_witness:
  "fetch_text ''https://www.craftofexile.com/json/poe2/main/poec_data.json?v=1736871389''
     \<lparr>status_code = 200, resp_text = ''poecd={}''\<rparr> = Inr ''{}''"
  by (rule fetch_text_data_wrapper) (code_simp, simp add: response_ok_def, simp_all add: py_isspace_def)

text \<open>\<open>lstrip\<close> takes a set of characters: a text after the wrapper that begins with
  some of them loses them too.\<close>

theorem fetch_text_strips_charset:
  "fetch_text ''https://www.craftofexile.com/json/poe2/main/poec_data.json?v=1736871389''
     \<lparr>status_code = 200, resp_text = ''poecd=decode''\<rparr> = Inr []"
  by code_simp

end
