(* ===== verification/Percentages.thy ===== *)
theory Percentages
  imports BaseGroups Rounding
begin

text \<open>
  \<open>calculate_percentages\<close> (\<open>scrapper.py\<close> lines 171--193).  For each group the
  weightings of all prefix tiers and of all suffix tiers are summed as Python ints; then
  every tier gets \<open>affix_percent = round((w / total) * 100, 4)\<close> against the total of
  its own affix kind and \<open>weight_percent\<close> against the combined total, or the int 0
  when that total is not positive.  The arithmetic is the float model of \<open>PyFloat\<close>:
  \<open>w / total\<close> is the correctly rounded int division, \<open>* 100\<close> a rounded float
  product, \<open>round(_, 4)\<close> the decimal rounding of CPython.  The third element of each
  row of the loop table (\<open>"prefix_percent"\<close>, \<open>"suffix_percent"\<close>) is never used.
\<close>

text \<open>\<open>sum(tier["weighting"] for affix in affixes for tier in affix["tiers"])\<close>.\<close>

definition affix_weight :: "affix list \<Rightarrow> int" where
  "affix_weight afs = sum_list (map weighting (concat (map tiers afs)))"

text \<open>\<open>round((w / total) * 100, 4) if total > 0 else 0\<close>.\<close>

definition percent :: "int \<Rightarrow> int \<Rightarrow> json result" where
  "percent w tot = (if 0 < tot then
     rbind (py_truediv w tot) (\<lambda>q. rbind (py_round (fl_mul q (Fin 100)) 4) (\<lambda>r. Inr (JFloat r)))
   else Inr (JInt 0))"

definition tier_percents :: "int \<Rightarrow> int \<Rightarrow> tier \<Rightarrow> tier result" where
  "tier_percents tot tot_base t =
     rbind (percent (weighting t) tot) (\<lambda>ap.
     rbind (percent (weighting t) tot_base) (\<lambda>wp.
       Inr (t\<lparr>affix_percent := Some ap, weight_percent := Some wp\<rparr>)))"

definition affixes_percents :: "int \<Rightarrow> int \<Rightarrow> affix list \<Rightarrow> affix list result" where
  "affixes_percents tot tot_base afs =
     r_map (\<lambda>a. rbind (r_map (tier_percents tot tot_base) (tiers a)) (\<lambda>ts. Inr (a\<lparr>tiers := ts\<rparr>))) afs"

definition group_percents :: "group \<Rightarrow> group result" where
  "group_percents g = (let tp = affix_weight (prefixes g); ts = affix_weight (suffixes g); tb = tp + ts in
     rbind (affixes_percents tp tb (prefixes g)) (\<lambda>ps.
     rbind (affixes_percents ts tb (suffixes g)) (\<lambda>ss.
       Inr (g\<lparr>prefixes := ps, suffixes := ss\<rparr>))))"

definition calculate_percentages :: "groups \<Rightarrow> groups result" where
  "calculate_percentages bgs = r_map (\<lambda>(k, g). rbind (group_percents g) (\<lambda>g'. Inr (k, g'))) bgs"

text \<open>The weightings of a dictionary of groups, in order: the stage writes the two
  percentage fields and nothing else.\<close>

definition weight_view :: "groups \<Rightarrow> (string \<times> int list list \<times> int list list) list" where
  "weight_view bgs = map (\<lambda>(k, g). (k, map (map weighting \<circ> tiers) (prefixes g),
                                      map (map weighting \<circ> tiers) (suffixes g))) bgs"

subsection \<open>What the percentages promise\<close>

text \<open>A percentage is near its exact value when it is a float within \<open>1/20000 + 2^-44\<close>
  of \<open>100 w / total\<close>; a group is near when every tier of its prefixes and suffixes
  has both percentages near, against the totals of the script.\<close>

definition pct_near :: "int \<Rightarrow> int \<Rightarrow> json option \<Rightarrow> bool" where
  "pct_near w tot v = (case v of
      Some (JFloat (Fin d)) \<Rightarrow> \<bar>d - 100 * of_int w / of_int tot\<bar> \<le> 1 / 20000 + 1 / 2 ^ 44
    | _ \<Rightarrow> False)"

definition affixes_near :: "int \<Rightarrow> int \<Rightarrow> affix list \<Rightarrow> bool" where
  "affixes_near tot tot_base afs = (\<forall>a \<in> set afs. \<forall>t \<in> set (tiers a).
     pct_near (weighting t) tot (affix_percent t) \<and> pct_near (weighting t) tot_base (weight_percent t))"

definition group_near :: "group \<Rightarrow> bool" where
  "group_near g = (let tp = affix_weight (prefixes g); ts = affix_weight (suffixes g) in
     affixes_near tp (tp + ts) (prefixes g) \<and> affixes_near ts (tp + ts) (suffixes g))"

definition percentages_near :: "groups \<Rightarrow> bool" where
  "percentages_near bgs = (\<forall>(k, g) \<in> set bgs. group_near g)"

text \<open>The value of a percentage field, 0 when it is not a float.\<close>

definition pct_value :: "json option \<Rightarrow> rat" where
  "pct_value v = (case v of Some (JFloat (Fin d)) \<Rightarrow> d | _ \<Rightarrow> 0)"

subsection \<open>What the stage keeps\<close>

lemma affixes_percents_weights:
  "affixes_percents tp tb afs = Inr afs' \<Longrightarrow>
     map (map weighting \<circ> tiers) afs' = map (map weighting \<circ> tiers) afs"
  unfolding affixes_percents_def
  by (erule r_map_view)
     (auto elim!: r_map_view simp: tier_percents_def)

lemma group_percents_weights:
  "group_percents g = Inr g' \<Longrightarrow>
     map (map weighting \<circ> tiers) (prefixes g') = map (map weighting \<circ> tiers) (prefixes g) \<and>
     map (map weighting \<circ> tiers) (suffixes g') = map (map weighting \<circ> tiers) (suffixes g)"
  by (auto simp: group_percents_def Let_def dest!: affixes_percents_weights)

lemma calculate_percentages_weights:
  "calculate_percentages bgs = Inr bgs' \<Longrightarrow> weight_view bgs' = weight_view bgs"
  unfolding calculate_percentages_def weight_view_def
  by (erule r_map_view) (auto dest!: group_percents_weights)

lemma weights_concat: "concat (map (\<lambda>a. map weighting (tiers a)) afs) = map weighting (concat (map tiers afs))"
  by (simp add: map_concat comp_def)

lemma groups_valid_weight_view:
  "groups_valid bgs = list_all (\<lambda>(k, pw, sw). list_all (\<lambda>w. 1 < w) (concat (pw @ sw))) (weight_view bgs)"
  by (induction bgs)
     (auto simp: groups_valid_def weight_view_def group_tiers_def weights_concat list.pred_map comp_def
           simp del: map_map)

lemma calculate_percentages_valid:
  assumes "calculate_percentages bgs = Inr bgs'" and "groups_valid bgs"
  shows "groups_valid bgs' \<and> keys bgs' = keys bgs"
proof -
  have view: "weight_view bgs' = weight_view bgs"
    using assms(1) by (rule calculate_percentages_weights)
  then have "map fst (weight_view bgs') = map fst (weight_view bgs)" by simp
  then have "keys bgs' = keys bgs"
    by (simp add: weight_view_def case_prod_beta comp_def)
  with view assms(2) show ?thesis by (simp add: groups_valid_weight_view)
qed

subsection \<open>Accuracy of one percentage\<close>

text \<open>For a weight \<open>0 \<le> w \<le> total\<close> with \<open>total > 0\<close>, the expression
  \<open>round((w / total) * 100, 4)\<close> of line 190 returns a float, without overflow, and
  that float is within \<open>1/20000 + 2^-44\<close> of the exact percentage \<open>100 w / total\<close>:
  the decimal rounding contributes at most \<open>1/20000\<close>, the three binary roundings
  together less than \<open>2^-44\<close>.\<close>

lemma percent_bound:
  assumes "0 < tot" and "0 \<le> w" and "w \<le> tot"
  shows "\<exists>d. percent w tot = Inr (JFloat (Fin d)) \<and> \<bar>d - 100 * of_int w / of_int tot\<bar> \<le> 1 / 20000 + 1 / 2 ^ 44"
proof -
  define x :: rat where "x = of_int w / of_int tot"
  define t where "t = pow2 (-1075)"
  have t: "0 \<le> t" "t \<le> 1 / 2 ^ 60" using pow2_small by (simp_all add: t_def)
  have x: "0 \<le> x" "x \<le> 1" using assms by (simp_all add: x_def)
  have P: "256 \<le> pow2 1023" by (rule pow2_1023_ge)
  obtain q1 where q1: "fl_round x = Some q1" and e1: "\<bar>q1 - x\<bar> \<le> \<bar>x\<bar> / 2 ^ 53 + t"
    using fl_round_near [of x] x P unfolding t_def by fastforce
  have e1': "\<bar>q1 - x\<bar> \<le> 2 / 2 ^ 53" using e1 x t by simp
  have b1: "\<bar>q1\<bar> \<le> 101 / 100" using e1' x by (simp only: abs_diff_le_iff abs_le_iff) (simp; linarith)
  obtain q2 where q2: "fl_round (q1 * 100) = Some q2" and e2: "\<bar>q2 - q1 * 100\<bar> \<le> \<bar>q1 * 100\<bar> / 2 ^ 53 + t"
    using fl_round_near [of "q1 * 100"] b1 P unfolding t_def by (fastforce simp: abs_mult)
  have e2': "\<bar>q2 - q1 * 100\<bar> \<le> 102 / 2 ^ 53" using e2 b1 t by (simp add: abs_mult)
  define y :: rat where "y = of_int (round_half_even (q2 * 10 ^ 4)) / 10 ^ 4"
  have e3: "\<bar>y - q2\<bar> \<le> 1 / 20000" unfolding y_def by (rule round_4_err)
  have yb: "\<bar>y\<bar> \<le> 102" using e3 e2' b1 by (simp only: abs_diff_le_iff abs_le_iff) (simp; linarith)
  obtain d where d: "fl_round y = Some d" and e4: "\<bar>d - y\<bar> \<le> \<bar>y\<bar> / 2 ^ 53 + t"
    using fl_round_near [of y] yb P unfolding t_def by fastforce
  have e4': "\<bar>d - y\<bar> \<le> 103 / 2 ^ 53" using e4 yb t by simp
  have run: "percent w tot = Inr (JFloat (Fin d))"
    using assms q1 q2 d by (simp add: percent_def py_truediv_def py_round_def fl_of_rat_def y_def x_def)
  have "\<bar>d - 100 * x\<bar> \<le> 1 / 20000 + 1 / 2 ^ 44"
    using e1' e2' e3 e4' by (simp only: abs_diff_le_iff abs_le_iff) (simp; linarith)
  with run show ?thesis by (simp add: x_def)
qed

subsection \<open>Accuracy of the stage\<close>

lemma pct_near_percent:
  "0 < tot \<Longrightarrow> 0 \<le> w \<Longrightarrow> w \<le> tot \<Longrightarrow> \<exists>v. percent w tot = Inr v \<and> pct_near w tot (Some v)"
  using percent_bound [of tot w] by (auto simp: pct_near_def)

lemma affixes_percents_near:
  assumes "\<forall>w \<in> set (map weighting (concat (map tiers afs))). 0 < w \<and> w \<le> tot \<and> w \<le> tot_base"
  shows "\<exists>afs'. affixes_percents tot tot_base afs = Inr afs' \<and>
           map (map weighting \<circ> tiers) afs' = map (map weighting \<circ> tiers) afs \<and> affixes_near tot tot_base afs'"
proof -
  let ?Qt = "\<lambda>t t'. weighting t' = weighting t \<and> pct_near (weighting t) tot (affix_percent t') \<and>
                    pct_near (weighting t) tot_base (weight_percent t')"
  let ?Qa = "\<lambda>a a'. list_all2 ?Qt (tiers a) (tiers a')"
  have "\<exists>ys. r_map (\<lambda>a. rbind (r_map (tier_percents tot tot_base) (tiers a)) (\<lambda>ts. Inr (a\<lparr>tiers := ts\<rparr>))) afs = Inr ys
          \<and> list_all2 ?Qa afs ys"
  proof (rule r_map_ok)
    fix a assume a: "a \<in> set afs"
    have "\<exists>ts. r_map (tier_percents tot tot_base) (tiers a) = Inr ts \<and> list_all2 ?Qt (tiers a) ts"
    proof (rule r_map_ok)
      fix t assume "t \<in> set (tiers a)"
      with a assms have w: "0 < weighting t" "weighting t \<le> tot" "weighting t \<le> tot_base" by auto
      obtain ap where ap: "percent (weighting t) tot = Inr ap" "pct_near (weighting t) tot (Some ap)"
        using pct_near_percent [of tot "weighting t"] w by auto
      obtain wp where wp: "percent (weighting t) tot_base = Inr wp" "pct_near (weighting t) tot_base (Some wp)"
        using pct_near_percent [of tot_base "weighting t"] w by auto
      show "\<exists>t'. tier_percents tot tot_base t = Inr t' \<and> ?Qt t t'"
        using ap wp by (simp add: tier_percents_def)
    qed
    then show "\<exists>a'. rbind (r_map (tier_percents tot tot_base) (tiers a)) (\<lambda>ts. Inr (a\<lparr>tiers := ts\<rparr>)) = Inr a' \<and> ?Qa a a'"
      by auto
  qed
  then obtain afs' where run: "affixes_percents tot tot_base afs = Inr afs'" and rel: "list_all2 ?Qa afs afs'"
    by (auto simp: affixes_percents_def)
  have "map (map weighting \<circ> tiers) afs' = map (map weighting \<circ> tiers) afs"
    using rel by (rule list_all2_map_eq) (simp add: list_all2_map_eq)
  moreover have "affixes_near tot tot_base afs'"
    using rel unfolding affixes_near_def
    by (induction rule: list_all2_induct) (auto simp: list_all2_conv_all_nth in_set_conv_nth)
  ultimately show ?thesis using run by blast
qed

lemma affix_weight_concat: "affix_weight afs = sum_list (concat (map (map weighting \<circ> tiers) afs))"
  by (simp add: affix_weight_def weights_concat comp_def)

lemma affix_weight_view:
  "map (map weighting \<circ> tiers) afs' = map (map weighting \<circ> tiers) afs \<Longrightarrow> affix_weight afs' = affix_weight afs"
  by (simp only: affix_weight_concat)

lemma affix_weight_member:
  assumes "list_all (\<lambda>t. 1 < weighting t) (concat (map tiers afs))"
  shows "0 \<le> affix_weight afs"
    and "w \<in> set (map weighting (concat (map tiers afs))) \<Longrightarrow> 0 < w \<and> w \<le> affix_weight afs"
proof -
  have nn: "\<forall>y \<in> set (map weighting (concat (map tiers afs))). 0 \<le> y"
  proof
    fix y assume "y \<in> set (map weighting (concat (map tiers afs)))"
    then have "1 < y" using assms by (auto simp: list_all_iff)
    then show "0 \<le> y" by simp
  qed
  then show "0 \<le> affix_weight afs" unfolding affix_weight_def by (metis sum_list_nonneg)
  assume w: "w \<in> set (map weighting (concat (map tiers afs)))"
  then have "1 < w" using assms by (auto simp: list_all_iff)
  moreover have "w \<le> affix_weight afs"
    unfolding affix_weight_def using w nn by (rule sum_list_member_le)
  ultimately show "0 < w \<and> w \<le> affix_weight afs" by simp
qed

lemma group_percents_near:
  assumes "list_all (\<lambda>t. 1 < weighting t) (group_tiers g)"
  shows "\<exists>g'. group_percents g = Inr g' \<and>
           map (map weighting \<circ> tiers) (prefixes g') = map (map weighting \<circ> tiers) (prefixes g) \<and>
           map (map weighting \<circ> tiers) (suffixes g') = map (map weighting \<circ> tiers) (suffixes g) \<and>
           group_near g'"
proof -
  define tp where "tp = affix_weight (prefixes g)"
  define ts where "ts = affix_weight (suffixes g)"
  have vp: "list_all (\<lambda>t. 1 < weighting t) (concat (map tiers (prefixes g)))"
    and vs: "list_all (\<lambda>t. 1 < weighting t) (concat (map tiers (suffixes g)))"
    using assms by (simp_all add: group_tiers_def)
  note mp = affix_weight_member [OF vp, folded tp_def] and ms = affix_weight_member [OF vs, folded ts_def]
  obtain ps where ps: "affixes_percents tp (tp + ts) (prefixes g) = Inr ps"
      "map (map weighting \<circ> tiers) ps = map (map weighting \<circ> tiers) (prefixes g)" "affixes_near tp (tp + ts) ps"
    using affixes_percents_near [of "prefixes g" tp "tp + ts"] mp ms by fastforce
  obtain ss where ss: "affixes_percents ts (tp + ts) (suffixes g) = Inr ss"
      "map (map weighting \<circ> tiers) ss = map (map weighting \<circ> tiers) (suffixes g)" "affixes_near ts (tp + ts) ss"
    using affixes_percents_near [of "suffixes g" ts "tp + ts"] mp ms by fastforce
  have "affix_weight ps = tp" "affix_weight ss = ts"
    using affix_weight_view [OF ps(2)] affix_weight_view [OF ss(2)] by (simp_all add: tp_def ts_def)
  then show ?thesis using ps ss
    by (simp add: group_percents_def group_near_def Let_def tp_def[symmetric] ts_def[symmetric])
qed

lemma calculate_percentages_ok:
  assumes "groups_valid bgs"
  shows "\<exists>bgs'. calculate_percentages bgs = Inr bgs' \<and> percentages_near bgs'"
proof -
  have "\<exists>ys. r_map (\<lambda>(k, g). rbind (group_percents g) (\<lambda>g'. Inr (k, g'))) bgs = Inr ys \<and>
          list_all2 (\<lambda>x y. group_near (snd y)) bgs ys"
  proof (rule r_map_ok)
    fix x assume "x \<in> set bgs"
    with assms have "list_all (\<lambda>t. 1 < weighting t) (group_tiers (snd x))"
      by (auto simp: groups_valid_def list_all_iff)
    then obtain g' where "group_percents (snd x) = Inr g'" "group_near g'"
      using group_percents_near by blast
    then show "\<exists>y. (case x of (k, g) \<Rightarrow> rbind (group_percents g) (\<lambda>g'. Inr (k, g'))) = Inr y \<and>
                   group_near (snd y)"
      by (cases x) auto
  qed
  then show ?thesis
    by (fastforce simp: calculate_percentages_def percentages_near_def dest: list_all2_right)
qed

lemma sum_list_err:
  "(\<And>x. x \<in> set xs \<Longrightarrow> \<bar>f x - g x\<bar> \<le> e) \<Longrightarrow>
     \<bar>sum_list (map f xs) - sum_list (map g xs)\<bar> \<le> of_nat (length xs) * (e :: rat)"
proof (induction xs)
  case Nil
  then show ?case by simp
next
  case (Cons x xs)
  have "\<bar>f x - g x\<bar> \<le> e" using Cons.prems by simp
  moreover have "\<bar>sum_list (map f xs) - sum_list (map g xs)\<bar> \<le> of_nat (length xs) * e"
    using Cons by simp
  ultimately show ?case by (simp add: algebra_simps)
qed

lemma sum_list_scaled:
  "sum_list (map (\<lambda>t. c * of_int (h t) / d) xs) = c * of_int (sum_list (map h xs)) / (d :: rat)"
  by (induction xs) (simp_all add: add_divide_distrib algebra_simps)

lemma pct_near_value:
  "pct_near w tot v \<Longrightarrow> \<bar>pct_value v - 100 * of_int w / of_int tot\<bar> \<le> 1 / 20000 + 1 / 2 ^ 44"
  by (auto simp: pct_near_def pct_value_def split: option.splits json.splits pyfloat.splits)

lemma affixes_near_sum:
  assumes near: "affixes_near tot tb afs" and tot: "tot = affix_weight afs" "0 < tot"
  shows "\<bar>sum_list (map (pct_value \<circ> affix_percent) (concat (map tiers afs))) - 100\<bar> \<le>
           of_nat (length (concat (map tiers afs))) * (1 / 20000 + 1 / 2 ^ 44)"
proof -
  let ?ts = "concat (map tiers afs)"
  let ?g = "\<lambda>t. 100 * of_int (weighting t) / of_int tot :: rat"
  have each: "\<bar>(pct_value \<circ> affix_percent) t - ?g t\<bar> \<le> 1 / 20000 + 1 / 2 ^ 44" if tm: "t \<in> set ?ts" for t
  proof -
    obtain a where "a \<in> set afs" "t \<in> set (tiers a)" using tm by auto
    then have "pct_near (weighting t) tot (affix_percent t)" using near by (auto simp: affixes_near_def)
    then show ?thesis by (simp only: comp_apply) (rule pct_near_value)
  qed
  have "sum_list (map ?g ?ts) = 100 * of_int (sum_list (map weighting ?ts)) / of_int tot"
    by (rule sum_list_scaled)
  also have "\<dots> = 100" using tot by (simp add: affix_weight_def)
  finally have "sum_list (map ?g ?ts) = 100" .
  with sum_list_err [of ?ts "pct_value \<circ> affix_percent" ?g, OF each] show ?thesis by simp
qed

lemma affix_weight_pos:
  assumes "list_all (\<lambda>t. 1 < weighting t) (concat (map tiers afs))" and "concat (map tiers afs) \<noteq> []"
  shows "0 < affix_weight afs"
proof -
  obtain t where "t \<in> set (concat (map tiers afs))" using assms(2) by (meson list.set_sel(1))
  then have "weighting t \<in> set (map weighting (concat (map tiers afs)))" by simp
  then show ?thesis using affix_weight_member(2) [OF assms(1)] by fastforce
qed

text \<open>C15. The \<open>affix_percent\<close> values of the tiers of one affix kind of a group sum
  to 100, up to the rounding of each: at most \<open>1/20000 + 2^-44\<close> per tier.\<close>

theorem affix_percents_sum:
  assumes "groups_valid bgs" and "calculate_percentages bgs = Inr bgs'" and "(k, g) \<in> set bgs'"
    and "afs = prefixes g \<or> afs = suffixes g" and "concat (map tiers afs) \<noteq> []"
  shows "\<bar>sum_list (map (pct_value \<circ> affix_percent) (concat (map tiers afs))) - 100\<bar> \<le>
           of_nat (length (concat (map tiers afs))) * (1 / 20000 + 1 / 2 ^ 44)"
proof -
  have "percentages_near bgs'" using calculate_percentages_ok [OF assms(1)] assms(2) by auto
  then have near: "group_near g" using assms(3) by (auto simp: percentages_near_def)
  have "groups_valid bgs'" using calculate_percentages_valid [OF assms(2,1)] by simp
  then have "list_all (\<lambda>t. 1 < weighting t) (group_tiers g)"
    using assms(3) by (auto simp: groups_valid_def list_all_iff)
  then have valid: "list_all (\<lambda>t. 1 < weighting t) (concat (map tiers afs))"
    using assms(4) by (auto simp: group_tiers_def)
  have "affixes_near (affix_weight afs) (affix_weight (prefixes g) + affix_weight (suffixes g)) afs"
    using near assms(4) by (auto simp: group_near_def Let_def)
  from affixes_near_sum [OF this refl affix_weight_pos [OF valid assms(5)]] show ?thesis .
qed

text \<open>C13. On groups whose tiers all weigh more than 1 (what the modifier stage
  leaves, C1), \<open>calculate_percentages\<close> returns without raising, keeps every
  weighting, and gives every tier an \<open>affix_percent\<close> and a \<open>weight_percent\<close> that
  are floats within \<open>1/20000 + 2^-44\<close> of \<open>100 w / total\<close>, the total being the sum
  of the weightings of the tier's own affix kind, respectively of both kinds.\<close>

theorem calculate_percentages_near:
  assumes "groups_valid bgs"
  shows "\<exists>bgs'. calculate_percentages bgs = Inr bgs' \<and> weight_view bgs' = weight_view bgs \<and> percentages_near bgs'"
  using calculate_percentages_ok [OF assms] calculate_percentages_weights by blast

theorem calculate_percentages_near_witness:
  "\<exists>bgs'. calculate_percentages
     [(''1'', (new_group (JStr ''h''))\<lparr>prefixes := [\<lparr>description = JStr ''d'', mod_groups = [],
       tiers = [\<lparr>tier_label = ''T2'', ilvl = 1, weighting = 10, tier_values = [], float_flag = None,
                 affix_percent = None, weight_percent = None\<rparr>,
                \<lparr>tier_label = ''T1'', ilvl = 1, weighting = 5, tier_values = [], float_flag = None,
                 affix_percent = None, weight_percent = None\<rparr>]\<rparr>]\<rparr>)]
     = Inr bgs' \<and> weight_view bgs' = weight_view
     [(''1'', (new_group (JStr ''h''))\<lparr>prefixes := [\<lparr>description = JStr ''d'', mod_groups = [],
       tiers = [\<lparr>tier_label = ''T2'', ilvl = 1, weighting = 10, tier_values = [], float_flag = None,
                 affix_percent = None, weight_percent = None\<rparr>,
                \<lparr>tier_label = ''T1'', ilvl = 1, weighting = 5, tier_values = [], float_flag = None,
                 affix_percent = None, weight_percent = None\<rparr>]\<rparr>]\<rparr>)]
     \<and> percentages_near bgs'"
proof -
  have "groups_valid
     [(''1'', (new_group (JStr ''h''))\<lparr>prefixes := [\<lparr>description = JStr ''d'', mod_groups = [],
       tiers = [\<lparr>tier_label = ''T2'', ilvl = 1, weighting = 10, tier_values = [], float_flag = None,
                 affix_percent = None, weight_percent = None\<rparr>,
                \<lparr>tier_label = ''T1'', ilvl = 1, weighting = 5, tier_values = [], float_flag = None,
                 affix_percent = None, weight_percent = None\<rparr>]\<rparr>]\<rparr>)]"
    by (simp add: groups_valid_def group_tiers_def new_group_def)
  from calculate_percentages_near [OF this] show ?thesis .
qed

end
