(* ===== verification/Pipeline.thy ===== *)
theory Pipeline
  imports Fetch Percentages
begin

text \<open>
  \<open>consolidate_data\<close> (\<open>scrapper.py\<close> lines 195--210) and the module-level run
  (lines 212--215).  The two documents are fetched in order (data first), the five
  stages run on the shared dictionary, and the result is the document
  \<open>{"base_groups": [...]}\<close> that \<open>json.dump\<close> writes.  \<open>consolidate_data\<close> returns
  that document as a \<open>json\<close> value; \<open>consolidate_data_run\<close> adds the effects on a
  \<open>world\<close> of files and console lines: the file is opened only after the document
  is complete, written with the document, and the message printed.  The text layout
  of \<open>json.dump\<close> (indentation, number formatting) is not modelled.  Dictionary keys appear in the order in which the script inserts
  them; a key the script never assigned is absent.
\<close>

definition opt_field :: "string \<Rightarrow> json option \<Rightarrow> (string \<times> json) list" where
  "opt_field k v = (case v of Some x \<Rightarrow> [(k, x)] | None \<Rightarrow> [])"

definition tier_json :: "tier \<Rightarrow> json" where
  "tier_json t = JObj ([(''tier'', JStr (tier_label t)), (''ilvl'', JInt (ilvl t)),
       (''weighting'', JInt (weighting t)),
       (''values'', JList (map (\<lambda>(mn, mx). JObj [(''Min'', mn), (''Max'', mx)]) (tier_values t)))]
     @ opt_field ''float'' (map_option JBool (float_flag t))
     @ opt_field ''affix_percent'' (affix_percent t)
     @ opt_field ''weight_percent'' (weight_percent t))"

definition affix_json :: "affix \<Rightarrow> json" where
  "affix_json a = JObj [(''description'', description a),
       (''mod_groups'', JList (map JStr (mod_groups a))),
       (''tiers'', JList (map tier_json (tiers a)))]"

definition group_json :: "group \<Rightarrow> json" where
  "group_json g = JObj ([(''base_group'', base_group g), (''items'', JList (items g)),
       (''prefixes'', JList (map affix_json (prefixes g))),
       (''suffixes'', JList (map affix_json (suffixes g)))]
     @ opt_field ''base_type'' (base_type g) @ opt_field ''bgroup'' (bgroup g))"

definition consolidated_json :: "groups \<Rightarrow> json" where
  "consolidated_json bgs = JObj [(''base_groups'', JList (map (group_json \<circ> snd) bgs))]"

text \<open>The five stages on the fetched documents.\<close>

definition build_groups :: "json_parser \<Rightarrow> json \<Rightarrow> json \<Rightarrow> groups result" where
  "build_groups loads poec_data poec_lang =
     rbind (parse_base_groups poec_lang) (\<lambda>bgs0.
     rbind (parse_items poec_data poec_lang bgs0) (\<lambda>bgs1.
     rbind (parse_bases_and_groups poec_data poec_lang bgs1) (\<lambda>bgs2.
     rbind (parse_modifiers_and_tiers loads poec_data poec_lang bgs2) (\<lambda>bgs3.
       calculate_percentages bgs3))))"

definition consolidate_data ::
  "json_parser \<Rightarrow> string \<Rightarrow> response \<Rightarrow> string \<Rightarrow> response \<Rightarrow> json result" where
  "consolidate_data loads poec_data_url data_resp poec_lang_url lang_resp =
     rbind (fetch_json loads poec_data_url data_resp) (\<lambda>poec_data.
     rbind (fetch_json loads poec_lang_url lang_resp) (\<lambda>poec_lang.
     rbind (build_groups loads poec_data poec_lang) (\<lambda>bgs.
       Inr (consolidated_json bgs))))"

definition poec_data_url :: string where
  "poec_data_url = ''https://www.craftofexile.com/json/poe2/main/poec_data.json?v=1736871389''"

definition poec_lang_url :: string where
  "poec_lang_url = ''https://www.craftofexile.com/json/poe2/lang/poec_lang.us.json?v=1736871389''"

subsection \<open>The output file and the console\<close>

text \<open>The part of the machine the script changes: the files it may write (each
  holding the document \<open>json.dump\<close> serialised, as a value), the paths whose
  \<open>open(path, "w")\<close> raises (a missing directory, no permission), and the lines
  printed.\<close>

record world =
  files :: "string \<rightharpoonup> json"
  denied :: "string list"
  stdout :: "string list"

text \<open>Lines 207--210: \<open>open\<close> truncates or creates the file, \<open>json.dump\<close> writes the
  document, \<open>print\<close> reports it.\<close>

definition write_output :: "string \<Rightarrow> json \<Rightarrow> world \<Rightarrow> unit result \<times> world" where
  "write_output path doc w =
     (if path \<in> set (denied w) then (Inl OSError, w)
      else (Inr (), w\<lparr>files := (files w)(path \<mapsto> doc),
                      stdout := stdout w @ [''Consolidated JSON saved to '' @ path]\<rparr>))"

text \<open>\<open>consolidate_data(poec_data_url, poec_lang_url, output_path)\<close> (lines 195--210):
  the document is computed completely before the file is opened, so an exception
  of any stage leaves the machine as it was.\<close>

definition consolidate_data_run ::
  "json_parser \<Rightarrow> string \<Rightarrow> response \<Rightarrow> string \<Rightarrow> response \<Rightarrow> string \<Rightarrow> world \<Rightarrow> unit result \<times> world" where
  "consolidate_data_run loads data_url data_resp lang_url lang_resp output_path w =
     (case consolidate_data loads data_url data_resp lang_url lang_resp of
        Inl e \<Rightarrow> (Inl e, w)
      | Inr doc \<Rightarrow> write_output output_path doc w)"

text \<open>Lines 212--215, with the two responses the server sends.\<close>

definition run_script :: "json_parser \<Rightarrow> response \<Rightarrow> response \<Rightarrow> world \<Rightarrow> unit result \<times> world" where
  "run_script loads data_resp lang_resp w =
     consolidate_data_run loads poec_data_url data_resp poec_lang_url lang_resp ''poe.json'' w"

subsection \<open>The schema of the output document\<close>

text \<open>What a reader of \<open>poe.json\<close> may rely on: a single key \<open>base_groups\<close> holding
  group objects whose keys come in the script's order (\<open>base_type\<close> and \<open>bgroup\<close>
  optional), affix objects with exactly \<open>description\<close>, \<open>mod_groups\<close>, \<open>tiers\<close>, and
  tier objects with \<open>tier\<close>, \<open>ilvl\<close>, \<open>weighting\<close> (an int above 1), \<open>values\<close>, an
  optional \<open>float\<close>, and the two percentages as finite floats.\<close>

definition is_fin_float :: "json option \<Rightarrow> bool" where
  "is_fin_float v = (case v of Some (JFloat (Fin _)) \<Rightarrow> True | _ \<Rightarrow> False)"

definition tier_doc_ok :: "json \<Rightarrow> bool" where
  "tier_doc_ok v = (case v of
      JObj kvs \<Rightarrow> take 4 (keys kvs) = [''tier'', ''ilvl'', ''weighting'', ''values''] \<and>
        drop 4 (keys kvs) \<in> {[''affix_percent'', ''weight_percent''], [''float'', ''affix_percent'', ''weight_percent'']} \<and>
        (case map_of kvs ''weighting'' of Some (JInt w) \<Rightarrow> 1 < w | _ \<Rightarrow> False) \<and>
        is_fin_float (map_of kvs ''affix_percent'') \<and> is_fin_float (map_of kvs ''weight_percent'')
    | _ \<Rightarrow> False)"

definition affix_doc_ok :: "json \<Rightarrow> bool" where
  "affix_doc_ok v = (case v of
      JObj kvs \<Rightarrow> keys kvs = [''description'', ''mod_groups'', ''tiers''] \<and>
        (case map_of kvs ''tiers'' of Some (JList ts) \<Rightarrow> list_all tier_doc_ok ts | _ \<Rightarrow> False)
    | _ \<Rightarrow> False)"

definition group_doc_ok :: "json \<Rightarrow> bool" where
  "group_doc_ok v = (case v of
      JObj kvs \<Rightarrow> take 4 (keys kvs) = [''base_group'', ''items'', ''prefixes'', ''suffixes''] \<and>
        drop 4 (keys kvs) \<in> {[], [''base_type''], [''bgroup''], [''base_type'', ''bgroup'']} \<and>
        (case map_of kvs ''prefixes'' of Some (JList as) \<Rightarrow> list_all affix_doc_ok as | _ \<Rightarrow> False) \<and>
        (case map_of kvs ''suffixes'' of Some (JList as) \<Rightarrow> list_all affix_doc_ok as | _ \<Rightarrow> False)
    | _ \<Rightarrow> False)"

definition doc_ok :: "json \<Rightarrow> bool" where
  "doc_ok v = (case v of
      JObj [(k, JList gs)] \<Rightarrow> k = ''base_groups'' \<and> list_all group_doc_ok gs
    | _ \<Rightarrow> False)"

subsection \<open>Lemmas\<close>

text \<open>The input of the last stage of a successful run: valid groups with the keys
  \<open>parse_base_groups\<close> created.\<close>

lemma build_groups_last_stage:
  assumes "build_groups loads poec_data poec_lang = Inr bgs"
  obtains bgs0 bgs3 where "parse_base_groups poec_lang = Inr bgs0" and "distinct (keys bgs0)"
    and "groups_valid bgs3" and "keys bgs3 = keys bgs0" and "calculate_percentages bgs3 = Inr bgs"
proof -
  from assms obtain bgs0 bgs1 bgs2 bgs3 where
    s0: "parse_base_groups poec_lang = Inr bgs0" and
    s1: "parse_items poec_data poec_lang bgs0 = Inr bgs1" and
    s2: "parse_bases_and_groups poec_data poec_lang bgs1 = Inr bgs2" and
    s3: "parse_modifiers_and_tiers loads poec_data poec_lang bgs2 = Inr bgs3" and
    s4: "calculate_percentages bgs3 = Inr bgs"
    by (auto simp: build_groups_def)
  from s0 have v0: "groups_valid bgs0 \<and> distinct (keys bgs0)" by (rule parse_base_groups_fresh)
  with s1 have v1: "groups_valid bgs1 \<and> keys bgs1 = keys bgs0" by (simp add: parse_items_keys)
  with s2 have v2: "groups_valid bgs2 \<and> keys bgs2 = keys bgs0"
    by (simp add: parse_bases_and_groups_keys)
  with s3 have "groups_valid bgs3 \<and> keys bgs3 = keys bgs0"
    using parse_modifiers_and_tiers_valid by fastforce
  with s0 s4 v0 that show ?thesis by blast
qed

text \<open>What a successful run of the five stages keeps: every tier has a weighting above
  1, the keys are those created by \<open>parse_base_groups\<close>, each once.\<close>

lemma build_groups_stages:
  assumes "build_groups loads poec_data poec_lang = Inr bgs"
  obtains bgs0 where "parse_base_groups poec_lang = Inr bgs0"
    and "groups_valid bgs" and "keys bgs = keys bgs0" and "distinct (keys bgs0)"
proof -
  from assms obtain bgs0 bgs3 where "parse_base_groups poec_lang = Inr bgs0" "distinct (keys bgs0)"
      "groups_valid bgs3" "keys bgs3 = keys bgs0" "calculate_percentages bgs3 = Inr bgs"
    by (rule build_groups_last_stage)
  with that show ?thesis using calculate_percentages_valid by fastforce
qed

lemma build_groups_near:
  assumes "build_groups loads poec_data poec_lang = Inr bgs"
  shows "percentages_near bgs"
proof -
  from assms obtain bgs0 bgs3 where "groups_valid bgs3" "calculate_percentages bgs3 = Inr bgs"
    by (rule build_groups_last_stage)
  with calculate_percentages_ok show ?thesis by fastforce
qed

lemma pct_near_fin: "pct_near w tot v \<Longrightarrow> is_fin_float v"
  by (auto simp: pct_near_def is_fin_float_def split: option.splits json.splits pyfloat.splits)

lemma affixes_near_fin:
  "affixes_near tot tb afs \<Longrightarrow> a \<in> set afs \<Longrightarrow> t \<in> set (tiers a) \<Longrightarrow>
     is_fin_float (affix_percent t) \<and> is_fin_float (weight_percent t)"
  by (auto simp: affixes_near_def intro: pct_near_fin)

lemma tier_json_ok:
  "1 < weighting t \<Longrightarrow> is_fin_float (affix_percent t) \<Longrightarrow> is_fin_float (weight_percent t) \<Longrightarrow>
     tier_doc_ok (tier_json t)"
  by (auto simp: tier_doc_ok_def tier_json_def opt_field_def is_fin_float_def split: option.splits json.splits pyfloat.splits)

lemma affix_json_ok:
  "(\<forall>t \<in> set (tiers a). 1 < weighting t \<and> is_fin_float (affix_percent t) \<and> is_fin_float (weight_percent t)) \<Longrightarrow>
     affix_doc_ok (affix_json a)"
  by (auto simp: affix_doc_ok_def affix_json_def list_all_iff intro: tier_json_ok)

lemma group_json_ok:
  assumes "list_all (\<lambda>t. 1 < weighting t) (group_tiers g)" and "group_near g"
  shows "group_doc_ok (group_json g)"
proof -
  have "\<forall>a \<in> set (prefixes g @ suffixes g). \<forall>t \<in> set (tiers a).
          1 < weighting t \<and> is_fin_float (affix_percent t) \<and> is_fin_float (weight_percent t)"
  proof (intro ballI conjI)
    fix a t assume a: "a \<in> set (prefixes g @ suffixes g)" and t: "t \<in> set (tiers a)"
    then show "1 < weighting t" using assms(1) by (auto simp: group_tiers_def list_all_iff)
    from a consider "a \<in> set (prefixes g)" | "a \<in> set (suffixes g)" by auto
    then have "is_fin_float (affix_percent t) \<and> is_fin_float (weight_percent t)"
      using assms(2) t by cases (auto simp: group_near_def Let_def dest: affixes_near_fin)
    then show "is_fin_float (affix_percent t)" "is_fin_float (weight_percent t)" by auto
  qed
  then show ?thesis
    by (auto simp: group_doc_ok_def group_json_def opt_field_def list_all_iff intro!: affix_json_ok
             split: option.splits)
qed

end
