(* ===== verification/Spec2Isabelle.thy ===== *)
theory Spec2Isabelle
  imports Pipeline
begin

text \<open>
  \<^bold>\<open>CraftAssistant: a verified model of \<open>src/CraftAssistant/data/scrapper.py\<close>.\<close>

  The program is one Python script.  It fetches two JSON documents (game data and its
  localisation), builds one dictionary \<open>base_groups\<close> from base identifiers to group
  dictionaries, enriches it in four further stages and writes it out.  The library
  models every function of the script and the Python semantics they rely on:

  \<^item> \<open>Prelude\<close>: exceptions as values (\<open>'a result = pyerr + 'a\<close>), loops that may
    raise (\<open>r_foldl\<close>, \<open>r_map\<close>, \<open>r_find\<close>), Python dictionaries as ordered
    association lists.
  \<^item> \<open>PyValue\<close>: the parsed JSON values (\<open>json\<close>), Python's \<open>==\<close>, truthiness,
    \<open>d[k]\<close>, \<open>d.get\<close>, \<open>in\<close>, \<open>items()\<close>, iteration, the string methods the
    script calls, \<open>int(str)\<close> and \<open>str(int)\<close>.
  \<^item> \<open>PyFloat\<close>: IEEE binary64 arithmetic as exact rationals rounded to nearest,
    ties to even, with overflow to infinity; \<open>float()\<close>, \<open>int()\<close>, \<open>*\<close>, int true
    division, \<open>round(x, n)\<close>.
  \<^item> \<open>Rounding\<close>: the analysis of the rounding \<open>fl_round\<close> (error bounds, overflow,
    exact integers) and its refinement of IEEE round-to-nearest.
  \<^item> \<open>BaseGroups\<close>: the records \<open>tier\<close>, \<open>affix\<close>, \<open>group\<close> of the output, the
    rename table \<open>custom_base_groups\<close> (lines 4--33), \<open>parse_base_groups\<close>
    (54--63), \<open>parse_items\<close> (65--69), \<open>parse_bases_and_groups\<close> (71--76).
  \<^item> \<open>Modifiers\<close>: \<open>parse_modifiers_and_tiers\<close> (78--157) with its two passes over a
    tier table, and \<open>parse_value\<close> (160--161).
  \<^item> \<open>Percentages\<close>: \<open>calculate_percentages\<close> (171--193).
  \<^item> \<open>Fetch\<close>: \<open>fetch_json\<close> (34--52) on the response the server sent.
  \<^item> \<open>Pipeline\<close>: \<open>consolidate_data\<close> (195--210): the five stages, the output
    document, and its effects on a \<open>world\<close> of files and printed lines
    (\<open>consolidate_data_run\<close>); the run of lines 212--215 (\<open>run_script\<close>).

  Every stage takes the dictionary and returns the new one, or the exception that
  ends the run.  The documents are \<open>json\<close> values, so every \<open>KeyError\<close>,
  \<open>TypeError\<close>, \<open>AttributeError\<close> and \<open>IndexError\<close> that a malformed document
  causes is a branch of the model; an \<open>open\<close> that fails raises \<open>OSError\<close>.

  Not modelled: the HTTP request itself (the model receives the response; the
  request headers only matter to the server); \<open>json.loads\<close>, a library function the
  script only calls, is a parameter (\<open>json_parser\<close>); the text layout \<open>json.dump\<close>
  gives the document (indentation, number formatting), the file holding the
  document as a value; the sign of a floating-point zero; code points above 255
  in strings.

  What is proved (the claim numbers C1--C22 are those of the text blocks):

  \<^item> Whole pipeline (this theory): no tier of weighting at most 1 reaches the output
    (C1); the groups are exactly the bases of \<open>poec_lang["base"]\<close>, each once (C2);
    a record whose base id has no group is skipped by every stage (C10); a failing
    HTTP status ends the run with the script's exception (C11); an exception
    leaves files and console untouched (C16); a successful run writes exactly
    \<open>poe.json\<close> and prints once (C17); the document has the schema \<open>doc_ok\<close>
    (C19).
  \<^item> \<open>BaseGroups\<close>: \<open>parse_base_groups\<close> makes one fresh group per base, named
    through the rename table (C9); \<open>parse_items\<close> refines the per-group
    specification \<open>items_spec\<close> through the abstraction \<open>items_view\<close> (C18), and
    \<open>parse_bases_and_groups\<close> refines \<open>bases_spec\<close>, the last record naming a base
    winning (C20).  Both rest on \<open>r_foldl_refine\<close> of the prelude: a loop whose
    every step refines the specification of its row refines that of all rows.
  \<^item> \<open>Modifiers\<close>: tier labels are \<open>T\<close> followed by \<open>len - index\<close> (C3), and two
    equal tiers of one table share a label (C21); a malformed \<open>nvalues\<close> is fatal
    (C4); the float verdict is the one on the last tier (C5); the \<open>"float"\<close> key
    comes from the last value (C6); the tier-table loop is equivalent to a lookup
    (C7); one modifier adds at most one affix (C8); int values are scaled exactly
    (C14) and a nonnegative float \<open>x\<close> is stored as the truncation of the double
    nearest to \<open>60 x\<close>, so \<open>2.05\<close> gives 122 (C22).
  \<^item> \<open>Percentages\<close>: on valid groups the stage never raises and every percentage
    is within \<open>1/20000 + 2^-44\<close> of its exact value (C13); the percentages of one
    affix kind sum to 100 within that error per tier (C15).  This rests on the
    error analysis of \<open>Rounding\<close>.
  \<^item> \<open>Fetch\<close>: \<open>lstrip("poecd=")\<close> and \<open>strip()\<close> unwrap the data document when
    its payload does not start with one of the characters \<open>p o e c d =\<close> and has
    no white space at either end (C12).

  The model of the Python primitives is checked on its own, outside the claims:
  \<open>int(str(i)) = i\<close> for every int (\<open>PyValue.parse_int_str_py_str_int\<close>);
  \<open>fl_round\<close> returns a finite double no farther from the exact value than any
  other (\<open>Rounding.fl_round_refines_nearest\<close>); the specification's example runs
  to labels \<open>T3\<close>, \<open>T2\<close> and percentages 66.6667, 33.3333 (\<open>spec_example_run\<close>);
  concrete runs show that \<open>lstrip\<close> strips a character set, and that floats before
  an int tier are written unscaled.

  Equality of parsed values follows CPython: \<open>list.index\<close> and the element-wise
  comparison of lists and dicts test identity before \<open>==\<close>, and \<open>json.loads\<close>
  returns the one object \<open>json.decoder.NaN\<close> for every \<open>NaN\<close>, so inside
  containers and in \<open>list.index\<close> a \<open>NaN\<close> equals itself (\<open>py_eq_id\<close>), while a
  top-level \<open>==\<close> between two \<open>NaN\<close>s is false (\<open>py_eq\<close>).

  No loop of the script can run forever (every loop iterates over a finite list), so
  every function of the model is total, defined by structural recursion or by
  \<open>fun\<close> with a proved termination order, and no fuel is needed.  The bounds in the
  theorems are those of the data format: \<open>2^47\<close> keeps \<open>60 v\<close> below \<open>2^53\<close>, where
  every integer is a double; weights are positive, so every total is positive and
  no percentage divides by zero.
\<close>

section \<open>Example documents\<close>

text \<open>The end-to-end example of the specification: one base, one item, one prefix
  modifier whose tier table has weightings 10, 5 and 1.\<close>

definition ex_tier :: "int \<Rightarrow> json" where
  "ex_tier w = JObj [(''ilvl'', JStr ''1''), (''weighting'', JInt w), (''nvalues'', JStr ''NV'')]"

definition ex_lang :: json where
  "ex_lang = JObj [(''base'', JObj [(''1'', JStr ''Helmet (STR)'')]),
     (''bitem'', JObj [(''10'', JStr ''Iron Hat'')]), (''bgroup'', JObj [(''5'', JStr ''Armour'')])]"

definition ex_data :: json where
  "ex_data = JObj [
     (''bitems'', JObj [(''seq'', JList [JObj [(''id_base'', JStr ''1''), (''id_bitem'', JStr ''10'')]])]),
     (''bases'', JObj [(''seq'', JList [JObj [(''id_base'', JStr ''1''), (''base_type'', JStr ''helmet''),
                                             (''id_bgroup'', JStr ''5'')]])]),
     (''basemods'', JObj [(''1'', JList [JStr ''100''])]),
     (''modifiers'', JObj [(''seq'', JList [JObj [(''id_modifier'', JStr ''100''),
        (''name_modifier'', JStr ''Life''), (''affix'', JStr ''prefix''), (''modgroups'', JStr ''MG'')]])]),
     (''tiers'', JObj [(''100'', JObj [(''1'', JList [ex_tier 10, ex_tier 5, ex_tier 1])])])]"

text \<open>The parser on the two texts the example documents contain.\<close>

definition ex_loads :: json_parser where
  "ex_loads s = (if s = ''MG'' then Some (JList [JStr '' LIFE ''])
                 else if s = ''NV'' then Some (JList [JList [JInt 1, JInt 2]]) else None)"

text \<open>A parser for a whole run: the two response texts \<open>D\<close> and \<open>L\<close> are the example
  documents, and a machine with no file and nothing printed.\<close>

definition ex_run_loads :: json_parser where
  "ex_run_loads s = (if s = ''D'' then Some ex_data else if s = ''L'' then Some ex_lang else ex_loads s)"

definition ex_world :: world where
  "ex_world = \<lparr>files = Map.empty, denied = [], stdout = []\<rparr>"

text \<open>A group with one prefix of two tiers (weightings 10 and 5), with given values
  of both percentage fields.\<close>

definition ex_pct_tier :: "string \<Rightarrow> int \<Rightarrow> json option \<Rightarrow> tier" where
  "ex_pct_tier l w p = \<lparr>tier_label = l, ilvl = 1, weighting = w, tier_values = [], float_flag = None,
                        affix_percent = p, weight_percent = p\<rparr>"

definition ex_pct_group :: "json option \<Rightarrow> json option \<Rightarrow> group" where
  "ex_pct_group p1 p2 = (new_group (JStr ''h''))\<lparr>prefixes :=
     [\<lparr>description = JStr ''d'', mod_groups = [], tiers = [ex_pct_tier ''T2'' 10 p1, ex_pct_tier ''T1'' 5 p2]\<rparr>]\<rparr>"

text \<open>Two base rows naming the same base with different base types.\<close>

definition ex_bases_data :: json where
  "ex_bases_data = JObj [(''bases'', JObj [(''seq'', JList [
     JObj [(''id_base'', JStr ''1''), (''base_type'', JStr ''helmet''), (''id_bgroup'', JStr ''5'')],
     JObj [(''id_base'', JStr ''1''), (''base_type'', JStr ''gloves''), (''id_bgroup'', JStr ''5'')]])])]"

section \<open>Properties of the whole pipeline\<close>

text \<open>C1. No tier with a weighting of at most 1 reaches the output: every tier of
  every group that the five stages produce has a weighting above 1.\<close>

theorem build_groups_weighting:
  assumes "build_groups loads poec_data poec_lang = Inr bgs"
  shows "\<forall>(k, g) \<in> set bgs. \<forall>t \<in> set (group_tiers g). 1 < weighting t"
proof -
  from assms obtain bgs0 where "groups_valid bgs"
    by (rule build_groups_stages)
  then show ?thesis by (auto simp: groups_valid_def list_all_iff)
qed

theorem build_groups_weighting_witness:
  "\<exists>bgs. build_groups ex_loads ex_data ex_lang = Inr bgs \<and>
     (\<forall>(k, g) \<in> set bgs. \<forall>t \<in> set (group_tiers g). 1 < weighting t)"
proof -
  have "\<not> isl (build_groups ex_loads ex_data ex_lang)"
    by code_simp
  then obtain bgs where run: "build_groups ex_loads ex_data ex_lang = Inr bgs"
    by (cases "build_groups ex_loads ex_data ex_lang") auto
  show ?thesis using run build_groups_weighting [OF run] by blast
qed

text \<open>C2. The groups of the output are exactly the bases of \<open>poec_lang["base"]\<close>,
  each once, in particular no group for an identifier absent from that table.\<close>

theorem build_groups_keys:
  assumes "build_groups loads poec_data poec_lang = Inr bgs"
    and "py_get poec_lang ''base'' = Inr (JObj kvs)"
  shows "set (keys bgs) = set (keys kvs) \<and> distinct (keys bgs)"
proof -
  from assms(1) obtain bgs0 where s0: "parse_base_groups poec_lang = Inr bgs0"
    and k: "keys bgs = keys bgs0" and d: "distinct (keys bgs0)"
    by (rule build_groups_stages)
  from s0 assms(2) have "set (keys bgs0) = set (keys kvs)" by (rule parse_base_groups_keys)
  with k d show ?thesis by simp
qed

theorem build_groups_keys_witness:
  "\<exists>bgs. build_groups ex_loads ex_data ex_lang = Inr bgs \<and>
     py_get ex_lang ''base'' = Inr (JObj [(''1'', JStr ''Helmet (STR)'')]) \<and>
     set (keys bgs) = {''1''} \<and> distinct (keys bgs)"
proof -
  have base: "py_get ex_lang ''base'' = Inr (JObj [(''1'', JStr ''Helmet (STR)'')])"
    by (simp add: ex_lang_def)
  have "\<not> isl (build_groups ex_loads ex_data ex_lang)"
    by code_simp
  then obtain bgs where run: "build_groups ex_loads ex_data ex_lang = Inr bgs"
    by (cases "build_groups ex_loads ex_data ex_lang") auto
  show ?thesis using run base build_groups_keys [OF run base] by auto
qed

text \<open>Witness of the frame property of \<open>parse_modifier\<close>: the example's modifier, processed for base \<open>1\<close>.\<close>

theorem parse_modifier_frame_witness:
  "\<exists>g'. parse_modifier ex_loads ex_data ''1'' (new_group (JStr ''h'')) (JStr ''100'') = Inr g' \<and>
     (g' = new_group (JStr ''h'') \<or>
      (\<exists>ms m a. py_seq ex_data ''modifiers'' ''seq'' = Inr ms \<and> m \<in> set ms \<and>
         py_get m ''affix'' = Inr (JStr ''prefix'') \<and>
         g' = (new_group (JStr ''h''))\<lparr>prefixes := prefixes (new_group (JStr ''h'')) @ [a]\<rparr>) \<or>
      (\<exists>ms m a. py_seq ex_data ''modifiers'' ''seq'' = Inr ms \<and> m \<in> set ms \<and>
         py_get m ''affix'' = Inr (JStr ''suffix'') \<and>
         g' = (new_group (JStr ''h''))\<lparr>suffixes := suffixes (new_group (JStr ''h'')) @ [a]\<rparr>))"
proof -
  have "\<not> isl (parse_modifier ex_loads ex_data ''1'' (new_group (JStr ''h'')) (JStr ''100''))"
    by code_simp
  then obtain g' where run: "parse_modifier ex_loads ex_data ''1'' (new_group (JStr ''h'')) (JStr ''100'') = Inr g'"
    by (cases "parse_modifier ex_loads ex_data ''1'' (new_group (JStr ''h'')) (JStr ''100'')") auto
  show ?thesis using run Modifiers.parse_modifier_frame [OF run] by blast
qed

text \<open>Witness of the base-group naming property, on the specification's example: \<open>"Helmet (STR)"\<close> becomes
  \<open>"helmet_str_armour"\<close>.\<close>

theorem parse_base_groups_names_witness:
  "\<exists>bgs. parse_base_groups ex_lang = Inr bgs \<and>
     map_of bgs ''1'' = Some (new_group (JStr ''helmet_str_armour''))"
proof -
  have b: "py_get ex_lang ''base'' = Inr (JObj [(''1'', JStr ''Helmet (STR)'')])" by code_simp
  have d: "distinct (keys [(''1'', JStr ''Helmet (STR)'')])" by simp
  have s: "\<forall>(k, v) \<in> set [(''1'', JStr ''Helmet (STR)'')]. \<exists>s. v = JStr s" by simp
  from BaseGroups.parse_base_groups_names [OF b d s] obtain bgs where
    run: "parse_base_groups ex_lang = Inr bgs" and
    names: "\<forall>k s. map_of [(''1'', JStr ''Helmet (STR)'')] k = Some (JStr s) \<longrightarrow>
              map_of bgs k = Some (new_group (JStr (dict_get custom_base_groups s s)))"
    by blast
  have "dict_get custom_base_groups ''Helmet (STR)'' ''Helmet (STR)'' = ''helmet_str_armour''"
    by code_simp
  with names run show ?thesis by auto
qed

text \<open>C10. A record whose base id has no group is skipped by the item stage, the base
  stage and the modifier stage alike, and none of them raises on it.\<close>

theorem absent_base_id_skipped:
  assumes "s \<notin> set (keys bgs)"
  shows "(py_get item ''id_base'' = Inr (JStr s) \<longrightarrow> parse_item poec_lang bgs item = Inr bgs) \<and>
         (py_get base ''id_base'' = Inr (JStr s) \<longrightarrow> parse_base poec_lang bgs base = Inr bgs) \<and>
         parse_basemod loads poec_data bgs (s, mids) = Inr bgs"
proof -
  have none: "map_of bgs s = None" using assms by (simp add: map_of_eq_None_iff)
  with assms show ?thesis
    by (auto simp: parse_item_def parse_base_def parse_basemod_def py_in_key_def)
qed

theorem absent_base_id_skipped_witness:
  "parse_item ex_lang [(''1'', new_group (JStr ''h''))] (JObj [(''id_base'', JStr ''2'')]) =
     Inr [(''1'', new_group (JStr ''h''))] \<and>
   parse_base ex_lang [(''1'', new_group (JStr ''h''))] (JObj [(''id_base'', JStr ''2'')]) =
     Inr [(''1'', new_group (JStr ''h''))] \<and>
   parse_basemod ex_loads ex_data [(''1'', new_group (JStr ''h''))] (''2'', JList [JStr ''100'']) =
     Inr [(''1'', new_group (JStr ''h''))]"
proof -
  have "''2'' \<notin> set (keys [(''1'', new_group (JStr ''h''))])" by simp
  note sk = absent_base_id_skipped [OF this, of "JObj [(''id_base'', JStr ''2'')]" ex_lang
              "JObj [(''id_base'', JStr ''2'')]" ex_loads ex_data "JList [JStr ''100'']"]
  have "py_get (JObj [(''id_base'', JStr ''2'')]) ''id_base'' = Inr (JStr ''2'')" by simp
  with sk show ?thesis by simp
qed

text \<open>C11. A response with a failing status code (400 to 599) ends the run with the
  exception of line 43, naming the URL and the code; the data document is fetched
  first, so its failure is the one reported.\<close>

theorem consolidate_data_fetch_error:
  assumes "\<not> response_ok data_resp"
  shows "consolidate_data loads data_url data_resp lang_url lang_resp =
           Inl (FetchError data_url (status_code data_resp))"
  using assms by (simp add: consolidate_data_def fetch_json_not_ok)

theorem consolidate_data_fetch_error_witness:
  "consolidate_data ex_loads poec_data_url \<lparr>status_code = 404, resp_text = []\<rparr>
     poec_lang_url \<lparr>status_code = 500, resp_text = []\<rparr> = Inl (FetchError poec_data_url 404)"
proof -
  have "\<not> response_ok \<lparr>status_code = 404, resp_text = []\<rparr>" by (simp add: response_ok_def)
  from consolidate_data_fetch_error [OF this] show ?thesis by simp
qed

text \<open>The end-to-end example of the specification: the tier of weighting 1 is
  dropped, the two others are labelled \<open>T3\<close> and \<open>T2\<close> (the dropped tier keeps
  its number) and get the doubles nearest to 66.6667 and 33.3333 as
  \<open>affix_percent\<close>.\<close>

theorem spec_example_run:
  "(case build_groups ex_loads ex_data ex_lang of
      Inr [(k, g)] \<Rightarrow> (k, base_group g, items g, map tier_label (group_tiers g),
                         map weighting (group_tiers g), map affix_percent (group_tiers g))
    | _ \<Rightarrow> undefined) =
   (''1'', JStr ''helmet_str_armour'', [JStr ''Iron Hat''], [''T3'', ''T2''], [10, 5],
    [Some (JFloat (Fin (4691251957469073 / 70368744177664))),
     Some (JFloat (Fin (4691244920594655 / 140737488355328)))]) \<and>
   fl_round (666667 / 10000) = Some (4691251957469073 / 70368744177664) \<and>
   fl_round (333333 / 10000) = Some (4691244920594655 / 140737488355328)"
  by code_simp

text \<open>C16. When any step of \<open>consolidate_data\<close> raises (a fetch, a stage, or the
  \<open>open\<close> of the output file), the machine is left as it was: no file is created
  or truncated and nothing is printed.\<close>

theorem consolidate_data_run_error_no_effect:
  assumes "isl (fst (consolidate_data_run loads data_url data_resp lang_url lang_resp output_path w))"
  shows "snd (consolidate_data_run loads data_url data_resp lang_url lang_resp output_path w) = w"
  using assms by (auto simp: consolidate_data_run_def write_output_def split: sum.splits if_splits)

theorem consolidate_data_run_error_no_effect_witness:
  "snd (consolidate_data_run ex_loads poec_data_url \<lparr>status_code = 404, resp_text = []\<rparr>
     poec_lang_url \<lparr>status_code = 200, resp_text = ''L''\<rparr> ''poe.json'' ex_world) = ex_world"
proof -
  have "isl (fst (consolidate_data_run ex_loads poec_data_url \<lparr>status_code = 404, resp_text = []\<rparr>
     poec_lang_url \<lparr>status_code = 200, resp_text = ''L''\<rparr> ''poe.json'' ex_world))"
    by (simp add: consolidate_data_run_def consolidate_data_def fetch_json_not_ok response_ok_def)
  from consolidate_data_run_error_no_effect [OF this] show ?thesis .
qed

text \<open>C17. A successful run of the script writes \<open>poe.json\<close> and nothing else: the
  file holds \<open>{"base_groups": [...]}\<close> with one group per base of the fetched
  \<open>poec_lang["base"]\<close>, in order, every tier weighing more than 1, and the message
  naming the file is printed once.\<close>

theorem run_script_writes_document:
  assumes "run_script loads data_resp lang_resp w = (Inr (), w')"
  shows "\<exists>poec_lang bgs0 bgs. fetch_json loads poec_lang_url lang_resp = Inr poec_lang \<and>
           parse_base_groups poec_lang = Inr bgs0 \<and> keys bgs = keys bgs0 \<and> groups_valid bgs \<and>
           files w' = (files w)(''poe.json'' \<mapsto> consolidated_json bgs) \<and>
           stdout w' = stdout w @ [''Consolidated JSON saved to poe.json'']"
proof -
  obtain doc where cd: "consolidate_data loads poec_data_url data_resp poec_lang_url lang_resp = Inr doc"
      and w': "w' = w\<lparr>files := (files w)(''poe.json'' \<mapsto> doc),
                     stdout := stdout w @ [''Consolidated JSON saved to poe.json'']\<rparr>"
    using assms by (auto simp: run_script_def consolidate_data_run_def write_output_def split: sum.splits if_splits)
  then obtain poec_data poec_lang bgs where
      fl: "fetch_json loads poec_lang_url lang_resp = Inr poec_lang" and
      bg: "build_groups loads poec_data poec_lang = Inr bgs" and doc: "doc = consolidated_json bgs"
    by (auto simp: consolidate_data_def)
  from bg obtain bgs0 where "parse_base_groups poec_lang = Inr bgs0" "groups_valid bgs" "keys bgs = keys bgs0"
    by (rule build_groups_stages)
  with fl doc w' show ?thesis by auto
qed

theorem run_script_writes_document_witness:
  "\<exists>w'. run_script ex_run_loads \<lparr>status_code = 200, resp_text = ''poecd=D''\<rparr>
          \<lparr>status_code = 200, resp_text = ''L''\<rparr> ex_world = (Inr (), w') \<and>
        (\<exists>bgs. files w' ''poe.json'' = Some (consolidated_json bgs) \<and> groups_valid bgs \<and> keys bgs = [''1''])"
proof -
  let ?r = "run_script ex_run_loads \<lparr>status_code = 200, resp_text = ''poecd=D''\<rparr>
              \<lparr>status_code = 200, resp_text = ''L''\<rparr> ex_world"
  have ok: "fst ?r = Inr ()" by code_simp
  obtain w' where run: "?r = (Inr (), w')" using ok by (cases ?r) auto
  have lang: "fetch_json ex_run_loads poec_lang_url \<lparr>status_code = 200, resp_text = ''L''\<rparr> = Inr ex_lang"
    by code_simp
  have base: "parse_base_groups ex_lang = Inr [(''1'', new_group (JStr ''helmet_str_armour''))]"
    by code_simp
  from run_script_writes_document [OF run] lang base obtain bgs where
    "files w' = (files ex_world)(''poe.json'' \<mapsto> consolidated_json bgs)" "groups_valid bgs" "keys bgs = [''1'']"
    by auto
  with run show ?thesis by auto
qed

theorem affix_percents_sum_witness:
  "\<bar>sum_list (map (pct_value \<circ> affix_percent) (concat (map tiers (prefixes
      (ex_pct_group (Some (JFloat (Fin (4691251957469073 / 70368744177664))))
                    (Some (JFloat (Fin (4691244920594655 / 140737488355328))))))))) - 100\<bar>
     \<le> 2 * (1 / 20000 + 1 / 2 ^ 44)"
proof -
  let ?g = "ex_pct_group (Some (JFloat (Fin (4691251957469073 / 70368744177664))))
                         (Some (JFloat (Fin (4691244920594655 / 140737488355328))))"
  have valid: "groups_valid [(''1'', ex_pct_group None None)]"
    by (simp add: groups_valid_def group_tiers_def ex_pct_group_def ex_pct_tier_def new_group_def)
  have run: "calculate_percentages [(''1'', ex_pct_group None None)] = Inr [(''1'', ?g)]"
    by code_simp
  have ne: "concat (map tiers (prefixes ?g)) \<noteq> []" by (simp add: ex_pct_group_def new_group_def)
  from Percentages.affix_percents_sum [OF valid run _ disjI1 [OF refl] ne] show ?thesis
    by (simp add: ex_pct_group_def new_group_def)
qed

theorem parse_items_refines_witness:
  "\<exists>bgs'. parse_items ex_data ex_lang [(''1'', new_group (JStr ''h''))] = Inr bgs' \<and>
     items_view bgs' = [(''1'', [JStr ''Iron Hat''])]"
proof -
  have seq: "py_seq ex_data ''bitems'' ''seq'' = Inr [JObj [(''id_base'', JStr ''1''), (''id_bitem'', JStr ''10'')]]"
    by code_simp
  have bi: "py_get ex_lang ''bitem'' = Inr (JObj [(''10'', JStr ''Iron Hat'')])" by code_simp
  have rows: "list_all2 (\<lambda>it (b, n). py_get it ''id_base'' = Inr (JStr b) \<and>
      py_get_default (JObj [(''10'', JStr ''Iron Hat'')]) (py_get it ''id_bitem'') (JStr ''Unknown Item'') = Inr n)
      [JObj [(''id_base'', JStr ''1''), (''id_bitem'', JStr ''10'')]] [(''1'', JStr ''Iron Hat'')]"
    by code_simp
  have "distinct (keys [(''1'', new_group (JStr ''h''))])" by simp
  from BaseGroups.parse_items_refines [OF seq bi rows this] show ?thesis
    by (simp add: new_group_def) blast
qed

text \<open>C19. Every document \<open>consolidate_data\<close> produces, the one \<open>json.dump\<close>
  writes, has the schema \<open>doc_ok\<close>: the single key \<open>base_groups\<close>, group objects with
  the script's keys in order, affix objects with exactly \<open>description\<close>,
  \<open>mod_groups\<close>, \<open>tiers\<close>, and tier objects whose weighting is an int above 1 and
  whose two percentages are present as finite floats.\<close>

theorem consolidate_data_doc_ok:
  assumes "consolidate_data loads data_url data_resp lang_url lang_resp = Inr doc"
  shows "doc_ok doc"
proof -
  from assms obtain poec_data poec_lang bgs where
    bg: "build_groups loads poec_data poec_lang = Inr bgs" and doc: "doc = consolidated_json bgs"
    by (auto simp: consolidate_data_def)
  from bg obtain bgs0 where valid: "groups_valid bgs" by (rule build_groups_stages)
  have near: "percentages_near bgs" using bg by (rule build_groups_near)
  have "group_doc_ok (group_json g)" if "(k, g) \<in> set bgs" for k g
  proof (rule group_json_ok)
    show "list_all (\<lambda>t. 1 < weighting t) (group_tiers g)"
      using valid that by (auto simp: groups_valid_def list_all_iff)
    show "group_near g" using near that by (auto simp: percentages_near_def)
  qed
  then show ?thesis by (auto simp: doc doc_ok_def consolidated_json_def list_all_iff)
qed

theorem consolidate_data_doc_ok_witness:
  "\<exists>doc. consolidate_data ex_run_loads poec_data_url \<lparr>status_code = 200, resp_text = ''poecd=D''\<rparr>
            poec_lang_url \<lparr>status_code = 200, resp_text = ''L''\<rparr> = Inr doc \<and> doc_ok doc"
proof -
  let ?c = "consolidate_data ex_run_loads poec_data_url \<lparr>status_code = 200, resp_text = ''poecd=D''\<rparr>
              poec_lang_url \<lparr>status_code = 200, resp_text = ''L''\<rparr>"
  have "\<not> isl ?c" by code_simp
  then obtain doc where run: "?c = Inr doc" by (cases ?c) auto
  with consolidate_data_doc_ok [OF run] show ?thesis by blast
qed

theorem parse_bases_refines_witness:
  "\<exists>bgs'. parse_bases_and_groups ex_bases_data ex_lang [(''1'', new_group (JStr ''h''))] = Inr bgs' \<and>
     bases_view bgs' = [(''1'', Some (JStr ''gloves''), Some (JStr ''Armour''))]"
proof -
  have seq: "py_seq ex_bases_data ''bases'' ''seq'' =
      Inr [JObj [(''id_base'', JStr ''1''), (''base_type'', JStr ''helmet''), (''id_bgroup'', JStr ''5'')],
           JObj [(''id_base'', JStr ''1''), (''base_type'', JStr ''gloves''), (''id_bgroup'', JStr ''5'')]]"
    by code_simp
  have bgt: "py_get ex_lang ''bgroup'' = Inr (JObj [(''5'', JStr ''Armour'')])" by code_simp
  have rows: "list_all2 (\<lambda>base (b, bt, grp). py_get base ''id_base'' = Inr (JStr b) \<and>
      py_get_default base (Inr (JStr ''base_type'')) (JStr ''unknown'') = Inr bt \<and>
      py_get_default (JObj [(''5'', JStr ''Armour'')]) (py_get base ''id_bgroup'') (JStr ''Unknown Group'') = Inr grp)
      [JObj [(''id_base'', JStr ''1''), (''base_type'', JStr ''helmet''), (''id_bgroup'', JStr ''5'')],
       JObj [(''id_base'', JStr ''1''), (''base_type'', JStr ''gloves''), (''id_bgroup'', JStr ''5'')]]
      [(''1'', JStr ''helmet'', JStr ''Armour''), (''1'', JStr ''gloves'', JStr ''Armour'')]"
    by code_simp
  have "distinct (keys [(''1'', new_group (JStr ''h''))])" by simp
  from BaseGroups.parse_bases_refines [OF seq bgt rows this] obtain bgs' where
    "parse_bases_and_groups ex_bases_data ex_lang [(''1'', new_group (JStr ''h''))] = Inr bgs'"
    "bases_view bgs' = bases_spec [(''1'', JStr ''helmet'', JStr ''Armour''), (''1'', JStr ''gloves'', JStr ''Armour'')]
        (bases_view [(''1'', new_group (JStr ''h''))])" by blast
  moreover have "bases_spec [(''1'', JStr ''helmet'', JStr ''Armour''), (''1'', JStr ''gloves'', JStr ''Armour'')]
        (bases_view [(''1'', new_group (JStr ''h''))]) = [(''1'', Some (JStr ''gloves''), Some (JStr ''Armour''))]"
    by code_simp
  ultimately show ?thesis by auto
qed

end
